theory Spec2Isabelle
  imports Main "HOL-Library.AList" "HOL-Library.Sublist"
begin

section \<open>Tegen: the package manager's install pipeline\<close>

text \<open>
  The development follows the class \<open>PackageManager\<close> in its git-based revision (clone or
  update, header and library integration, \<open>CMakeLists.txt\<close> patch, manifest update, cleanup)
  and the command dispatcher \<open>main\<close>.

  The project directory (the current working directory) is a tree of files and directories;
  paths are lists of components relative to it. The manifest \<open>TegenConfig.json\<close> is kept
  beside the tree, as the JSON value the code reads with \<open>file >> config\<close> and writes with
  \<open>config.dump(4)\<close>. External programs (git, cmake, the built executable) and the part of
  \<open>remove_all\<close> that the operating system decides are parameters of the model.
\<close>

subsection \<open>JSON values\<close>

datatype json =
    JNull
  | JBool bool
  | JNum int
  | JStr string
  | JArr "json list"
  | JObj "(string \<times> json) list"

subsection \<open>Files, directories, paths\<close>

datatype node = File string | Dir "(string \<times> node) list"

type_synonym path = "string list"

datatype platform = Linux | Windows | MacOS

datatype command =
    GitClone string string path
  | GitFetch path
  | GitCheckout path string
  | GitPull path
  | CMakeConfigure
  | CMakeBuild
  | RunTarget path

datatype exn = RuntimeError command | FilesystemError | TypeError | ParseError

text \<open>What the program prints: one constructor per message of the source.\<close>

datatype message =
    HelpText
  | UsageHint
  | SpecifyPackage
  | UnknownCommand string
  | AnErrorOccurred exn
  | ConfigAlreadyExists
  | InitBanner
  | PromptFor string string
  | InitSummary json
  | InitInstructions
  | ConfigNotFound
  | AlreadyInstalled string json
  | Installing string string
  | AlreadyCloned
  | CopyingHeaders
  | HeaderProgress nat nat nat
  | CopyingLibraries
  | LibraryProgress nat nat nat
  | EndLine
  | CleanupWarning path
  | Installed string
  | FailedToInstall exn
  | DependenciesHeading
  | DependencyLine string json
  | Building
  | BuildCompleted
  | RunningProject
  | ExecutableNotFound path
  | FailedToRun
  | ProjectFinished

datatype event = Out message | Err message

text \<open>
  The manifest file: absent, holding a complete JSON document, or holding bytes that are
  not one (an empty file just after it was opened for writing, a half-written document).
\<close>

datatype manifest_file = Absent | Garbage | JsonFile json

record state =
  manifest :: manifest_file
  project :: node
  console :: "event list"
  stdin :: "string list"

text \<open>
  The environment: the host platform, the project directory's absolute name, and the
  outcome of what the program delegates. \<open>git\<close> gets the command and the destination
  as it is (if it exists) and gives the exit status and what the command makes of the
  destination: \<open>None\<close> when it leaves it as it found it, otherwise the entries of the
  directory that is there afterwards. So a git command writes below its destination only,
  and what it leaves at the destination is a directory. \<open>shell\<close> gives the exit status
  and the whole project tree after cmake or the built executable has run. \<open>residue\<close> is
  what \<open>remove_all\<close> cannot delete of a directory (\<open>None\<close>: everything was removed).
\<close>

record env =
  platform :: platform
  cwd :: string
  git :: "command \<Rightarrow> node option \<Rightarrow> int \<times> (string \<times> node) list option"
  shell :: "command \<Rightarrow> node \<Rightarrow> int \<times> node"
  residue :: "node \<Rightarrow> node option"

subsection \<open>std::filesystem on the tree\<close>

fun lookup :: "node \<Rightarrow> path \<Rightarrow> node option" where
  "lookup n [] = Some n"
| "lookup (File c) (x # p) = None"
| "lookup (Dir es) (x # p) = (case map_of es x of None \<Rightarrow> None | Some n \<Rightarrow> lookup n p)"

definition exists :: "node \<Rightarrow> path \<Rightarrow> bool" where
  "exists r p = (lookup r p \<noteq> None)"

definition is_directory :: "node \<Rightarrow> path \<Rightarrow> bool" where
  "is_directory r p = (case lookup r p of Some (Dir es) \<Rightarrow> True | _ \<Rightarrow> False)"

fun is_regular_file :: "node \<Rightarrow> bool" where
  "is_regular_file (File c) = True"
| "is_regular_file (Dir es) = False"

text \<open>
  \<open>create_directories\<close>: every missing component is created; a component that exists and
  is not a directory is an error.
\<close>

fun create_directories :: "node \<Rightarrow> path \<Rightarrow> exn + node" where
  "create_directories (File c) p = Inl FilesystemError"
| "create_directories (Dir es) [] = Inr (Dir es)"
| "create_directories (Dir es) (x # p) =
     (case create_directories (case map_of es x of None \<Rightarrow> Dir [] | Some n \<Rightarrow> n) p of
        Inl e \<Rightarrow> Inl e
      | Inr d \<Rightarrow> Inr (Dir (AList.update x d es)))"

text \<open>
  Writing a whole file at a path (what \<open>copy_file\<close> with \<open>overwrite_existing\<close> and an
  output stream do to their target): the parent must be a directory, the target must not
  be one; an existing file is replaced.
\<close>

fun write_file :: "node \<Rightarrow> path \<Rightarrow> string \<Rightarrow> exn + node" where
  "write_file (File d) [] c = Inr (File c)"
| "write_file (Dir es) [] c = Inl FilesystemError"
| "write_file (File d) (x # p) c = Inl FilesystemError"
| "write_file (Dir es) (x # p) c =
     (case map_of es x of
        None \<Rightarrow> (if p = [] then Inr (Dir (AList.update x (File c) es)) else Inl FilesystemError)
      | Some n \<Rightarrow> (case write_file n p c of
           Inl e \<Rightarrow> Inl e
         | Inr n' \<Rightarrow> Inr (Dir (AList.update x n' es))))"

definition copy_file :: "node \<Rightarrow> path \<Rightarrow> path \<Rightarrow> exn + node" where
  "copy_file r src tgt =
     (case lookup r src of
        Some (File c) \<Rightarrow> (if src = tgt then Inl FilesystemError else write_file r tgt c)
      | _ \<Rightarrow> Inl FilesystemError)"

text \<open>
  \<open>replace\<close> puts a node at a path whose parent exists, or takes the entry away; it is
  how the result of a git command and of \<open>remove_all\<close> enters the tree. The project
  directory itself (the empty path) is never replaced.
\<close>

fun replace :: "node \<Rightarrow> path \<Rightarrow> node option \<Rightarrow> node" where
  "replace (Dir es) [x] v =
     Dir (case v of None \<Rightarrow> AList.delete x es | Some n \<Rightarrow> AList.update x n es)"
| "replace (Dir es) (x # y # p) v =
     (case map_of es x of
        None \<Rightarrow> Dir es
      | Some c \<Rightarrow> Dir (AList.update x (replace c (y # p) v) es))"
| "replace n p v = n"

text \<open>
  \<open>create_directory\<close> (one level): an existing directory is left alone, an existing file
  or a missing parent is an error.
\<close>

definition create_directory :: "node \<Rightarrow> path \<Rightarrow> exn + node" where
  "create_directory r p =
     (case lookup r p of
        Some (Dir es) \<Rightarrow> Inr r
      | Some (File c) \<Rightarrow> Inl FilesystemError
      | None \<Rightarrow> (if p \<noteq> [] \<and> is_directory r (butlast p)
                 then Inr (replace r p (Some (Dir []))) else Inl FilesystemError))"

text \<open>
  \<open>directory_iterator\<close> lists a directory's entries; \<open>recursive_directory_iterator\<close> lists
  every entry below it, here with its path relative to the directory. Both fail on
  something that is not a directory.
\<close>

definition directory_iterator :: "node \<Rightarrow> path \<Rightarrow> exn + (string \<times> node) list" where
  "directory_iterator r p =
     (case lookup r p of Some (Dir es) \<Rightarrow> Inr es | _ \<Rightarrow> Inl FilesystemError)"

fun walk :: "node \<Rightarrow> (path \<times> node) list" where
  "walk (File c) = []"
| "walk (Dir es) =
     concat (map (\<lambda>(x, n). ([x], n) # map (\<lambda>(p, m). (x # p, m)) (walk n)) es)"

definition recursive_directory_iterator :: "node \<Rightarrow> path \<Rightarrow> exn + (path \<times> node) list" where
  "recursive_directory_iterator r p =
     (case lookup r p of Some (Dir es) \<Rightarrow> Inr (walk (Dir es)) | _ \<Rightarrow> Inl FilesystemError)"

text \<open>\<open>path::extension\<close> of a file name, and the test both library loops apply to it.\<close>

definition extension :: "string \<Rightarrow> string" where
  "extension name =
     (let stem = dropWhile (\<lambda>c. c \<noteq> CHR ''.'') (rev name)
      in if name = ''..'' \<or> stem = [] \<or> tl stem = [] then []
         else CHR ''.'' # rev (takeWhile (\<lambda>c. c \<noteq> CHR ''.'') (rev name)))"

definition is_static_library :: "string \<Rightarrow> bool" where
  "is_static_library name = (extension name = ''.a'' \<or> extension name = ''.lib'')"

subsection \<open>nlohmann::json, as far as the program uses it\<close>

text \<open>
  \<open>j[key]\<close> on a value that is not constant: null becomes an object, a missing key is
  inserted with null, anything but an object is a type error. \<open>j_at\<close> is the container
  after that, \<open>j_get\<close> the element.
\<close>

definition j_at :: "json \<Rightarrow> string \<Rightarrow> exn + json" where
  "j_at j k =
     (case j of
        JNull \<Rightarrow> Inr (JObj [(k, JNull)])
      | JObj kv \<Rightarrow> (case map_of kv k of None \<Rightarrow> Inr (JObj (kv @ [(k, JNull)])) | Some v \<Rightarrow> Inr j)
      | _ \<Rightarrow> Inl TypeError)"

definition j_get :: "json \<Rightarrow> string \<Rightarrow> json" where
  "j_get j k =
     (case j of
        JObj kv \<Rightarrow> (case map_of kv k of None \<Rightarrow> JNull | Some v \<Rightarrow> v)
      | _ \<Rightarrow> JNull)"

definition j_set :: "json \<Rightarrow> string \<Rightarrow> json \<Rightarrow> exn + json" where
  "j_set j k v =
     (case j of
        JNull \<Rightarrow> Inr (JObj [(k, v)])
      | JObj kv \<Rightarrow> Inr (JObj (AList.update k v kv))
      | _ \<Rightarrow> Inl TypeError)"

definition j_contains :: "json \<Rightarrow> string \<Rightarrow> bool" where
  "j_contains j k = (case j of JObj kv \<Rightarrow> k \<in> set (map fst kv) | _ \<Rightarrow> False)"

definition j_string :: "json \<Rightarrow> exn + string" where
  "j_string j = (case j of JStr s \<Rightarrow> Inr s | _ \<Rightarrow> Inl TypeError)"

fun decimal :: "nat \<Rightarrow> string" where
  "decimal n =
     (if n < 10 then [char_of (48 + n)] else decimal (n div 10) @ [char_of (48 + n mod 10)])"

text \<open>\<open>items()\<close>: the members of an object, the elements of an array under their indices,
  nothing for null, and any other value once, under the empty key.\<close>

fun j_items :: "json \<Rightarrow> (string \<times> json) list" where
  "j_items JNull = []"
| "j_items (JObj kv) = kv"
| "j_items (JArr xs) = zip (map decimal [0..<length xs]) xs"
| "j_items v = [([], v)]"

subsection \<open>State passing\<close>

definition say :: "event \<Rightarrow> state \<Rightarrow> state" where
  "say e s = s\<lparr>console := console s @ [e]\<rparr>"

text \<open>
  A statement that may throw gives the exception (if any) and the state it leaves;
  \<open>seq\<close> runs the second statement only when the first did not throw.
\<close>

definition seq ::
  "(state \<Rightarrow> exn option \<times> state) \<Rightarrow> (state \<Rightarrow> exn option \<times> state) \<Rightarrow> state \<Rightarrow> exn option \<times> state" where
  "seq f g s = (case f s of (Some e, s') \<Rightarrow> (Some e, s') | (None, s') \<Rightarrow> g s')"

definition fs_step :: "(node \<Rightarrow> exn + node) \<Rightarrow> state \<Rightarrow> exn option \<times> state" where
  "fs_step f s = (case f (project s) of Inl e \<Rightarrow> (Some e, s) | Inr r \<Rightarrow> (None, s\<lparr>project := r\<rparr>))"

subsection \<open>The private helpers of PackageManager\<close>

definition configExists :: "state \<Rightarrow> bool" where
  "configExists s = (manifest s \<noteq> Absent)"

definition loadConfig :: "state \<Rightarrow> exn + json" where
  "loadConfig s =
     (case manifest s of
        Absent \<Rightarrow> Inr (JObj [])
      | Garbage \<Rightarrow> Inl ParseError
      | JsonFile j \<Rightarrow> Inr j)"

text \<open>
  \<open>saveConfig\<close> opens the manifest itself for writing, which empties it, and then writes
  the document. The two file operations are kept apart so that a save that stops between
  them can be looked at; \<open>saveConfig\<close> is the save that runs to its end.
\<close>

datatype file_op = OpenTruncate | WriteDocument json

fun apply_op :: "file_op \<Rightarrow> state \<Rightarrow> state" where
  "apply_op OpenTruncate s = s\<lparr>manifest := Garbage\<rparr>"
| "apply_op (WriteDocument j) s = s\<lparr>manifest := JsonFile j\<rparr>"

definition saveConfig_ops :: "json \<Rightarrow> file_op list" where
  "saveConfig_ops config = [OpenTruncate, WriteDocument config]"

definition saveConfig_upto :: "nat \<Rightarrow> json \<Rightarrow> state \<Rightarrow> state" where
  "saveConfig_upto k config s = fold apply_op (take k (saveConfig_ops config)) s"

definition saveConfig :: "json \<Rightarrow> state \<Rightarrow> state" where
  "saveConfig config s = fold apply_op (saveConfig_ops config) s"

text \<open>\<open>std::system\<close> and \<open>executeCommand\<close>, which throws on a non-zero status.\<close>

fun destination :: "command \<Rightarrow> path option" where
  "destination (GitClone v r d) = Some d"
| "destination (GitFetch d) = Some d"
| "destination (GitCheckout d v) = Some d"
| "destination (GitPull d) = Some d"
| "destination c = None"

definition system :: "env \<Rightarrow> command \<Rightarrow> state \<Rightarrow> int \<times> state" where
  "system E c s =
     (case destination c of
        Some d \<Rightarrow> (case git E c (lookup (project s) d) of
                     (rc, None) \<Rightarrow> (rc, s)
                   | (rc, Some es) \<Rightarrow> (rc, s\<lparr>project := replace (project s) d (Some (Dir es))\<rparr>))
      | None \<Rightarrow> (case shell E c (project s) of (rc, r) \<Rightarrow> (rc, s\<lparr>project := r\<rparr>)))"

definition executeCommand :: "env \<Rightarrow> command \<Rightarrow> state \<Rightarrow> exn option \<times> state" where
  "executeCommand E c s =
     (case system E c s of
        (rc, s') \<Rightarrow> if rc \<noteq> 0 then (Some (RuntimeError c), s') else (None, s'))"

subsection \<open>Output streams\<close>

text \<open>
  A \<open>std::ofstream\<close> never throws here: when the file cannot be opened (the path is a
  directory, the parent is missing) what is written to it is dropped.
\<close>

definition ofstream_write :: "node \<Rightarrow> path \<Rightarrow> string \<Rightarrow> node" where
  "ofstream_write r p txt = (case write_file r p txt of Inl e \<Rightarrow> r | Inr r' \<Rightarrow> r')"

definition ofstream_append :: "node \<Rightarrow> path \<Rightarrow> string \<Rightarrow> node" where
  "ofstream_append r p txt =
     ofstream_write r p ((case lookup r p of Some (File c) \<Rightarrow> c | _ \<Rightarrow> []) @ txt)"

definition endl :: string where
  "endl = [CHR 0x0A]"

definition dq :: string where
  "dq = [CHR 0x22]"

definition separator :: "platform \<Rightarrow> char" where
  "separator pf = (case pf of Windows \<Rightarrow> CHR 0x5C | _ \<Rightarrow> CHR ''/'')"

definition native :: "env \<Rightarrow> path \<Rightarrow> string" where
  "native E p = cwd E @ concat (map (\<lambda>x. separator (platform E) # x) p)"

subsection \<open>init\<close>

definition prompt :: "string \<Rightarrow> string \<Rightarrow> state \<Rightarrow> string \<times> state" where
  "prompt msg dflt s =
     (let s1 = say (Out (PromptFor msg dflt)) s
      in case stdin s1 of
           [] \<Rightarrow> (dflt, s1)
         | l # ls \<Rightarrow> (if l = [] then dflt else l, s1\<lparr>stdin := ls\<rparr>))"

definition main_cpp :: string where
  "main_cpp =
     ''#include <iostream>'' @ endl @ endl @
     ''int main() {'' @ endl @
     ''    std::cout << '' @ dq @ ''Hello, World!'' @ dq @ '' << std::endl;'' @ endl @
     ''    return 0;'' @ endl @
     ''}'' @ endl"

definition cmake_lists :: "string \<Rightarrow> string \<Rightarrow> string" where
  "cmake_lists name version =
     ''cmake_minimum_required(VERSION 3.10)'' @ endl @
     ''project('' @ name @ '' VERSION '' @ version @ '')'' @ endl @ endl @
     ''set(CMAKE_CXX_STANDARD 17)'' @ endl @ endl @
     ''include_directories(include)'' @ endl @
     ''add_executable('' @ name @ '' src/main.cpp)'' @ endl"

definition init :: "state \<Rightarrow> exn option \<times> state" where
  "init s =
     (if configExists s then (None, say (Out ConfigAlreadyExists) s)
      else
        case prompt ''Enter project name'' ''my-package'' (say (Out InitBanner) s) of (name, s1) \<Rightarrow>
        case prompt ''Enter project version'' ''1.0.0'' s1 of (version, s2) \<Rightarrow>
        case prompt ''Enter author name'' ''Anonymous'' s2 of (author, s3) \<Rightarrow>
        case prompt ''Enter license type'' ''MIT'' s3 of (license, s4) \<Rightarrow>
        case prompt ''Enter project description'' ''A C++ project'' s4 of (description, s5) \<Rightarrow>
        let config = JObj [(''author'', JStr author), (''dependencies'', JObj []),
                           (''description'', JStr description), (''license'', JStr license),
                           (''name'', JStr name), (''version'', JStr version)]
        in seq (fs_step (\<lambda>r. create_directory r [''src'']))
             (seq (fs_step (\<lambda>r. create_directory r [''include'']))
                (\<lambda>s'. (None,
                   say (Out InitInstructions)
                     (s'\<lparr>project :=
                         ofstream_write (ofstream_write (project s') [''src'', ''main.cpp''] main_cpp)
                           [''CMakeLists.txt''] (cmake_lists name version)\<rparr>))))
             (say (Out (InitSummary config)) (saveConfig config s5)))"

subsection \<open>install\<close>

definition modulesDir :: path where
  "modulesDir = [''TegenModules'']"

definition projectInclude :: path where
  "projectInclude = [''include'']"

definition projectLib :: path where
  "projectLib = [''lib'']"

definition cmakeFile :: path where
  "cmakeFile = [''CMakeLists.txt'']"

definition osBranch :: "platform \<Rightarrow> string" where
  "osBranch pf =
     (case pf of Windows \<Rightarrow> ''WindowsBranch'' | MacOS \<Rightarrow> ''MacBranch'' | Linux \<Rightarrow> ''LinuxBranch'')"

definition resolvedVersion :: "platform \<Rightarrow> string \<Rightarrow> string" where
  "resolvedVersion pf version = (if version = [] then osBranch pf else version)"

text \<open>
  \<open>modulesDir / repository\<close>, the place of the repository in the staging directory. The
  empty name and the name \<open>.\<close> give \<open>TegenModules\<close> itself and the name \<open>..\<close> gives the
  project directory; every other name is taken as the name of one entry of \<open>TegenModules\<close>
  (a name with a separator in it is not split). With the name \<open>..\<close> git runs in the
  project directory itself, and what it does there is not followed: the project is taken
  to stay as it is.
\<close>

definition repoDir :: "string \<Rightarrow> path" where
  "repoDir repository =
     (if repository = [] \<or> repository = ''.'' then modulesDir
      else if repository = ''..'' then []
      else modulesDir @ [repository])"

text \<open>Clone or update the repository.\<close>

definition fetch :: "env \<Rightarrow> string \<Rightarrow> string \<Rightarrow> state \<Rightarrow> exn option \<times> state" where
  "fetch E repository version s =
     (if \<not> exists (project s) (repoDir repository)
      then executeCommand E (GitClone version repository (repoDir repository)) s
      else seq (executeCommand E (GitFetch (repoDir repository)))
             (seq (executeCommand E (GitCheckout (repoDir repository) version))
                  (executeCommand E (GitPull (repoDir repository))))
             (say (Out AlreadyCloned) s))"

text \<open>
  COPY HEADERS. The files are listed first (their paths relative to the repository's
  \<open>include\<close>), then copied one by one; an exception leaves what was copied before it.
\<close>

fun copy_header_files :: "path \<Rightarrow> nat \<Rightarrow> nat \<Rightarrow> path list \<Rightarrow> state \<Rightarrow> exn option \<times> state" where
  "copy_header_files src total' count [] s = (None, s)"
| "copy_header_files src total' count (relative # rest) s =
     (case create_directories (project s) (butlast (projectInclude @ relative)) of
        Inl e \<Rightarrow> (Some e, s)
      | Inr r1 \<Rightarrow>
          (case copy_file r1 (src @ relative) (projectInclude @ relative) of
             Inl e \<Rightarrow> (Some e, s\<lparr>project := r1\<rparr>)
           | Inr r2 \<Rightarrow>
               copy_header_files src total' (Suc count) rest
                 (say (Out (HeaderProgress (Suc count * 100 div total') (Suc count) total'))
                    (s\<lparr>project := r2\<rparr>))))"

definition copy_headers :: "path \<Rightarrow> state \<Rightarrow> exn option \<times> state" where
  "copy_headers dir s =
     (let sourceIncludeDir = dir @ [''include''] in
      if exists (project s) sourceIncludeDir then
        (case recursive_directory_iterator (project s) sourceIncludeDir of
           Inl e \<Rightarrow> (Some e, say (Out CopyingHeaders) s)
         | Inr entries \<Rightarrow>
             (let headerFiles = map fst (filter (\<lambda>(p, n). is_regular_file n) entries) in
              seq (copy_header_files sourceIncludeDir (length headerFiles) 0 headerFiles)
                  (\<lambda>s'. (None, say (Out EndLine) s'))
                  (say (Out CopyingHeaders) s)))
      else (None, s))"

text \<open>
  COPY LIBS. The loop that looks for the library directory goes down while the directory
  has exactly one entry.
\<close>

function descend :: "node \<Rightarrow> path \<Rightarrow> path" where
  "descend r libDir =
     (if exists r libDir \<and> is_directory r libDir
         \<and> length (case directory_iterator r libDir of Inl e \<Rightarrow> [] | Inr es \<Rightarrow> es) = 1
      then descend r (libDir @ [fst (hd (case directory_iterator r libDir of Inl e \<Rightarrow> [] | Inr es \<Rightarrow> es))])
      else libDir)"
  by pat_completeness auto

termination
proof (relation "measure (\<lambda>(r, p). case lookup r p of None \<Rightarrow> 0 | Some n \<Rightarrow> size n)")
  show "wf (measure (\<lambda>(r, p). case lookup r p of None \<Rightarrow> 0 | Some n \<Rightarrow> size n))"
    by simp
next
  fix r :: node and libDir :: path
  assume a: "exists r libDir \<and> is_directory r libDir
    \<and> length (case directory_iterator r libDir of Inl e \<Rightarrow> [] | Inr es \<Rightarrow> es) = 1"
  have app: "lookup n (p @ q) = (case lookup n p of None \<Rightarrow> None | Some m \<Rightarrow> lookup m q)"
    for n p q
    by (induction n p rule: lookup.induct) (auto split: option.splits)
  from a obtain x c where l: "lookup r libDir = Some (Dir [(x, c)])"
    by (auto simp: is_directory_def directory_iterator_def length_Suc_conv
        split: option.splits node.splits)
  then show "((r, libDir @ [fst (hd (case directory_iterator r libDir of Inl e \<Rightarrow> [] | Inr es \<Rightarrow> es))]),
      (r, libDir)) \<in> measure (\<lambda>(r, p). case lookup r p of None \<Rightarrow> 0 | Some n \<Rightarrow> size n)"
    by (simp add: app directory_iterator_def)
qed

declare descend.simps [simp del]

fun copy_library_files :: "nat \<Rightarrow> nat \<Rightarrow> path list \<Rightarrow> state \<Rightarrow> exn option \<times> state" where
  "copy_library_files total' count [] s = (None, s)"
| "copy_library_files total' count (file # rest) s =
     (case copy_file (project s) file (projectLib @ [last file]) of
        Inl e \<Rightarrow> (Some e, s)
      | Inr r \<Rightarrow>
          copy_library_files total' (Suc count) rest
            (say (Out (LibraryProgress (Suc count * 100 div total') (Suc count) total'))
               (s\<lparr>project := r\<rparr>)))"

definition copy_libs :: "path \<Rightarrow> state \<Rightarrow> exn option \<times> state" where
  "copy_libs dir s =
     (let libDir = descend (project s) (dir @ [''lib'']) in
      if exists (project s) libDir then
        (case recursive_directory_iterator (project s) libDir of
           Inl e \<Rightarrow> (Some e, say (Out CopyingLibraries) s)
         | Inr entries \<Rightarrow>
             (let libFiles =
                map (\<lambda>(p, n). libDir @ p)
                  (filter (\<lambda>(p, n). is_regular_file n \<and> is_static_library (last p)) entries)
              in seq (copy_library_files (length libFiles) 0 libFiles)
                   (\<lambda>s'. (None, say (Out EndLine) s'))
                   (say (Out CopyingLibraries) s)))
      else (None, s))"

text \<open>
  UPDATE CMakeLists.txt. The file is opened for appending and gets the comment naming the
  repository, the include line, and one link line for every entry of the project's \<open>lib\<close>
  whose name ends in \<open>.lib\<close> or \<open>.a\<close>.
\<close>

definition marker :: "string \<Rightarrow> string" where
  "marker repository = ''# Added by Tegen for '' @ repository"

definition link_directive :: "env \<Rightarrow> string \<Rightarrow> string" where
  "link_directive E name =
     ''target_link_libraries(${PROJECT_NAME} PRIVATE '' @ dq @ native E (projectLib @ [name]) @ dq
       @ '')'' @ endl"

definition system_libraries :: "platform \<Rightarrow> string" where
  "system_libraries pf =
     (case pf of
        Windows \<Rightarrow> ''target_link_libraries(${PROJECT_NAME} PRIVATE ws2_32 mswsock advapi32)'' @ endl
      | _ \<Rightarrow> [])"

definition update_cmake :: "env \<Rightarrow> string \<Rightarrow> state \<Rightarrow> exn option \<times> state" where
  "update_cmake E repository s =
     (let r1 = ofstream_append (project s) cmakeFile
                 (endl @ marker repository @ endl @ ''include_directories(include)'' @ endl)
      in case directory_iterator r1 projectLib of
           Inl e \<Rightarrow> (Some e, s\<lparr>project := r1\<rparr>)
         | Inr libFiles \<Rightarrow>
             (None, s\<lparr>project :=
                ofstream_append r1 cmakeFile
                  (concat (map (link_directive E) (filter is_static_library (map fst libFiles)))
                   @ system_libraries (platform E))\<rparr>))"

text \<open>UPDATE CONFIG: \<open>config["dependencies"][repository] = resolvedVersion\<close>, then the save.\<close>

definition set_dependency :: "json \<Rightarrow> string \<Rightarrow> string \<Rightarrow> exn + json" where
  "set_dependency config repository version =
     (case j_at config ''dependencies'' of
        Inl e \<Rightarrow> Inl e
      | Inr c \<Rightarrow>
          (case j_set (j_get c ''dependencies'') repository (JStr version) of
             Inl e \<Rightarrow> Inl e
           | Inr d \<Rightarrow> j_set c ''dependencies'' d))"

definition update_config :: "string \<Rightarrow> string \<Rightarrow> json \<Rightarrow> state \<Rightarrow> exn option \<times> state" where
  "update_config repository version config s =
     (case set_dependency config repository version of
        Inl e \<Rightarrow> (Some e, s)
      | Inr c \<Rightarrow> (None, saveConfig c s))"

text \<open>
  CLEAN UP. On Windows the folder is walked first to make its entries writable
  (permissions are not part of the tree, the walk is, and it throws on something that is
  not a directory); \<open>remove_all\<close> reports through an error code, which becomes a warning.
\<close>

definition removeFolderRecursively :: "env \<Rightarrow> path \<Rightarrow> state \<Rightarrow> exn option \<times> state" where
  "removeFolderRecursively E folder s =
     (case (if platform E = Windows then recursive_directory_iterator (project s) folder
            else Inr []) of
        Inl e \<Rightarrow> (Some e, s)
      | Inr entries \<Rightarrow>
          (case lookup (project s) folder of
             None \<Rightarrow> (None, s)
           | Some n \<Rightarrow>
               (case residue E n of
                  None \<Rightarrow> (None, s\<lparr>project := replace (project s) folder None\<rparr>)
                | Some left \<Rightarrow>
                    (None, say (Err (CleanupWarning folder))
                             (s\<lparr>project := replace (project s) folder (Some left)\<rparr>)))))"

text \<open>
  The statements of the \<open>try\<close> block: everything up to the saved manifest, then the cleanup
  and the closing message.
\<close>

definition integrate :: "env \<Rightarrow> string \<Rightarrow> string \<Rightarrow> json \<Rightarrow> state \<Rightarrow> exn option \<times> state" where
  "integrate E repository version config =
     seq (fetch E repository version)
       (seq (copy_headers (repoDir repository))
          (seq (copy_libs (repoDir repository))
             (seq (update_cmake E repository)
                (update_config repository version config))))"

definition install_try :: "env \<Rightarrow> string \<Rightarrow> string \<Rightarrow> json \<Rightarrow> state \<Rightarrow> exn option \<times> state" where
  "install_try E repository version config s =
     seq (integrate E repository version config)
       (seq (removeFolderRecursively E modulesDir)
          (\<lambda>s'. (None, say (Out (Installed repository)) s')))
       (say (Out (Installing repository version)) s)"

definition ensure_directories :: "state \<Rightarrow> exn option \<times> state" where
  "ensure_directories =
     seq (fs_step (\<lambda>r. create_directories r modulesDir))
       (seq (fs_step (\<lambda>r. create_directories r projectInclude))
          (fs_step (\<lambda>r. create_directories r projectLib)))"

definition install :: "env \<Rightarrow> string \<Rightarrow> string \<Rightarrow> state \<Rightarrow> exn option \<times> state" where
  "install E repository version s =
     (if \<not> configExists s then (None, say (Err ConfigNotFound) s)
      else
        case loadConfig s of
          Inl e \<Rightarrow> (Some e, s)
        | Inr loaded \<Rightarrow>
            (case ensure_directories s of
               (Some e, s1) \<Rightarrow> (Some e, s1)
             | (None, s1) \<Rightarrow>
                 (case j_at loaded ''dependencies'' of
                    Inl e \<Rightarrow> (Some e, s1)
                  | Inr config \<Rightarrow>
                      if j_contains (j_get config ''dependencies'') repository
                      then (None, say (Out (AlreadyInstalled repository
                                       (j_get (j_get config ''dependencies'') repository))) s1)
                      else
                        (case install_try E repository (resolvedVersion (platform E) version) config s1 of
                           (Some e, s2) \<Rightarrow> (None, say (Err (FailedToInstall e)) s2)
                         | (None, s2) \<Rightarrow> (None, s2)))))"

subsection \<open>list, build, run\<close>

definition listDependencies :: "state \<Rightarrow> exn option \<times> state" where
  "listDependencies s =
     (if \<not> configExists s then (None, say (Err ConfigNotFound) s)
      else
        case loadConfig s of
          Inl e \<Rightarrow> (Some e, s)
        | Inr loaded \<Rightarrow>
            (case j_at loaded ''dependencies'' of
               Inl e \<Rightarrow> (Some e, say (Out DependenciesHeading) s)
             | Inr config \<Rightarrow>
                 (None, fold (\<lambda>(key, v). say (Out (DependencyLine key v)))
                          (j_items (j_get config ''dependencies''))
                          (say (Out DependenciesHeading) s))))"

definition build :: "env \<Rightarrow> state \<Rightarrow> exn option \<times> state" where
  "build E s =
     (if \<not> configExists s then (None, say (Err ConfigNotFound) s)
      else
        seq (fs_step (\<lambda>r. create_directory r [''build'']))
          (seq (executeCommand E CMakeConfigure)
             (seq (executeCommand E CMakeBuild)
                (\<lambda>s'. (None, say (Out BuildCompleted) s'))))
          (say (Out Building) s))"

definition run :: "env \<Rightarrow> state \<Rightarrow> exn option \<times> state" where
  "run E s =
     (if \<not> configExists s then (None, say (Err ConfigNotFound) s)
      else
        case loadConfig s of
          Inl e \<Rightarrow> (Some e, s)
        | Inr loaded \<Rightarrow>
            (case j_at loaded ''name'' of
               Inl e \<Rightarrow> (Some e, s)
             | Inr config \<Rightarrow>
                 (case j_string (j_get config ''name'') of
                    Inl e \<Rightarrow> (Some e, s)
                  | Inr projectName \<Rightarrow>
                      (let s1 = say (Out RunningProject) s;
                           buildPath = [''build'',
                             projectName @ (if platform E = Windows then ''.exe'' else [])]
                       in if \<not> exists (project s1) buildPath
                          then (None, say (Err (ExecutableNotFound buildPath)) s1)
                          else
                            case system E (RunTarget buildPath) s1 of
                              (result, s2) \<Rightarrow>
                                if result \<noteq> 0 then (None, say (Err FailedToRun) s2)
                                else (None, say (Out ProjectFinished) s2)))))"

subsection \<open>main\<close>

definition dispatch :: "env \<Rightarrow> string list \<Rightarrow> state \<Rightarrow> exn option \<times> state" where
  "dispatch E argv s =
     (let command = argv ! 1 in
      if command = ''init'' then init s
      else if command = ''install'' then install E (argv ! 2) [] s
      else if command = ''list'' then listDependencies s
      else if command = ''build'' then build E s
      else if command = ''run'' then run E s
      else (None, say (Err (UnknownCommand command)) s))"

definition main :: "env \<Rightarrow> string list \<Rightarrow> state \<Rightarrow> int \<times> state" where
  "main E argv s =
     (if length argv = 2 \<and> argv ! 1 = ''-h'' then (0, say (Out HelpText) s)
      else if length argv < 2 then (1, say (Err UsageHint) s)
      else if argv ! 1 = ''install'' \<and> length argv < 3 then (1, say (Err SpecifyPackage) s)
      else
        case dispatch E argv s of
          (Some e, s') \<Rightarrow> (1, say (Err (AnErrorOccurred e)) s')
        | (None, s') \<Rightarrow> (0, s'))"

subsection \<open>Notions for the properties\<close>

text \<open>
  A tree is well formed when no directory lists a name twice. A staged library is a
  regular file below a directory whose name has one of the two library extensions, given
  by its path relative to that directory and its content. A directory is a single child
  directory when it has exactly one entry.
\<close>

fun wf_node :: "node \<Rightarrow> bool" where
  "wf_node (File c) = True"
| "wf_node (Dir es) = (distinct (map fst es) \<and> (\<forall>(x, n) \<in> set es. wf_node n))"



text \<open>
  The text of a file (empty when there is none), the block the CMakeLists.txt update
  writes for a repository when the project's \<open>lib\<close> lists the given names, and running a
  statement a number of times, stopping at the first exception.
\<close>

definition text_of :: "node \<Rightarrow> path \<Rightarrow> string" where
  "text_of r p = (case lookup r p of Some (File c) \<Rightarrow> c | _ \<Rightarrow> [])"

definition directive_block :: "env \<Rightarrow> string \<Rightarrow> string list \<Rightarrow> string" where
  "directive_block E repository libs =
     endl @ marker repository @ endl @ ''include_directories(include)'' @ endl
     @ concat (map (link_directive E) (filter is_static_library libs))
     @ system_libraries (platform E)"

fun repeat :: "nat \<Rightarrow> (state \<Rightarrow> exn option \<times> state) \<Rightarrow> state \<Rightarrow> exn option \<times> state" where
  "repeat 0 f s = (None, s)"
| "repeat (Suc n) f s = seq f (repeat n f) s"

text \<open>The lines of a text, and how many of them are the comment that heads a block.\<close>

fun lines_of :: "string \<Rightarrow> string list" where
  "lines_of [] = [[]]"
| "lines_of (c # cs) =
     (if c = CHR 0x0A then [] # lines_of cs
      else (case lines_of cs of [] \<Rightarrow> [[c]] | l # ls \<Rightarrow> (c # l) # ls))"

definition marked_blocks :: "string \<Rightarrow> string \<Rightarrow> nat" where
  "marked_blocks repository txt = length (filter (\<lambda>l. l = marker repository) (lines_of txt))"

text \<open>
  A name is occupied in the project directory when no directory of that name can be made
  there: a regular file has the name (or the project directory is itself a regular file).
  A JSON value is object-like when \<open>j[key]\<close> does not throw on it: an object or null.
\<close>

definition occupied :: "node \<Rightarrow> string \<Rightarrow> bool" where
  "occupied r x =
     (case r of
        File c \<Rightarrow> True
      | Dir es \<Rightarrow> (case map_of es x of Some (File c) \<Rightarrow> True | _ \<Rightarrow> False))"

fun object_like :: "json \<Rightarrow> bool" where
  "object_like JNull = True"
| "object_like (JObj kv) = True"
| "object_like j = False"

text \<open>
  A tree fits into another when nothing of the second is in the way of copying the first
  onto it: wherever both have an entry under the same relative path, both are regular
  files or both are directories.
\<close>

fun fits :: "node \<Rightarrow> node \<Rightarrow> bool" where
  "fits (File c) (File d) = True"
| "fits (Dir es) (Dir ds) =
     (\<forall>(x, n) \<in> set es. case map_of ds x of None \<Rightarrow> True | Some m \<Rightarrow> fits n m)"
| "fits (File c) (Dir ds) = False"
| "fits (Dir es) (File d) = False"

subsection \<open>Reading the manifest's dependencies\<close>

text \<open>The version the manifest records for a name, if it records one.\<close>

definition dependency :: "json \<Rightarrow> string \<Rightarrow> json option" where
  "dependency j k = (case j_get j ''dependencies'' of JObj kv \<Rightarrow> map_of kv k | _ \<Rightarrow> None)"

subsection \<open>The directories install makes sure of\<close>

text \<open>
  The names of the three directories install creates in the project directory before it
  does anything else, and what it means for a tree to be another one with some of these
  created empty where they were missing.
\<close>

definition workspace :: "string set" where
  "workspace = {''TegenModules'', ''include'', ''lib''}"

definition adds :: "string set \<Rightarrow> node \<Rightarrow> node \<Rightarrow> bool" where
  "adds A r r' =
     (\<forall>y q. lookup r' (y # q) =
        (if y \<in> A \<and> lookup r [y] = None then lookup (Dir []) q else lookup r (y # q)))"

subsection \<open>A small project\<close>

text \<open>
  A repository with two headers (one in a subdirectory) and a library below a single
  configuration folder; a Linux host on which git succeeds, one on which it fails, and a
  Windows host on which the staging directory cannot be removed; a project with an empty
  dependency list.
\<close>

definition widgets :: node where
  "widgets =
     Dir [(''include'', Dir [(''w.h'', File ''H1''), (''sub'', Dir [(''x.h'', File ''H2'')])]),
          (''lib'', Dir [(''Release'', Dir [(''libw.a'', File ''A1''), (''notes.txt'', File ''N'')])])]"

definition gadgets :: node where
  "gadgets =
     Dir [(''include'', Dir [(''g.h'', File ''H3'')]),
          (''lib'', Dir [(''libg.a'', File ''G1''), (''libg2.a'', File ''G2'')])]"

fun entries :: "node \<Rightarrow> (string \<times> node) list option" where
  "entries (Dir es) = Some es"
| "entries (File c) = None"

definition host :: env where
  "host =
     \<lparr>platform = Linux, cwd = ''/p'',
      git = (\<lambda>c v. case c of
               GitClone ver repo d \<Rightarrow> (0, entries (if repo = ''gadgets'' then gadgets else widgets))
             | _ \<Rightarrow> (0, None)),
      shell = (\<lambda>c r. (0, r)),
      residue = (\<lambda>n. None)\<rparr>"

definition offline :: env where
  "offline = host\<lparr>git := (\<lambda>c v. (128, None))\<rparr>"

definition stubborn :: env where
  "stubborn = host\<lparr>platform := Windows, residue := (\<lambda>n. Some n)\<rparr>"

definition demo_manifest :: json where
  "demo_manifest = JObj [(''dependencies'', JObj []), (''name'', JStr ''demo'')]"

definition demo :: state where
  "demo =
     \<lparr>manifest = JsonFile demo_manifest,
      project = Dir [(''CMakeLists.txt'', File ''project(demo)'')],
      console = [], stdin = []\<rparr>"

text \<open>
  The same project with the workspace directories in place; with \<open>widgets\<close> recorded in
  the manifest (and no \<open>include\<close> or \<open>lib\<close> directory, as after a fresh checkout); and
  built, with a host whose external tools fail.
\<close>

definition ready :: state where
  "ready =
     demo\<lparr>project := Dir [(''CMakeLists.txt'', File ''project(demo)''), (''TegenModules'', Dir []),
                            (''include'', Dir []), (''lib'', Dir [])]\<rparr>"

definition recorded_manifest :: json where
  "recorded_manifest =
     JObj [(''dependencies'', JObj [(''widgets'', JStr ''LinuxBranch'')]), (''name'', JStr ''demo'')]"

definition recorded :: state where
  "recorded = demo\<lparr>manifest := JsonFile recorded_manifest\<rparr>"

definition built :: state where
  "built =
     demo\<lparr>project := Dir [(''CMakeLists.txt'', File ''project(demo)''),
                            (''build'', Dir [(''demo'', File ''ELF'')])]\<rparr>"

definition failing_tools :: env where
  "failing_tools = host\<lparr>shell := (\<lambda>c r. (2, r))\<rparr>"

text \<open>
  The project after \<open>widgets\<close> was fetched, with an older \<open>w.h\<close> and a header of its
  own in place; the fetched project with a directory named like the library in the
  project's \<open>lib\<close>; and the project with a manifest whose dependencies are a list.
\<close>

definition fetched :: state where
  "fetched =
     demo\<lparr>project := Dir [(''CMakeLists.txt'', File ''project(demo)''),
                            (''TegenModules'', Dir [(''widgets'', widgets)]),
                            (''include'', Dir [(''w.h'', File ''OLD''), (''own.h'', File ''MINE'')]),
                            (''lib'', Dir [])]\<rparr>"

definition blocked :: state where
  "blocked =
     demo\<lparr>project := Dir [(''CMakeLists.txt'', File ''project(demo)''),
                            (''TegenModules'', Dir [(''widgets'', widgets)]),
                            (''include'', Dir []), (''lib'', Dir [(''libw.a'', Dir [])])]\<rparr>"

definition broken_manifest :: json where
  "broken_manifest = JObj [(''dependencies'', JArr []), (''name'', JStr ''demo'')]"

definition broken :: state where
  "broken = demo\<lparr>manifest := JsonFile broken_manifest\<rparr>"

text \<open>
  The project without a manifest, with one that cannot be parsed, and with one that is a
  list; the recorded project with a regular file named \<open>lib\<close>; a host whose cmake
  configures and then fails to build.
\<close>

definition uninitialised :: state where
  "uninitialised = demo\<lparr>manifest := Absent\<rparr>"

definition unreadable :: state where
  "unreadable = demo\<lparr>manifest := Garbage\<rparr>"

definition listed :: state where
  "listed = demo\<lparr>manifest := JsonFile (JArr [])\<rparr>"

definition cluttered :: state where
  "cluttered =
     recorded\<lparr>project := Dir [(''CMakeLists.txt'', File ''project(demo)''), (''lib'', File ''notes'')]\<rparr>"

definition failing_build :: env where
  "failing_build = host\<lparr>shell := (\<lambda>c r. (if c = CMakeBuild then 2 else 0, r))\<rparr>"

text \<open>
  The project with a directory where \<open>CMakeLists.txt\<close> should be; the fetched project
  with a directory named like a header in \<open>include\<close>; and the project after \<open>widgets\<close>
  was installed on the host.
\<close>

definition undescribed :: state where
  "undescribed = demo\<lparr>project := Dir [(''CMakeLists.txt'', Dir [])]\<rparr>"

definition shadowed :: state where
  "shadowed =
     demo\<lparr>project := Dir [(''CMakeLists.txt'', File ''project(demo)''),
                            (''TegenModules'', Dir [(''widgets'', widgets)]),
                            (''include'', Dir [(''w.h'', Dir [])]), (''lib'', Dir [])]\<rparr>"


section \<open>Lemmas\<close>

subsection \<open>Looking up after a change of the tree\<close>

lemma lookup_append:
  "lookup r (p @ q) = (case lookup r p of None \<Rightarrow> None | Some m \<Rightarrow> lookup m q)"
  by (induction r p rule: lookup.induct) (auto split: option.splits)

lemma map_of_update [simp]: "map_of (AList.update k v al) = (map_of al)(k \<mapsto> v)"
  by (rule AList.update_conv')

lemma lookup_File [simp]: "lookup (File d) q = Some n \<longleftrightarrow> q = [] \<and> n = File d"
  by (cases q) auto

lemma lookup_Dir_Nil [simp]: "lookup (Dir []) q = Some n \<longleftrightarrow> q = [] \<and> n = Dir []"
  by (cases q) auto

lemma write_file_same:
  "write_file r p c = Inr r' \<Longrightarrow> lookup r' p = Some (File c)"
  by (induction r p c arbitrary: r' rule: write_file.induct)
     (auto split: option.splits sum.splits if_splits)

lemma write_file_keeps_files:
  "write_file r p c = Inr r' \<Longrightarrow> lookup r q = Some (File d) \<Longrightarrow> q \<noteq> p
     \<Longrightarrow> lookup r' q = Some (File d)"
proof (induction r p c arbitrary: r' q rule: write_file.induct)
  case (4 es x p c)
  then show ?case
    by (cases q) (auto split: option.splits sum.splits if_splits)
qed auto

lemma write_file_unrelated:
  "write_file r p c = Inr r' \<Longrightarrow> \<not> prefix p q \<Longrightarrow> \<not> prefix q p
     \<Longrightarrow> lookup r' q = lookup r q"
proof (induction r p c arbitrary: r' q rule: write_file.induct)
  case (4 es x p c)
  then show ?case
    by (cases q) (auto split: option.splits sum.splits if_splits)
qed auto

lemma write_file_keeps_dirs:
  "write_file r p c = Inr r' \<Longrightarrow> lookup r q = Some (Dir ds) \<Longrightarrow> \<exists>ds'. lookup r' q = Some (Dir ds')"
proof (induction r p c arbitrary: r' q ds rule: write_file.induct)
  case (4 es x p c)
  then show ?case
    by (cases q) (auto split: option.splits sum.splits if_splits)
qed auto

lemma create_directories_keeps_files:
  "create_directories r p = Inr r' \<Longrightarrow> lookup r q = Some (File c) \<Longrightarrow> lookup r' q = Some (File c)"
proof (induction r p arbitrary: r' q rule: create_directories.induct)
  case (3 es x p)
  then show ?case
    by (cases q) (auto split: option.splits sum.splits if_splits)
qed auto

lemma create_directories_keeps_dirs:
  "create_directories r p = Inr r' \<Longrightarrow> lookup r q = Some (Dir ds) \<Longrightarrow> \<exists>ds'. lookup r' q = Some (Dir ds')"
proof (induction r p arbitrary: r' q ds rule: create_directories.induct)
  case (3 es x p)
  then show ?case
    by (cases q) (auto split: option.splits sum.splits if_splits)
qed auto

lemma create_directories_is_directory:
  "create_directories r p = Inr r' \<Longrightarrow> \<exists>ds. lookup r' p = Some (Dir ds)"
  by (induction r p arbitrary: r' rule: create_directories.induct)
     (auto split: option.splits sum.splits if_splits node.splits)

lemma create_directories_unrelated:
  "create_directories r p = Inr r' \<Longrightarrow> \<not> prefix q p \<Longrightarrow> \<not> prefix p q \<Longrightarrow> lookup r' q = lookup r q"
proof (induction r p arbitrary: r' q rule: create_directories.induct)
  case (3 es x p)
  show ?case
  proof (cases q)
    case Nil
    with 3 show ?thesis by simp
  next
    case (Cons y q')
    show ?thesis
    proof (cases "y = x")
      case False
      with 3 Cons show ?thesis by (auto split: sum.splits)
    next
      case True
      with 3 Cons show ?thesis
        by (cases q') (auto split: sum.splits option.splits)
    qed
  qed
qed auto

lemma replace_other_top:
  "x \<noteq> y \<Longrightarrow> lookup (replace r (x # p) v) (y # q) = lookup r (y # q)"
  by (cases "(r, x # p, v)" rule: replace.cases) (auto simp: AList.delete_conv' split: option.splits)

lemma walk_complete:
  "lookup n p = Some m \<Longrightarrow> p \<noteq> [] \<Longrightarrow> (p, m) \<in> set (walk n)"
proof (induction n p rule: lookup.induct)
  case (3 es x p)
  then show ?case
    apply (cases p)
     apply (auto split: option.splits dest!: map_of_SomeD)
     apply force
    done
qed auto

subsection \<open>Sequencing\<close>

lemma say_simps [simp]:
  "manifest (say e s) = manifest s"
  "project (say e s) = project s"
  "console (say e s) = console s @ [e]"
  "stdin (say e s) = stdin s"
  by (simp_all add: say_def)

lemma seq_None:
  "seq f g s = (None, s') \<longleftrightarrow> (\<exists>s1. f s = (None, s1) \<and> g s1 = (None, s'))"
  by (auto simp: seq_def split: prod.splits option.splits)

lemma seq_Some:
  "seq f g s = (Some e, s') \<longleftrightarrow>
     f s = (Some e, s') \<or> (\<exists>s1. f s = (None, s1) \<and> g s1 = (Some e, s'))"
  by (auto simp: seq_def split: prod.splits option.splits)

lemma seq_result:
  "seq f g s = (ex, s') \<Longrightarrow>
     (f s = (ex, s') \<and> ex \<noteq> None) \<or> (\<exists>s1. f s = (None, s1) \<and> g s1 = (ex, s'))"
  by (cases ex) (auto simp: seq_None seq_Some)

text \<open>An invariant of the state that two statements keep is kept by their sequence.\<close>

lemma seq_invariant:
  assumes "seq f g s = (ex, s')" and "P s"
    and "\<And>s ex s'. f s = (ex, s') \<Longrightarrow> P s \<Longrightarrow> P s'"
    and "\<And>s ex s'. g s = (ex, s') \<Longrightarrow> P s \<Longrightarrow> P s'"
  shows "P s'"
  using seq_result[OF assms(1)] assms(2-) by blast

lemma fs_step_result:
  "fs_step f s = (ex, s') \<Longrightarrow>
     (ex \<noteq> None \<and> s' = s) \<or> (\<exists>r. ex = None \<and> f (project s) = Inr r \<and> s' = s\<lparr>project := r\<rparr>)"
  by (auto simp: fs_step_def split: sum.splits)

lemma executeCommand_result:
  "executeCommand E c s = (ex, s') \<Longrightarrow>
     manifest s' = manifest s \<and> console s' = console s \<and> stdin s' = stdin s
     \<and> (case destination c of
           Some d \<Rightarrow> project s' = project s
                      \<or> (\<exists>es. project s' = replace (project s) d (Some (Dir es)))
         | None \<Rightarrow> project s' = snd (shell E c (project s)))"
  by (auto simp: executeCommand_def system_def split: option.splits prod.splits if_splits)

subsection \<open>The place of a repository, and what fetch keeps\<close>

lemma repoDir_cases:
  obtains (project_dir) "repoDir repository = []"
  | (staging) "repoDir repository = modulesDir"
  | (entry) "repoDir repository = modulesDir @ [repository]"
  unfolding repoDir_def
  by (cases "repository = [] \<or> repository = ''.''"; cases "repository = ''..''") simp_all

lemma repoDir_place: "repoDir repository = [] \<or> hd (repoDir repository) = ''TegenModules''"
  by (cases repository rule: repoDir_cases) (simp_all add: modulesDir_def)

lemma fetch_invariant:
  assumes "fetch E repository version s = (ex, s')" and "P s"
    and cmd: "\<And>c t ex' t'. executeCommand E c t = (ex', t') \<Longrightarrow>
                destination c = Some (repoDir repository) \<Longrightarrow> P t \<Longrightarrow> P t'"
    and said: "\<And>t e. P t \<Longrightarrow> P (say e t)"
  shows "P s'"
proof (cases "exists (project s) (repoDir repository)")
  case False
  with assms(1) have "executeCommand E (GitClone version repository (repoDir repository)) s = (ex, s')"
    by (simp add: fetch_def Let_def)
  from cmd[OF this _ assms(2)] show ?thesis
    by simp
next
  case True
  let ?d = "repoDir repository"
  from True assms(1) have
    "seq (executeCommand E (GitFetch ?d))
       (seq (executeCommand E (GitCheckout ?d version)) (executeCommand E (GitPull ?d)))
       (say (Out AlreadyCloned) s) = (ex, s')"
    by (simp add: fetch_def Let_def)
  then show ?thesis
  proof (rule seq_invariant[where P = P])
    show "P (say (Out AlreadyCloned) s)"
      using assms(2) by (rule said)
  next
    fix t ex' t'
    assume "executeCommand E (GitFetch ?d) t = (ex', t')" "P t"
    with cmd[of "GitFetch ?d" t ex' t'] show "P t'"
      by simp
  next
    fix t ex' t'
    assume "seq (executeCommand E (GitCheckout ?d version)) (executeCommand E (GitPull ?d)) t = (ex', t')"
      and "P t"
    then show "P t'"
    proof (rule seq_invariant[where P = P])
      fix u ex'' u'
      assume "executeCommand E (GitCheckout ?d version) u = (ex'', u')" "P u"
      with cmd[of "GitCheckout ?d version" u ex'' u'] show "P u'"
        by simp
    next
      fix u ex'' u'
      assume "executeCommand E (GitPull ?d) u = (ex'', u')" "P u"
      with cmd[of "GitPull ?d" u ex'' u'] show "P u'"
        by simp
    qed
  qed
qed

subsection \<open>The manifest is written by the save only\<close>

lemma executeCommand_manifest:
  "executeCommand E c s = (ex, s') \<Longrightarrow> manifest s' = manifest s"
  by (simp add: executeCommand_result)

lemma fetch_manifest:
  assumes "fetch E repository version s = (ex, s')"
  shows "manifest s' = manifest s"
  by (rule fetch_invariant[OF assms, where P = "\<lambda>t. manifest t = manifest s"])
     (simp_all add: executeCommand_manifest)

lemma copy_header_files_manifest:
  "copy_header_files src t k files s = (ex, s') \<Longrightarrow> manifest s' = manifest s"
  by (induction files arbitrary: s k) (auto split: sum.splits)

lemma copy_headers_manifest:
  "copy_headers dir s = (ex, s') \<Longrightarrow> manifest s' = manifest s"
  unfolding copy_headers_def Let_def
  by (auto split: if_splits sum.splits dest!: seq_result copy_header_files_manifest)

lemma copy_library_files_manifest:
  "copy_library_files t k files s = (ex, s') \<Longrightarrow> manifest s' = manifest s"
  by (induction files arbitrary: s k) (auto split: sum.splits)

lemma copy_libs_manifest:
  "copy_libs dir s = (ex, s') \<Longrightarrow> manifest s' = manifest s"
  unfolding copy_libs_def Let_def
  by (auto split: if_splits sum.splits dest!: seq_result copy_library_files_manifest)

lemma update_cmake_manifest:
  "update_cmake E repository s = (ex, s') \<Longrightarrow> manifest s' = manifest s"
  unfolding update_cmake_def Let_def
  by (auto split: sum.splits)

lemma removeFolderRecursively_manifest:
  "removeFolderRecursively E folder s = (ex, s') \<Longrightarrow> manifest s' = manifest s"
  unfolding removeFolderRecursively_def
  by (auto split: sum.splits option.splits if_splits)

lemma ensure_directories_manifest:
  "ensure_directories s = (ex, s') \<Longrightarrow> manifest s' = manifest s"
  unfolding ensure_directories_def
  by (auto dest!: seq_result fs_step_result)

lemma is_directory_iff: "is_directory r q \<longleftrightarrow> (\<exists>ds. lookup r q = Some (Dir ds))"
  by (auto simp: is_directory_def split: option.splits node.splits)

lemma copy_file_result:
  "copy_file r src tgt = Inr r' \<Longrightarrow>
     \<exists>c. lookup r src = Some (File c) \<and> src \<noteq> tgt \<and> write_file r tgt c = Inr r'"
  by (auto simp: copy_file_def split: option.splits node.splits if_splits)

lemma ofstream_write_result:
  "ofstream_write r p txt = r \<or> write_file r p txt = Inr (ofstream_write r p txt)"
  by (auto simp: ofstream_write_def split: sum.splits)

subsection \<open>Directories stay directories\<close>

lemma copy_file_keeps_dirs:
  "copy_file r src tgt = Inr r' \<Longrightarrow> is_directory r q \<Longrightarrow> is_directory r' q"
  by (auto simp: is_directory_iff dest!: copy_file_result dest: write_file_keeps_dirs)

lemma create_directories_keeps_is_directory:
  "create_directories r p = Inr r' \<Longrightarrow> is_directory r q \<Longrightarrow> is_directory r' q"
  by (auto simp: is_directory_iff dest: create_directories_keeps_dirs)

lemma ofstream_write_keeps_dirs:
  "is_directory r q \<Longrightarrow> is_directory (ofstream_write r p txt) q"
  using ofstream_write_result[of r p "txt"]
  by (auto simp: is_directory_iff dest: write_file_keeps_dirs)

lemma ofstream_append_keeps_dirs:
  "is_directory r q \<Longrightarrow> is_directory (ofstream_append r p txt) q"
  by (simp add: ofstream_append_def ofstream_write_keeps_dirs)

lemma replace_Dir: "\<exists>ds. replace (Dir es) p v = Dir ds"
proof (cases p)
  case Nil
  then show ?thesis by simp
next
  case (Cons x q)
  then show ?thesis by (cases q) (auto split: option.splits)
qed

lemma replace_keeps_top_directory:
  assumes "is_directory r [x]"
  shows "is_directory (replace r d (Some (Dir ds))) [x]"
proof -
  from assms obtain es xs where r: "r = Dir es" "map_of es x = Some (Dir xs)"
    by (cases r) (auto simp: is_directory_iff split: option.splits)
  show ?thesis
  proof (cases d)
    case Nil
    with assms show ?thesis by (simp add: r)
  next
    case (Cons y q)
    show ?thesis
    proof (cases q)
      case Nil
      with Cons r show ?thesis by (simp add: is_directory_iff)
    next
      case (Cons z q')
      show ?thesis
      proof (cases "map_of es y")
        case None
        with \<open>d = y # q\<close> Cons r show ?thesis by (simp add: is_directory_iff)
      next
        case (Some c)
        show ?thesis
        proof (cases "y = x")
          case True
          with Some r have "c = Dir xs" by simp
          with replace_Dir[of xs "z # q'" "Some (Dir ds)"] Some True \<open>d = y # q\<close> Cons r
          show ?thesis by (auto simp: is_directory_iff)
        next
          case False
          with Some \<open>d = y # q\<close> Cons r show ?thesis by (simp add: is_directory_iff)
        qed
      qed
    qed
  qed
qed

lemma executeCommand_git_keeps_modulesDir:
  "executeCommand E c s = (ex, s') \<Longrightarrow> is_directory (project s) modulesDir \<Longrightarrow>
   destination c = Some d \<Longrightarrow> is_directory (project s') modulesDir"
  using replace_keeps_top_directory[of "project s" "''TegenModules''" d]
  by (auto simp: modulesDir_def dest!: executeCommand_result)

lemma fetch_keeps_modulesDir:
  assumes "fetch E repository version s = (ex, s')" and "is_directory (project s) modulesDir"
  shows "is_directory (project s') modulesDir"
  by (rule fetch_invariant[OF assms(1), where P = "\<lambda>t. is_directory (project t) modulesDir"])
     (use assms(2) in \<open>auto intro: executeCommand_git_keeps_modulesDir\<close>)

lemma copy_header_files_keeps_dirs:
  "copy_header_files src t k files s = (ex, s') \<Longrightarrow>
   is_directory (project s) q \<Longrightarrow> is_directory (project s') q"
proof (induction files arbitrary: s k)
  case (Cons rel rest)
  then show ?case
    by (auto split: sum.splits
        dest: create_directories_keeps_is_directory copy_file_keeps_dirs)
qed simp

lemma copy_headers_keeps_dirs:
  "copy_headers dir s = (ex, s') \<Longrightarrow>
   is_directory (project s) q \<Longrightarrow> is_directory (project s') q"
  unfolding copy_headers_def Let_def
  by (auto split: if_splits sum.splits dest!: seq_result dest: copy_header_files_keeps_dirs)

lemma copy_library_files_keeps_dirs:
  "copy_library_files t k files s = (ex, s') \<Longrightarrow>
   is_directory (project s) q \<Longrightarrow> is_directory (project s') q"
proof (induction files arbitrary: s k)
  case (Cons f rest)
  then show ?case
    by (auto split: sum.splits dest: copy_file_keeps_dirs)
qed simp

lemma copy_libs_keeps_dirs:
  "copy_libs dir s = (ex, s') \<Longrightarrow>
   is_directory (project s) q \<Longrightarrow> is_directory (project s') q"
  unfolding copy_libs_def Let_def
  by (auto split: if_splits sum.splits dest!: seq_result dest: copy_library_files_keeps_dirs)

lemma update_cmake_keeps_dirs:
  "update_cmake E repository s = (ex, s') \<Longrightarrow>
   is_directory (project s) q \<Longrightarrow> is_directory (project s') q"
  unfolding update_cmake_def Let_def
  by (auto split: sum.splits simp: ofstream_append_keeps_dirs)

lemma update_config_result:
  "update_config repository version config s = (ex, s') \<Longrightarrow>
     project s' = project s \<and> console s' = console s
     \<and> (case ex of
           Some e \<Rightarrow> manifest s' = manifest s
         | None \<Rightarrow> (\<exists>c. set_dependency config repository version = Inr c \<and> manifest s' = JsonFile c))"
  by (auto simp: update_config_def saveConfig_def saveConfig_ops_def split: sum.splits)


subsection \<open>The dependencies of a manifest\<close>

lemma j_contains_iff: "j_contains j k \<longleftrightarrow> (\<exists>kv. j = JObj kv \<and> map_of kv k \<noteq> None)"
  by (cases j) (simp_all add: j_contains_def map_of_eq_None_iff)

lemma j_get_j_at: "j_at loaded key = Inr config \<Longrightarrow> j_get config key = j_get loaded key"
  by (auto simp: j_at_def j_get_def split: json.splits option.splits)

lemma j_contains_dependency:
  "j_at loaded ''dependencies'' = Inr config \<Longrightarrow>
   j_contains (j_get config ''dependencies'') k \<longleftrightarrow> dependency loaded k \<noteq> None"
  by (simp add: j_get_j_at j_contains_iff dependency_def split: json.splits)

lemma j_at_cases:
  assumes "j_at loaded d = Inr config"
  obtains (null) "loaded = JNull" "config = JObj [(d, JNull)]"
  | (missing) kv where "loaded = JObj kv" "map_of kv d = None" "config = JObj (kv @ [(d, JNull)])"
  | (present) kv v where "loaded = JObj kv" "map_of kv d = Some v" "config = loaded"
  using assms by (auto simp: j_at_def split: json.splits option.splits)

lemma set_entry_generic:
  assumes "j_at loaded d = Inr config"
    and "(case j_at config d of
            Inl e \<Rightarrow> Inl e
          | Inr c \<Rightarrow> (case j_set (j_get c d) repository v of
                        Inl e \<Rightarrow> Inl e
                      | Inr x \<Rightarrow> j_set c d x)) = Inr saved"
  shows "(case j_get saved d of JObj kv \<Rightarrow> map_of kv k | _ \<Rightarrow> None) =
           (if k = repository then Some v
            else (case j_get loaded d of JObj kv \<Rightarrow> map_of kv k | _ \<Rightarrow> None))
     \<and> (key \<noteq> d \<longrightarrow> j_get saved key = j_get loaded key)"
  using assms(1)
proof (cases rule: j_at_cases)
  case null
  with assms(2) show ?thesis
    by (auto simp: j_at_def j_set_def j_get_def)
next
  case (missing kv)
  with assms(2) show ?thesis
    by (auto simp: j_at_def j_set_def j_get_def map_add_def split: option.splits)
next
  case (present kv x)
  with assms(2) show ?thesis
    by (cases x) (auto simp: j_at_def j_set_def j_get_def split: option.splits sum.splits)
qed

lemma set_dependency_dependency:
  "j_at loaded ''dependencies'' = Inr config \<Longrightarrow>
   set_dependency config repository version = Inr c \<Longrightarrow>
   dependency c k = (if k = repository then Some (JStr version) else dependency loaded k)"
  unfolding set_dependency_def dependency_def
  using set_entry_generic by blast

lemma set_dependency_other_keys:
  "j_at loaded ''dependencies'' = Inr config \<Longrightarrow>
   set_dependency config repository version = Inr c \<Longrightarrow> key \<noteq> ''dependencies'' \<Longrightarrow>
   j_get c key = j_get loaded key"
  unfolding set_dependency_def
  using set_entry_generic by blast

subsection \<open>The ways through install\<close>

lemma integrate_cases:
  assumes "integrate E repository version config s = (ex, s')"
  obtains
    (fetch_failed) "fetch E repository version s = (ex, s')" "ex \<noteq> None"
  | (headers_failed) s1 where
      "fetch E repository version s = (None, s1)"
      "copy_headers (repoDir repository) s1 = (ex, s')" "ex \<noteq> None"
  | (libs_failed) s1 s2 where
      "fetch E repository version s = (None, s1)"
      "copy_headers (repoDir repository) s1 = (None, s2)"
      "copy_libs (repoDir repository) s2 = (ex, s')" "ex \<noteq> None"
  | (cmake_failed) s1 s2 s3 where
      "fetch E repository version s = (None, s1)"
      "copy_headers (repoDir repository) s1 = (None, s2)"
      "copy_libs (repoDir repository) s2 = (None, s3)"
      "update_cmake E repository s3 = (ex, s')" "ex \<noteq> None"
  | (patched) s1 s2 s3 s4 where
      "fetch E repository version s = (None, s1)"
      "copy_headers (repoDir repository) s1 = (None, s2)"
      "copy_libs (repoDir repository) s2 = (None, s3)"
      "update_cmake E repository s3 = (None, s4)"
      "update_config repository version config s4 = (ex, s')"
  using assms unfolding integrate_def
  by (auto dest!: seq_result)

lemma integrate_result:
  assumes "integrate E repository version config s = (ex, s')"
  shows "(is_directory (project s) modulesDir \<longrightarrow> is_directory (project s') modulesDir)
     \<and> (case ex of
           Some e \<Rightarrow> manifest s' = manifest s
         | None \<Rightarrow> (\<exists>c. set_dependency config repository version = Inr c \<and> manifest s' = JsonFile c))"
  using assms
proof (cases rule: integrate_cases)
  case fetch_failed
  from fetch_manifest[OF this(1)] fetch_keeps_modulesDir[OF this(1)] this(2)
  show ?thesis by auto
next
  case (headers_failed s1)
  from fetch_manifest[OF this(1)] fetch_keeps_modulesDir[OF this(1)]
    copy_headers_manifest[OF this(2)] copy_headers_keeps_dirs[OF this(2)] this(3)
  show ?thesis by auto
next
  case (libs_failed s1 s2)
  from fetch_manifest[OF this(1)] fetch_keeps_modulesDir[OF this(1)]
    copy_headers_manifest[OF this(2)] copy_headers_keeps_dirs[OF this(2)]
    copy_libs_manifest[OF this(3)] copy_libs_keeps_dirs[OF this(3)] this(4)
  show ?thesis by auto
next
  case (cmake_failed s1 s2 s3)
  from fetch_manifest[OF this(1)] fetch_keeps_modulesDir[OF this(1)]
    copy_headers_manifest[OF this(2)] copy_headers_keeps_dirs[OF this(2)]
    copy_libs_manifest[OF this(3)] copy_libs_keeps_dirs[OF this(3)]
    update_cmake_manifest[OF this(4)] update_cmake_keeps_dirs[OF this(4)] this(5)
  show ?thesis by auto
next
  case (patched s1 s2 s3 s4)
  from fetch_manifest[OF this(1)] fetch_keeps_modulesDir[OF this(1)]
    copy_headers_manifest[OF this(2)] copy_headers_keeps_dirs[OF this(2)]
    copy_libs_manifest[OF this(3)] copy_libs_keeps_dirs[OF this(3)]
    update_cmake_manifest[OF this(4)] update_cmake_keeps_dirs[OF this(4)]
    update_config_result[OF this(5)]
  show ?thesis by (auto split: option.splits)
qed

lemma removeFolderRecursively_result:
  assumes "is_directory (project s) folder \<or> platform E \<noteq> Windows"
  shows "\<exists>s'. removeFolderRecursively E folder s = (None, s')
     \<and> manifest s' = manifest s
     \<and> (console s' = console s \<or> console s' = console s @ [Err (CleanupWarning folder)])"
  using assms
  by (auto simp: removeFolderRecursively_def recursive_directory_iterator_def is_directory_iff
      split: option.splits)

lemma create_directories_error:
  "create_directories r p = Inl e \<Longrightarrow> e = FilesystemError"
  by (induction r p rule: create_directories.induct) (auto split: sum.splits)

lemma ensure_directories_result:
  assumes "ensure_directories s = (ex, s1)"
  shows "manifest s1 = manifest s \<and> console s1 = console s \<and> stdin s1 = stdin s
     \<and> (case ex of
           Some e \<Rightarrow> e = FilesystemError
         | None \<Rightarrow> is_directory (project s1) modulesDir \<and> is_directory (project s1) projectInclude
                    \<and> is_directory (project s1) projectLib)"
proof (cases "create_directories (project s) modulesDir")
  case (Inl e)
  with assms create_directories_error[OF Inl] show ?thesis
    by (auto simp: ensure_directories_def seq_def fs_step_def)
next
  case r1: (Inr r1)
  show ?thesis
  proof (cases "create_directories r1 projectInclude")
    case (Inl e)
    with assms r1 create_directories_error[OF Inl] show ?thesis
      by (auto simp: ensure_directories_def seq_def fs_step_def)
  next
    case r2: (Inr r2)
    show ?thesis
    proof (cases "create_directories r2 projectLib")
      case (Inl e)
      with assms r1 r2 create_directories_error[OF Inl] show ?thesis
        by (auto simp: ensure_directories_def seq_def fs_step_def)
    next
      case r3: (Inr r3)
      have "is_directory r1 modulesDir"
        using create_directories_is_directory[OF r1] by (simp add: is_directory_iff)
      then have "is_directory r3 modulesDir"
        using r2 r3 by (blast intro: create_directories_keeps_is_directory)
      moreover have "is_directory r2 projectInclude"
        using create_directories_is_directory[OF r2] by (simp add: is_directory_iff)
      then have "is_directory r3 projectInclude"
        using r3 by (blast intro: create_directories_keeps_is_directory)
      moreover have "is_directory r3 projectLib"
        using create_directories_is_directory[OF r3] by (simp add: is_directory_iff)
      ultimately show ?thesis
        using assms r1 r2 r3 by (auto simp: ensure_directories_def seq_def fs_step_def)
    qed
  qed
qed

lemma install_cases:
  assumes "install E repository version s = (ex, s')"
  obtains
    (no_manifest) "manifest s = Absent" "ex = None" "s' = say (Err ConfigNotFound) s"
  | (unparsable) "manifest s = Garbage" "ex = Some ParseError" "s' = s"
  | (no_directories) loaded e where
      "manifest s = JsonFile loaded" "ensure_directories s = (Some e, s')" "ex = Some e"
  | (not_an_object) loaded e where
      "manifest s = JsonFile loaded" "ensure_directories s = (None, s')"
      "j_at loaded ''dependencies'' = Inl e" "ex = Some e"
  | (already) loaded s1 config where
      "manifest s = JsonFile loaded" "ensure_directories s = (None, s1)"
      "j_at loaded ''dependencies'' = Inr config"
      "j_contains (j_get config ''dependencies'') repository" "ex = None"
      "s' = say (Out (AlreadyInstalled repository
                 (j_get (j_get config ''dependencies'') repository))) s1"
  | (failed) loaded s1 config e s2 where
      "manifest s = JsonFile loaded" "ensure_directories s = (None, s1)"
      "j_at loaded ''dependencies'' = Inr config"
      "\<not> j_contains (j_get config ''dependencies'') repository"
      "install_try E repository (resolvedVersion (platform E) version) config s1 = (Some e, s2)"
      "ex = None" "s' = say (Err (FailedToInstall e)) s2"
  | (installed) loaded s1 config where
      "manifest s = JsonFile loaded" "ensure_directories s = (None, s1)"
      "j_at loaded ''dependencies'' = Inr config"
      "\<not> j_contains (j_get config ''dependencies'') repository"
      "install_try E repository (resolvedVersion (platform E) version) config s1 = (None, s')"
      "ex = None"
  using assms unfolding install_def configExists_def loadConfig_def
  by (cases "manifest s")
     (auto split: if_splits sum.splits prod.splits option.splits)

lemma install_try_cases:
  assumes "install_try E repository version config s = (ex, s')"
    and "is_directory (project s) modulesDir"
  obtains
    (aborted) e where "ex = Some e"
      "integrate E repository version config (say (Out (Installing repository version)) s) = (Some e, s')"
  | (completed) s1 s2 where "ex = None"
      "integrate E repository version config (say (Out (Installing repository version)) s) = (None, s1)"
      "removeFolderRecursively E modulesDir s1 = (None, s2)"
      "s' = say (Out (Installed repository)) s2"
proof -
  from assms(1) have
    "seq (integrate E repository version config)
       (seq (removeFolderRecursively E modulesDir) (\<lambda>t. (None, say (Out (Installed repository)) t)))
       (say (Out (Installing repository version)) s) = (ex, s')"
    by (simp add: install_try_def)
  then consider
      (a) "integrate E repository version config (say (Out (Installing repository version)) s) = (ex, s')"
          "ex \<noteq> None"
    | (b) s1 where
          "integrate E repository version config (say (Out (Installing repository version)) s) = (None, s1)"
          "seq (removeFolderRecursively E modulesDir) (\<lambda>t. (None, say (Out (Installed repository)) t)) s1
             = (ex, s')"
    using seq_result by blast
  then show thesis
  proof cases
    case a
    then show ?thesis by (auto intro: aborted)
  next
    case b
    from integrate_result[OF b(1)] assms(2) have "is_directory (project s1) modulesDir"
      by simp
    then obtain s2 where "removeFolderRecursively E modulesDir s1 = (None, s2)"
      using removeFolderRecursively_result[of s1 modulesDir E] by auto
    with b show ?thesis
      by (auto simp: seq_def intro: completed)
  qed
qed

lemma install_try_aborted:
  assumes "install_try E repository version config s = (Some e, s')"
    and "is_directory (project s) modulesDir"
  shows "manifest s' = manifest s"
  using assms
proof (cases rule: install_try_cases)
  case (aborted e')
  with integrate_result[OF aborted(2)] show ?thesis by simp
qed simp

lemma install_try_completed:
  assumes "install_try E repository version config s = (None, s')"
    and "is_directory (project s) modulesDir"
  shows "\<exists>s1 s2 c.
      integrate E repository version config (say (Out (Installing repository version)) s) = (None, s1)
    \<and> removeFolderRecursively E modulesDir s1 = (None, s2)
    \<and> s' = say (Out (Installed repository)) s2
    \<and> set_dependency config repository version = Inr c
    \<and> manifest s1 = JsonFile c \<and> manifest s' = JsonFile c
    \<and> (console s2 = console s1 \<or> console s2 = console s1 @ [Err (CleanupWarning modulesDir)])"
  using assms
proof (cases rule: install_try_cases)
  case (completed s1 s2)
  from integrate_result[OF completed(2)] assms(2) obtain c where
    c: "set_dependency config repository version = Inr c" "manifest s1 = JsonFile c"
    and d: "is_directory (project s1) modulesDir"
    by auto
  from removeFolderRecursively_result[of s1 modulesDir E] d completed(3)
  have "manifest s2 = manifest s1"
    "console s2 = console s1 \<or> console s2 = console s1 @ [Err (CleanupWarning modulesDir)]"
    by auto
  with completed c show ?thesis by simp
qed simp

lemma set_dependency_changes:
  assumes "j_at loaded ''dependencies'' = Inr config"
    and "set_dependency config repository version = Inr c"
    and "\<not> j_contains (j_get config ''dependencies'') repository"
  shows "c \<noteq> loaded"
proof
  assume "c = loaded"
  with set_dependency_dependency[OF assms(1,2), of repository]
  have "dependency loaded repository \<noteq> None" by simp
  with j_contains_dependency[OF assms(1), of repository] assms(3) show False by simp
qed

subsection \<open>Creating the project's directories\<close>

lemma create_directories_Nil:
  "create_directories n [] = (case n of File c \<Rightarrow> Inl FilesystemError | Dir es \<Rightarrow> Inr (Dir es))"
  by (cases n) simp_all

lemma lookup_below_nothing:
  "lookup r [x] = None \<Longrightarrow> lookup r (x # q) = None"
  by (cases r) (auto split: option.splits)

lemma create_directories_top:
  "create_directories r [x] = Inr r' \<longleftrightarrow>
     (\<exists>es. r = Dir es \<and> (\<forall>c. map_of es x \<noteq> Some (File c))
        \<and> r' = Dir (AList.update x (case map_of es x of None \<Rightarrow> Dir [] | Some n \<Rightarrow> n) es))"
  by (cases r) (auto simp: create_directories_Nil split: option.splits sum.splits node.splits)

lemma create_directories_top_lookup:
  assumes "create_directories r [x] = Inr r'"
  shows "lookup r' (y # q) =
     (if y = x \<and> lookup r [x] = None then lookup (Dir []) q else lookup r (y # q))"
  using assms unfolding create_directories_top
  by (auto split: option.splits)

lemma create_directories_top_fails:
  "(\<exists>e. create_directories r [x] = Inl e) \<longleftrightarrow>
     (\<forall>es. r \<noteq> Dir es) \<or> (\<exists>c. lookup r [x] = Some (File c))"
  by (cases r) (auto simp: create_directories_Nil split: option.splits sum.splits node.splits)

lemma adds_refl: "adds {} r r"
  by (simp add: adds_def)

lemma create_directories_adds: "create_directories r [x] = Inr r' \<Longrightarrow> adds {x} r r'"
  by (simp add: adds_def create_directories_top_lookup)

lemma adds_trans:
  assumes "adds A r r1" and "adds B r1 r2"
  shows "adds (A \<union> B) r r2"
  unfolding adds_def
proof (intro allI)
  fix y q
  from assms(1) have 1: "lookup r1 (y # p) =
      (if y \<in> A \<and> lookup r [y] = None then lookup (Dir []) p else lookup r (y # p))" for p
    by (simp add: adds_def)
  from assms(2) have 2: "lookup r2 (y # q) =
      (if y \<in> B \<and> lookup r1 [y] = None then lookup (Dir []) q else lookup r1 (y # q))"
    by (simp add: adds_def)
  show "lookup r2 (y # q) =
      (if y \<in> A \<union> B \<and> lookup r [y] = None then lookup (Dir []) q else lookup r (y # q))"
    unfolding 2 1 by (cases "lookup r [y]") auto
qed

lemma adds_keeps:
  assumes "adds A r r'"
  shows "lookup r (y # q) = Some n \<Longrightarrow> lookup r' (y # q) = Some n"
    and "y \<notin> A \<Longrightarrow> lookup r' (y # q) = lookup r (y # q)"
  using assms by (auto simp: adds_def lookup_below_nothing)

lemma ensure_directories_adds:
  assumes "ensure_directories s = (ex, t)"
  shows "\<exists>A. A \<subseteq> workspace \<and> adds A (project s) (project t) \<and> (ex = None \<longrightarrow> A = workspace)"
proof (cases "create_directories (project s) modulesDir")
  case (Inl e)
  with assms have "ex \<noteq> None" "t = s"
    by (auto simp: ensure_directories_def seq_def fs_step_def)
  with adds_refl show ?thesis by blast
next
  case r1: (Inr r1)
  note a1 = create_directories_adds[OF r1[unfolded modulesDir_def]]
  show ?thesis
  proof (cases "create_directories r1 projectInclude")
    case (Inl e)
    with assms r1 have "ex \<noteq> None" "project t = r1"
      by (auto simp: ensure_directories_def seq_def fs_step_def)
    with a1 show ?thesis
      by (intro exI[of _ "{''TegenModules''}"]) (auto simp: workspace_def)
  next
    case r2: (Inr r2)
    note a2 = adds_trans[OF a1 create_directories_adds[OF r2[unfolded projectInclude_def]]]
    show ?thesis
    proof (cases "create_directories r2 projectLib")
      case (Inl e)
      with assms r1 r2 have "ex \<noteq> None" "project t = r2"
        by (auto simp: ensure_directories_def seq_def fs_step_def)
      with a2 show ?thesis
        by (intro exI[of _ "{''TegenModules''} \<union> {''include''}"]) (auto simp: workspace_def)
    next
      case r3: (Inr r3)
      note a3 = adds_trans[OF a2 create_directories_adds[OF r3[unfolded projectLib_def]]]
      from assms r1 r2 r3 have "project t = r3"
        by (auto simp: ensure_directories_def seq_def fs_step_def)
      moreover have "{''TegenModules''} \<union> {''include''} \<union> {''lib''} = workspace"
        by (simp add: workspace_def insert_commute)
      ultimately show ?thesis
        using a3 by auto
    qed
  qed
qed

lemma ensure_directories_lookup:
  assumes "ensure_directories s = (None, s1)"
  shows "lookup (project s1) (y # q) =
     (if y \<in> workspace \<and> lookup (project s) [y] = None then lookup (Dir []) q
      else lookup (project s) (y # q))"
  using ensure_directories_adds[OF assms] by (auto simp: adds_def)

lemma ensure_directories_keeps:
  assumes "ensure_directories s = (ex, s1)"
  shows "(lookup (project s) (y # q) = Some n \<longrightarrow> lookup (project s1) (y # q) = Some n)
     \<and> (y \<notin> workspace \<longrightarrow> lookup (project s1) (y # q) = lookup (project s) (y # q))"
proof -
  from ensure_directories_adds[OF assms] obtain A where
    A: "A \<subseteq> workspace" "adds A (project s) (project s1)"
    by blast
  from adds_keeps[OF A(2)] A(1) show ?thesis
    by blast
qed

subsection \<open>What main makes of a command's outcome\<close>

lemma j_at_error: "j_at j k = Inl e \<Longrightarrow> e = TypeError"
  by (auto simp: j_at_def split: json.splits option.splits)

lemma install_raises:
  assumes "install E repository version s = (Some e, s')"
  shows "e = ParseError \<or> e = FilesystemError \<or> e = TypeError"
  using assms
proof (cases rule: install_cases)
  case (no_directories loaded e')
  with ensure_directories_result[OF no_directories(2)] show ?thesis by simp
next
  case (not_an_object loaded e')
  with j_at_error[OF not_an_object(3)] show ?thesis by simp
qed simp_all

lemma main_install:
  "main E [prog, ''install'', pkg] s =
     (case install E pkg [] s of
        (Some e, s') \<Rightarrow> (1, say (Err (AnErrorOccurred e)) s')
      | (None, s') \<Rightarrow> (0, s'))"
  by (simp add: main_def dispatch_def)

lemma main_build:
  "main E [prog, ''build''] s =
     (case build E s of
        (Some e, s') \<Rightarrow> (1, say (Err (AnErrorOccurred e)) s')
      | (None, s') \<Rightarrow> (0, s'))"
  by (simp add: main_def dispatch_def)

lemma main_run:
  "main E [prog, ''run''] s =
     (case run E s of
        (Some e, s') \<Rightarrow> (1, say (Err (AnErrorOccurred e)) s')
      | (None, s') \<Rightarrow> (0, s'))"
  by (simp add: main_def dispatch_def)

lemma install_fetch_fails:
  assumes "manifest s = JsonFile loaded" and "j_at loaded ''dependencies'' = Inr config"
    and "dependency loaded pkg = None"
    and "ensure_directories s = (None, s1)"
    and "fetch E pkg (resolvedVersion (platform E) version)
           (say (Out (Installing pkg (resolvedVersion (platform E) version))) s1) = (Some e, s2)"
  shows "install E pkg version s = (None, say (Err (FailedToInstall e)) s2)"
proof -
  from j_contains_dependency[OF assms(2), of pkg] assms(3)
  have "\<not> j_contains (j_get config ''dependencies'') pkg" by simp
  moreover from assms(5)
  have "install_try E pkg (resolvedVersion (platform E) version) config s1 = (Some e, s2)"
    by (simp add: install_try_def integrate_def seq_def)
  ultimately show ?thesis
    using assms(1,2,4) by (simp add: install_def configExists_def loadConfig_def)
qed

lemma build_tool_fails:
  assumes "manifest s \<noteq> Absent" and "create_directory (project s) [''build''] = Inr r"
    and "shell E CMakeConfigure r = (rc, r')" and "rc \<noteq> 0"
  shows "build E s = (Some (RuntimeError CMakeConfigure), say (Out Building) s\<lparr>project := r'\<rparr>)"
  using assms
  by (simp add: build_def configExists_def seq_def fs_step_def executeCommand_def system_def say_def)

lemma run_target_fails:
  assumes "manifest s = JsonFile loaded" and "j_at loaded ''name'' = Inr config"
    and "j_get config ''name'' = JStr projectName"
    and "buildPath = [''build'', projectName @ (if platform E = Windows then ''.exe'' else [])]"
    and "exists (project s) buildPath"
    and "shell E (RunTarget buildPath) (project s) = (rc, r')" and "rc \<noteq> 0"
  shows "run E s = (None, say (Err FailedToRun) (say (Out RunningProject) s\<lparr>project := r'\<rparr>))"
  using assms
  by (simp add: run_def configExists_def loadConfig_def j_string_def system_def Let_def say_def)

subsection \<open>Copying headers\<close>

lemma copy_file_keeps_files:
  "copy_file r src tgt = Inr r' \<Longrightarrow> lookup r q = Some (File c) \<Longrightarrow> q \<noteq> tgt
     \<Longrightarrow> lookup r' q = Some (File c)"
  by (auto dest!: copy_file_result dest: write_file_keeps_files)

lemma copy_file_copies:
  "copy_file r src tgt = Inr r' \<Longrightarrow> lookup r src = Some (File c) \<Longrightarrow> lookup r' tgt = Some (File c)"
  by (auto dest!: copy_file_result dest: write_file_same)

lemma copy_header_files_keeps_file:
  "copy_header_files src t k files s = (ex, s') \<Longrightarrow> lookup (project s) q = Some (File c) \<Longrightarrow>
   q \<notin> (\<lambda>rel. projectInclude @ rel) ` set files \<Longrightarrow> lookup (project s') q = Some (File c)"
proof (induction files arbitrary: s k)
  case Nil
  then show ?case by simp
next
  case (Cons x rest)
  show ?case
  proof (cases "create_directories (project s) (butlast (projectInclude @ x))")
    case (Inl e)
    with Cons.prems show ?thesis by simp
  next
    case r1: (Inr r1)
    show ?thesis
    proof (cases "copy_file r1 (src @ x) (projectInclude @ x)")
      case (Inl e)
      with Cons.prems r1 create_directories_keeps_files[OF r1] show ?thesis by auto
    next
      case r2: (Inr r2)
      from Cons.prems(2) create_directories_keeps_files[OF r1] have "lookup r1 q = Some (File c)"
        by simp
      with copy_file_keeps_files[OF r2] Cons.prems(3) have "lookup r2 q = Some (File c)"
        by auto
      with Cons.IH[of "Suc k" _ ] Cons.prems r1 r2 show ?thesis
        by auto
    qed
  qed
qed

lemma copy_header_files_copies:
  assumes "copy_header_files src t k files s = (None, s')"
    and "\<And>a b. src @ a \<noteq> projectInclude @ b"
    and "rel \<in> set files" and "lookup (project s) (src @ rel) = Some (File c)"
  shows "lookup (project s') (projectInclude @ rel) = Some (File c)"
  using assms(1,3,4)
proof (induction files arbitrary: s k)
  case Nil
  then show ?case by simp
next
  case (Cons x rest)
  from Cons.prems(1) obtain r1 r2 where
    r1: "create_directories (project s) (butlast (projectInclude @ x)) = Inr r1"
    and r2: "copy_file r1 (src @ x) (projectInclude @ x) = Inr r2"
    and rest: "copy_header_files src t (Suc k) rest
        (say (Out (HeaderProgress (Suc k * 100 div t) (Suc k) t)) (s\<lparr>project := r2\<rparr>)) = (None, s')"
    by (auto split: sum.splits)
  have kept: "lookup r2 (src @ a) = Some (File d)" if "lookup (project s) (src @ a) = Some (File d)" for a d
    using copy_file_keeps_files[OF r2 create_directories_keeps_files[OF r1 that]] assms(2)
    by simp
  show ?case
  proof (cases "rel \<in> set rest")
    case True
    from Cons.IH[OF rest True] kept[OF Cons.prems(3)] show ?thesis
      by simp
  next
    case False
    with Cons.prems(2) have [simp]: "rel = x" by simp
    from create_directories_keeps_files[OF r1 Cons.prems(3)] copy_file_copies[OF r2]
    have "lookup r2 (projectInclude @ x) = Some (File c)"
      by simp
    moreover from False have "projectInclude @ x \<notin> (\<lambda>rel. projectInclude @ rel) ` set rest"
      by auto
    ultimately show ?thesis
      using copy_header_files_keeps_file[OF rest] by simp
  qed
qed

lemma lookup_is_above:
  "lookup r (p @ q) = Some n \<Longrightarrow> \<exists>m. lookup r p = Some m \<and> lookup m q = Some n"
  by (auto simp: lookup_append split: option.splits)

lemma copy_headers_cases:
  assumes "copy_headers dir s = (ex, s')"
  obtains
    (nothing) "\<not> exists (project s) (dir @ [''include''])" "ex = None" "s' = s"
  | (not_a_directory) c where "lookup (project s) (dir @ [''include'']) = Some (File c)"
      "ex = Some FilesystemError" "s' = say (Out CopyingHeaders) s"
  | (aborted) es e where "lookup (project s) (dir @ [''include'']) = Some (Dir es)"
      "copy_header_files (dir @ [''include''])
         (length (filter (\<lambda>(p, n). is_regular_file n) (walk (Dir es)))) 0
         (map fst (filter (\<lambda>(p, n). is_regular_file n) (walk (Dir es))))
         (say (Out CopyingHeaders) s) = (Some e, s')" "ex = Some e"
  | (copied) es s1 where "lookup (project s) (dir @ [''include'']) = Some (Dir es)"
      "copy_header_files (dir @ [''include''])
         (length (filter (\<lambda>(p, n). is_regular_file n) (walk (Dir es)))) 0
         (map fst (filter (\<lambda>(p, n). is_regular_file n) (walk (Dir es))))
         (say (Out CopyingHeaders) s) = (None, s1)" "ex = None" "s' = say (Out EndLine) s1"
proof (cases "lookup (project s) (dir @ [''include''])")
  case None
  then have "\<not> exists (project s) (dir @ [''include''])"
    by (simp add: exists_def)
  moreover from this assms have "ex = None" "s' = s"
    by (simp_all add: copy_headers_def)
  ultimately show ?thesis
    by (rule nothing)
next
  case (Some n)
  then have x: "exists (project s) (dir @ [''include''])"
    by (simp add: exists_def)
  show ?thesis
  proof (cases n)
    case (File c)
    with Some x assms have "ex = Some FilesystemError" "s' = say (Out CopyingHeaders) s"
      by (simp_all add: copy_headers_def recursive_directory_iterator_def)
    with Some File show ?thesis
      by (intro not_a_directory) simp_all
  next
    case (Dir es)
    let ?loop = "copy_header_files (dir @ [''include''])
         (length (filter (\<lambda>(p, n). is_regular_file n) (walk (Dir es)))) 0
         (map fst (filter (\<lambda>(p, n). is_regular_file n) (walk (Dir es))))
         (say (Out CopyingHeaders) s)"
    from Some Dir x assms have r: "seq (copy_header_files (dir @ [''include''])
         (length (filter (\<lambda>(p, n). is_regular_file n) (walk (Dir es)))) 0
         (map fst (filter (\<lambda>(p, n). is_regular_file n) (walk (Dir es)))))
         (\<lambda>t. (None, say (Out EndLine) t)) (say (Out CopyingHeaders) s) = (ex, s')"
      by (simp add: copy_headers_def recursive_directory_iterator_def Let_def)
    show ?thesis
    proof (cases ex)
      case None
      with r obtain s1 where "?loop = (None, s1)" "s' = say (Out EndLine) s1"
        by (auto simp: seq_None)
      with Some Dir None show ?thesis
        by (intro copied) simp_all
    next
      case (Some e)
      with r have "?loop = (Some e, s')"
        by (auto simp: seq_Some)
      with \<open>lookup (project s) (dir @ [''include'']) = Some n\<close> Dir Some show ?thesis
        by (intro aborted) simp_all
    qed
  qed
qed

lemma copy_headers_keeps_file:
  assumes "copy_headers dir s = (ex, s')" and "lookup (project s) q = Some (File c)"
    and "\<And>b. q \<noteq> projectInclude @ b"
  shows "lookup (project s') q = Some (File c)"
  using assms(1)
proof (cases rule: copy_headers_cases)
  case (aborted es e)
  from copy_header_files_keeps_file[OF aborted(2)] assms(2,3) show ?thesis by auto
next
  case (copied es s1)
  from copy_header_files_keeps_file[OF copied(2)] assms(2,3) copied(4) show ?thesis by auto
qed (use assms(2) in simp_all)

subsection \<open>Finding and copying libraries\<close>

lemma walk_nonempty: "(p, n) \<in> set (walk m) \<Longrightarrow> p \<noteq> []"
  by (cases m) auto

lemma walk_sound: "wf_node m \<Longrightarrow> (p, n) \<in> set (walk m) \<Longrightarrow> lookup m p = Some n"
proof (induction m arbitrary: p n rule: walk.induct)
  case (1 c)
  then show ?case by simp
next
  case (2 es)
  from "2.prems"(2) obtain x k where xk: "(x, k) \<in> set es"
    and p: "(p, n) = ([x], k) \<or> (\<exists>q. p = x # q \<and> (q, n) \<in> set (walk k))"
    by auto
  from "2.prems"(1) xk have m: "map_of es x = Some k" and w: "wf_node k"
    by auto
  from p show ?case
  proof
    assume "(p, n) = ([x], k)"
    with m show ?thesis by simp
  next
    assume "\<exists>q. p = x # q \<and> (q, n) \<in> set (walk k)"
    then obtain q where q: "p = x # q" "(q, n) \<in> set (walk k)" by blast
    from "2.IH"[OF xk refl w q(2)] m q(1) show ?thesis by simp
  qed
qed




lemma write_file_other_top:
  "write_file r (x # p) c = Inr r' \<Longrightarrow> y \<noteq> x \<Longrightarrow> lookup r' (y # q) = lookup r (y # q)"
  by (rule write_file_unrelated) auto

lemma write_file_sibling:
  "write_file r [x, a] c = Inr r' \<Longrightarrow> b \<noteq> a \<Longrightarrow> lookup r' (x # b # q) = lookup r (x # b # q)"
  by (rule write_file_unrelated) auto







subsection \<open>Installing a recorded name\<close>

lemma install_recorded_name:
  assumes "manifest s = JsonFile loaded" and "dependency loaded repository = Some v"
    and "install E repository version s = (ex, s')"
  shows "manifest s' = manifest s
     \<and> lookup (project s') cmakeFile = lookup (project s) cmakeFile
     \<and> (\<forall>q n. q \<noteq> [] \<and> lookup (project s) q = Some n \<longrightarrow> lookup (project s') q = Some n)
     \<and> (case ex of
          Some e \<Rightarrow> e = FilesystemError \<and> console s' = console s
        | None \<Rightarrow>
            console s' = console s @ [Out (AlreadyInstalled repository v)]
            \<and> (\<forall>y q. lookup (project s') (y # q) =
                  (if y \<in> workspace \<and> lookup (project s) [y] = None then lookup (Dir []) q
                   else lookup (project s) (y # q))))"
proof -
  have keep: "\<forall>q n. q \<noteq> [] \<and> lookup (project s) q = Some n \<longrightarrow> lookup (project t) q = Some n"
    and cm: "lookup (project t) cmakeFile = lookup (project s) cmakeFile"
    if "ensure_directories s = (ex', t)" for ex' t
  proof -
    show "\<forall>q n. q \<noteq> [] \<and> lookup (project s) q = Some n \<longrightarrow> lookup (project t) q = Some n"
    proof (intro allI impI)
      fix q n assume "q \<noteq> [] \<and> lookup (project s) q = Some n"
      then obtain y q' where "q = y # q'" "lookup (project s) (y # q') = Some n"
        by (cases q) auto
      with ensure_directories_keeps[OF that, of y q' n] show "lookup (project t) q = Some n"
        by simp
    qed
    show "lookup (project t) cmakeFile = lookup (project s) cmakeFile"
      using ensure_directories_keeps[OF that, of "''CMakeLists.txt''" "[]"]
      by (simp add: cmakeFile_def workspace_def)
  qed
  from assms(3) show ?thesis
  proof (cases rule: install_cases)
    case no_manifest
    with assms(1) show ?thesis by simp
  next
    case unparsable
    with assms(1) show ?thesis by simp
  next
    case (no_directories loaded' e)
    with ensure_directories_result[OF no_directories(2)] keep[OF no_directories(2)]
      cm[OF no_directories(2)]
    show ?thesis by simp
  next
    case (not_an_object loaded' e)
    with assms(1,2) show ?thesis
      by (auto simp: dependency_def j_at_def j_get_def split: json.splits option.splits)
  next
    case (already loaded' s1 config)
    from already(1) assms(1) have [simp]: "loaded' = loaded" by simp
    from assms(2) have "j_get (j_get loaded ''dependencies'') repository = v"
      by (auto simp: dependency_def j_get_def split: json.splits option.splits)
    with j_get_j_at[OF already(3)[simplified]]
    have "j_get (j_get config ''dependencies'') repository = v" by simp
    with already ensure_directories_result[OF already(2)] keep[OF already(2)] cm[OF already(2)]
      ensure_directories_lookup[OF already(2)]
    show ?thesis by simp
  next
    case (failed loaded' s1 config e s2)
    with assms(1,2) j_contains_dependency[OF failed(3), of repository] show ?thesis by simp
  next
    case (installed loaded' s1 config)
    with assms(1,2) j_contains_dependency[OF installed(3), of repository] show ?thesis by simp
  qed
qed

subsection \<open>Patching the build description\<close>

lemma write_file_top:
  "lookup r [y] = Some n \<Longrightarrow> \<not> is_directory r [x] \<Longrightarrow> \<exists>r'. write_file r [x] c = Inr r'"
  by (cases r) (auto simp: is_directory_def split: option.splits node.splits)

lemma ofstream_append_top:
  assumes "lookup r [y] = Some n" and "\<not> is_directory r [x]"
  shows "lookup (ofstream_append r [x] txt) [x] = Some (File (text_of r [x] @ txt))
     \<and> (\<forall>z q. z \<noteq> x \<longrightarrow> lookup (ofstream_append r [x] txt) (z # q) = lookup r (z # q))"
proof -
  from write_file_top[OF assms] obtain r' where
    w: "write_file r [x] (text_of r [x] @ txt) = Inr r'"
    by blast
  then have "ofstream_append r [x] txt = r'"
    by (simp add: ofstream_append_def ofstream_write_def text_of_def)
  with write_file_same[OF w] write_file_other_top[OF w] show ?thesis
    by simp
qed

lemma update_cmake_result:
  assumes "lookup (project s) projectLib = Some (Dir es)"
    and "\<not> is_directory (project s) cmakeFile"
  shows "\<exists>s'. update_cmake E repository s = (None, s')
     \<and> manifest s' = manifest s \<and> console s' = console s
     \<and> lookup (project s') cmakeFile
         = Some (File (text_of (project s) cmakeFile @ directive_block E repository (map fst es)))
     \<and> (\<forall>z q. z \<noteq> ''CMakeLists.txt'' \<longrightarrow> lookup (project s') (z # q) = lookup (project s) (z # q))"
proof -
  let ?head = "endl @ marker repository @ endl @ ''include_directories(include)'' @ endl"
  let ?links = "concat (map (link_directive E) (filter is_static_library (map fst es)))
      @ system_libraries (platform E)"
  let ?r1 = "ofstream_append (project s) cmakeFile ?head"
  let ?r2 = "ofstream_append ?r1 cmakeFile ?links"
  have lib: "lookup (project s) [''lib''] = Some (Dir es)"
    using assms(1) by (simp add: projectLib_def)
  have nd: "\<not> is_directory (project s) [''CMakeLists.txt'']"
    using assms(2) by (simp add: cmakeFile_def)
  note 1 = ofstream_append_top[OF lib nd, of ?head]
  from 1 have lib1: "lookup ?r1 [''lib''] = Some (Dir es)"
    using lib by (simp add: cmakeFile_def)
  from 1 have nd1: "\<not> is_directory ?r1 [''CMakeLists.txt'']"
    and t1: "text_of ?r1 [''CMakeLists.txt''] = text_of (project s) [''CMakeLists.txt''] @ ?head"
    by (simp_all add: is_directory_def text_of_def cmakeFile_def)
  note 2 = ofstream_append_top[OF lib1[unfolded cmakeFile_def] nd1[unfolded cmakeFile_def], of ?links]
  have it: "directory_iterator ?r1 projectLib = Inr es"
    using lib1 by (simp add: directory_iterator_def projectLib_def)
  then have u: "update_cmake E repository s = (None, s\<lparr>project := ?r2\<rparr>)"
    by (simp add: update_cmake_def Let_def)
  have "lookup ?r2 cmakeFile
      = Some (File (text_of (project s) cmakeFile @ directive_block E repository (map fst es)))"
    using 2 t1 by (simp add: cmakeFile_def directive_block_def)
  moreover have "lookup ?r2 (z # q) = lookup (project s) (z # q)" if "z \<noteq> ''CMakeLists.txt''" for z q
    using 1 2 that by (simp add: cmakeFile_def)
  ultimately show ?thesis
    using u by simp
qed

lemma replace_elsewhere:
  "d = [] \<or> hd d \<noteq> y \<Longrightarrow> lookup (replace r d v) (y # q) = lookup r (y # q)"
  by (cases d) (auto simp: replace_other_top)

lemma executeCommand_git_keeps_top:
  assumes "executeCommand E c s = (ex, s')" and "destination c = Some d" and "d = [] \<or> hd d \<noteq> y"
  shows "lookup (project s') (y # q) = lookup (project s) (y # q)"
  using executeCommand_result[OF assms(1)] assms(2,3) replace_elsewhere[of d y]
  by auto

lemma fetch_keeps_top:
  assumes "fetch E repository version s = (ex, s')" and "y \<noteq> ''TegenModules''"
  shows "lookup (project s') (y # q) = lookup (project s) (y # q)"
proof (rule fetch_invariant[OF assms(1),
      where P = "\<lambda>t. lookup (project t) (y # q) = lookup (project s) (y # q)"])
  fix c t ex' t'
  assume "executeCommand E c t = (ex', t')" "destination c = Some (repoDir repository)"
    and "lookup (project t) (y # q) = lookup (project s) (y # q)"
  with executeCommand_git_keeps_top[of E c t ex' t' "repoDir repository" y q]
    repoDir_place[of repository] assms(2)
  show "lookup (project t') (y # q) = lookup (project s) (y # q)"
    by auto
qed simp_all

lemma copy_library_files_keeps:
  assumes "copy_library_files t k files s = (ex, s')"
  shows "(y \<noteq> ''lib'' \<longrightarrow> lookup (project s') (y # q) = lookup (project s) (y # q))
     \<and> ((\<exists>c. lookup (project s) [''lib'', name] = Some (File c))
          \<longrightarrow> (\<exists>c. lookup (project s') [''lib'', name] = Some (File c)))"
  using assms
proof (induction files arbitrary: s k)
  case Nil
  then show ?case by simp
next
  case (Cons f rest)
  show ?case
  proof (cases "copy_file (project s) f (projectLib @ [last f])")
    case (Inl e)
    with Cons.prems show ?thesis by simp
  next
    case (Inr r)
    then obtain c where w: "write_file (project s) [''lib'', last f] c = Inr r"
      by (auto simp: projectLib_def dest: copy_file_result)
    have a: "lookup r (y # q) = lookup (project s) (y # q)" if "y \<noteq> ''lib''"
      using write_file_other_top[OF w that] .
    have b: "\<exists>c. lookup r [''lib'', name] = Some (File c)"
      if "\<exists>c. lookup (project s) [''lib'', name] = Some (File c)"
    proof (cases "name = last f")
      case True
      with write_file_same[OF w] show ?thesis by simp
    next
      case False
      with write_file_sibling[OF w False, of "[]"] that show ?thesis by simp
    qed
    from Cons.prems Inr have
      "copy_library_files t (Suc k) rest
         (say (Out (LibraryProgress (Suc k * 100 div t) (Suc k) t)) (s\<lparr>project := r\<rparr>)) = (ex, s')"
      by simp
    from Cons.IH[OF this] a b show ?thesis
      by simp
  qed
qed

lemma copy_libs_keeps:
  assumes "copy_libs dir s = (ex, s')"
  shows "(y \<noteq> ''lib'' \<longrightarrow> lookup (project s') (y # q) = lookup (project s) (y # q))
     \<and> ((\<exists>c. lookup (project s) [''lib'', name] = Some (File c))
          \<longrightarrow> (\<exists>c. lookup (project s') [''lib'', name] = Some (File c)))"
proof -
  let ?libDir = "descend (project s) (dir @ [''lib''])"
  show ?thesis
  proof (cases "exists (project s) ?libDir")
    case False
    with assms show ?thesis by (simp add: copy_libs_def Let_def)
  next
    case True
    show ?thesis
    proof (cases "recursive_directory_iterator (project s) ?libDir")
      case (Inl e)
      with True assms show ?thesis by (auto simp: copy_libs_def Let_def)
    next
      case (Inr entries)
      define files where "files = map (\<lambda>(p, n). ?libDir @ p)
          (filter (\<lambda>(p, n). is_regular_file n \<and> is_static_library (last p)) entries)"
      from True Inr assms have "seq (copy_library_files (length files) 0 files)
          (\<lambda>t. (None, say (Out EndLine) t)) (say (Out CopyingLibraries) s) = (ex, s')"
        by (simp add: copy_libs_def Let_def files_def)
      then obtain s1 where "copy_library_files (length files) 0 files (say (Out CopyingLibraries) s) = (ex, s1)"
        "project s' = project s1"
        by (cases ex) (auto simp: seq_None seq_Some)
      with copy_library_files_keeps[OF this(1), of y q name] show ?thesis
        by simp
    qed
  qed
qed

lemma entry_listed:
  assumes "lookup r p = Some (Dir es)" and "lookup r (p @ [name]) = Some n"
  shows "name \<in> set (map fst es)"
proof -
  from assms have "map_of es name = Some n"
    by (simp add: lookup_append split: option.splits)
  then have "(name, n) \<in> set es" by (rule map_of_SomeD)
  then show ?thesis by force
qed

lemma install_completed:
  assumes "install E repository version s = (None, s')"
    and "last (console s') = Out (Installed repository)"
  obtains loaded config s1 t1 t2 t3 t4 t5 t6 where
    "manifest s = JsonFile loaded" "j_at loaded ''dependencies'' = Inr config"
    "dependency loaded repository = None"
    "ensure_directories s = (None, s1)"
    "fetch E repository (resolvedVersion (platform E) version)
       (say (Out (Installing repository (resolvedVersion (platform E) version))) s1) = (None, t1)"
    "copy_headers (repoDir repository) t1 = (None, t2)"
    "copy_libs (repoDir repository) t2 = (None, t3)"
    "update_cmake E repository t3 = (None, t4)"
    "update_config repository (resolvedVersion (platform E) version) config t4 = (None, t5)"
    "removeFolderRecursively E modulesDir t5 = (None, t6)"
    "s' = say (Out (Installed repository)) t6"
  using assms(1)
proof (cases rule: install_cases)
  case no_manifest
  with assms(2) show ?thesis by simp
next
  case (already loaded s1 config)
  with assms(2) show ?thesis by simp
next
  case (failed loaded s1 config e s2)
  with assms(2) show ?thesis by simp
next
  case (installed loaded s1 config)
  from ensure_directories_result[OF installed(2)] have d: "is_directory (project s1) modulesDir"
    by simp
  from installed(5) d show ?thesis
  proof (cases rule: install_try_cases)
    case (completed u1 u2)
    from completed(2) show ?thesis
    proof (cases rule: integrate_cases)
      case (patched t1 t2 t3 t4)
      from j_contains_dependency[OF installed(3), of repository] installed(4)
      have "dependency loaded repository = None" by simp
      with installed(1-3) patched completed(3,4) show ?thesis
        by (intro that) simp_all
    qed simp_all
  qed simp
qed simp_all

lemma install_appends_block:
  assumes "install E repository version s = (None, s')"
    and "last (console s') = Out (Installed repository)"
    and "lookup (project s) cmakeFile = Some (File old)"
  shows "\<exists>libs. lookup (project s') cmakeFile = Some (File (old @ directive_block E repository libs))
     \<and> (\<forall>name c. lookup (project s) (projectLib @ [name]) = Some (File c) \<longrightarrow> name \<in> set libs)"
  using assms(1,2)
proof (cases rule: install_completed)
  case (1 loaded config s1 t1 t2 t3 t4 t5 t6)
  note dirs = ensure_directories_result[OF 1(4)]
  have c1: "lookup (project s1) cmakeFile = Some (File old)"
    using ensure_directories_keeps[OF 1(4), of "''CMakeLists.txt''" "[]" "File old"] assms(3)
    by (simp add: cmakeFile_def)
  have l1: "lookup (project s1) [''lib'', name] = Some (File c)"
    if "lookup (project s) [''lib'', name] = Some (File c)" for name c
    using ensure_directories_keeps[OF 1(4), of "''lib''" "[name]" "File c"] that
    by simp
  have c2: "lookup (project t1) cmakeFile = Some (File old)"
    and d2: "lookup (project t1) projectLib = lookup (project s1) projectLib"
    using fetch_keeps_top[OF 1(5)] c1 by (simp_all add: cmakeFile_def projectLib_def)
  have l2: "lookup (project t1) [''lib'', name] = lookup (project s1) [''lib'', name]" for name
    using fetch_keeps_top[OF 1(5)] by simp
  have c3: "lookup (project t2) cmakeFile = Some (File old)"
    using copy_headers_keeps_file[OF 1(6) c2] by (simp add: cmakeFile_def projectInclude_def)
  have l3: "lookup (project t2) [''lib'', name] = Some (File c)"
    if "lookup (project t1) [''lib'', name] = Some (File c)" for name c
    using copy_headers_keeps_file[OF 1(6) that] by (simp add: projectInclude_def)
  from dirs d2 have "is_directory (project t1) projectLib"
    by (simp add: is_directory_def)
  from copy_libs_keeps_dirs[OF 1(7) copy_headers_keeps_dirs[OF 1(6) this]]
  obtain es where es: "lookup (project t3) projectLib = Some (Dir es)"
    by (auto simp: is_directory_iff)
  have c4: "lookup (project t3) cmakeFile = Some (File old)"
    using copy_libs_keeps[OF 1(7), of "''CMakeLists.txt''" "[]"] c3 by (simp add: cmakeFile_def)
  have l4: "\<exists>c. lookup (project t3) [''lib'', name] = Some (File c)"
    if "\<exists>c. lookup (project t2) [''lib'', name] = Some (File c)" for name
    using copy_libs_keeps[OF 1(7), of _ _ name] that by blast
  from c4 have nd: "\<not> is_directory (project t3) cmakeFile"
    and old: "text_of (project t3) cmakeFile = old"
    by (simp_all add: is_directory_def text_of_def)
  from update_cmake_result[OF es nd, of E repository] 1(8) old
  have c5: "lookup (project t4) cmakeFile
      = Some (File (old @ directive_block E repository (map fst es)))"
    by auto
  from update_config_result[OF 1(9)] have "project t5 = project t4"
    by simp
  moreover from 1(10) have "lookup (project t6) cmakeFile = lookup (project t5) cmakeFile"
    by (auto simp: removeFolderRecursively_def modulesDir_def cmakeFile_def replace_other_top
        split: sum.splits option.splits if_splits)
  ultimately have c6: "lookup (project s') cmakeFile
      = Some (File (old @ directive_block E repository (map fst es)))"
    using c5 1(11) by simp
  have "name \<in> set (map fst es)" if "lookup (project s) (projectLib @ [name]) = Some (File c)" for name c
  proof -
    from that l1 l2 l3 l4 have "\<exists>c. lookup (project t3) [''lib'', name] = Some (File c)"
      by (auto simp: projectLib_def)
    then obtain c' where "lookup (project t3) (projectLib @ [name]) = Some (File c')"
      by (auto simp: projectLib_def)
    from entry_listed[OF es this] show ?thesis .
  qed
  with c6 show ?thesis
    by blast
qed


subsection \<open>When the project directories can be made\<close>

lemma create_directories_occupied:
  "(\<exists>e. create_directories r [x] = Inl e) \<longleftrightarrow> occupied r x"
  by (cases r) (auto simp: occupied_def create_directories_Nil split: option.splits sum.splits node.splits)

lemma occupied_iff:
  "occupied r x \<longleftrightarrow> (\<forall>es. r \<noteq> Dir es) \<or> (\<exists>c. lookup r [x] = Some (File c))"
  by (cases r) (auto simp: occupied_def split: option.splits node.splits)

lemma occupied_after:
  assumes "create_directories r [x] = Inr r'"
  shows "occupied r' y = occupied r y"
proof -
  from assms obtain es es' where d: "r = Dir es" "r' = Dir es'"
    unfolding create_directories_top by blast
  from create_directories_top_lookup[OF assms, of y "[]"]
  have "lookup r' [y] = (if y = x \<and> lookup r [x] = None then Some (Dir []) else lookup r [y])"
    by simp
  then have "(\<exists>c. lookup r' [y] = Some (File c)) \<longleftrightarrow> (\<exists>c. lookup r [y] = Some (File c))"
    by (cases "y = x \<and> lookup r [x] = None") auto
  with d show ?thesis
    by (simp add: occupied_iff)
qed

lemma ensure_directories_outcome:
  "fst (ensure_directories s) =
     (if \<exists>x \<in> workspace. occupied (project s) x then Some FilesystemError else None)"
proof (cases "create_directories (project s) modulesDir")
  case (Inl e)
  with create_directories_occupied[of "project s" "''TegenModules''"] create_directories_error[OF Inl]
  show ?thesis
    by (auto simp: ensure_directories_def seq_def fs_step_def modulesDir_def workspace_def)
next
  case r1: (Inr r1)
  from r1 create_directories_occupied[of "project s" "''TegenModules''"]
  have n1: "\<not> occupied (project s) ''TegenModules''"
    by (auto simp: modulesDir_def)
  note o1 = occupied_after[OF r1[unfolded modulesDir_def]]
  show ?thesis
  proof (cases "create_directories r1 projectInclude")
    case (Inl e)
    with create_directories_occupied[of r1 "''include''"] create_directories_error[OF Inl] o1 r1
    show ?thesis
      by (auto simp: ensure_directories_def seq_def fs_step_def projectInclude_def workspace_def)
  next
    case r2: (Inr r2)
    from r2 create_directories_occupied[of r1 "''include''"] o1
    have n2: "\<not> occupied (project s) ''include''"
      by (auto simp: projectInclude_def)
    note o2 = occupied_after[OF r2[unfolded projectInclude_def]]
    show ?thesis
    proof (cases "create_directories r2 projectLib")
      case (Inl e)
      with create_directories_occupied[of r2 "''lib''"] create_directories_error[OF Inl] o1 o2 r1 r2
      show ?thesis
        by (auto simp: ensure_directories_def seq_def fs_step_def projectLib_def workspace_def)
    next
      case r3: (Inr r3)
      from r3 create_directories_occupied[of r2 "''lib''"] o1 o2
      have n3: "\<not> occupied (project s) ''lib''"
        by (auto simp: projectLib_def)
      from r1 r2 r3 have "fst (ensure_directories s) = None"
        by (simp add: ensure_directories_def seq_def fs_step_def)
      with n1 n2 n3 show ?thesis
        by (simp add: workspace_def)
    qed
  qed
qed

subsection \<open>The exceptions that leave install, and the other commands\<close>

lemma j_at_outcome: "j_at j k = Inl e \<longleftrightarrow> e = TypeError \<and> \<not> object_like j"
  by (cases j) (auto simp: j_at_def split: option.splits)

lemma install_raises_exactly:
  "fst (install E pkg version s) =
     (case manifest s of
        Absent \<Rightarrow> None
      | Garbage \<Rightarrow> Some ParseError
      | JsonFile loaded \<Rightarrow>
          if \<exists>x \<in> workspace. occupied (project s) x then Some FilesystemError
          else if \<not> object_like loaded then Some TypeError
          else None)"
proof -
  obtain ex s' where i: "install E pkg version s = (ex, s')"
    by force
  note o = ensure_directories_outcome[of s]
  have j: "object_like loaded" if "j_at loaded ''dependencies'' = Inr config" for loaded config
    using that j_at_outcome[of loaded "''dependencies''"] by (cases "object_like loaded") auto
  from i have "ex = (case manifest s of
        Absent \<Rightarrow> None
      | Garbage \<Rightarrow> Some ParseError
      | JsonFile loaded \<Rightarrow>
          if \<exists>x \<in> workspace. occupied (project s) x then Some FilesystemError
          else if \<not> object_like loaded then Some TypeError
          else None)"
  proof (cases rule: install_cases)
    case no_manifest
    then show ?thesis by simp
  next
    case unparsable
    then show ?thesis by simp
  next
    case (no_directories loaded e)
    with o show ?thesis by (simp split: if_splits)
  next
    case (not_an_object loaded e)
    with o j_at_outcome[of loaded "''dependencies''" e] show ?thesis by (simp split: if_splits)
  next
    case (already loaded s1 config)
    with o j[OF already(3)] show ?thesis by (simp split: if_splits)
  next
    case (failed loaded s1 config e s2)
    with o j[OF failed(3)] show ?thesis by (simp split: if_splits)
  next
    case (installed loaded s1 config)
    with o j[OF installed(3)] show ?thesis by (simp split: if_splits)
  qed
  with i show ?thesis
    by simp
qed

lemma install_try_fails:
  assumes "manifest s = JsonFile loaded" and "ensure_directories s = (None, s1)"
    and "j_at loaded ''dependencies'' = Inr config"
    and "\<not> j_contains (j_get config ''dependencies'') pkg"
    and "install_try E pkg (resolvedVersion (platform E) version) config s1 = (Some e, s2)"
  shows "install E pkg version s = (None, say (Err (FailedToInstall e)) s2)"
  using assms by (simp add: install_def configExists_def loadConfig_def)

lemma build_step_fails:
  assumes "manifest s \<noteq> Absent" and "create_directory (project s) [''build''] = Inr r"
    and "shell E CMakeConfigure r = (0, r1)" and "shell E CMakeBuild r1 = (rc, r2)" and "rc \<noteq> 0"
  shows "build E s = (Some (RuntimeError CMakeBuild), say (Out Building) s\<lparr>project := r2\<rparr>)"
  using assms
  by (simp add: build_def configExists_def seq_def fs_step_def executeCommand_def system_def say_def)

lemma run_without_target:
  assumes "manifest s = JsonFile loaded" and "j_at loaded ''name'' = Inr config"
    and "j_get config ''name'' = JStr projectName"
    and "buildPath = [''build'', projectName @ (if platform E = Windows then ''.exe'' else [])]"
    and "\<not> exists (project s) buildPath"
  shows "run E s = (None, say (Err (ExecutableNotFound buildPath)) (say (Out RunningProject) s))"
  using assms
  by (simp add: run_def configExists_def loadConfig_def j_string_def Let_def)

lemma main_usage:
  "main E [prog] s = (1, say (Err UsageHint) s)"
  "main E [prog, ''install''] s = (1, say (Err SpecifyPackage) s)"
  by (simp_all add: main_def)

lemma main_without_manifest:
  assumes "manifest s = Absent"
  shows "main E [prog, ''install'', pkg] s = (0, say (Err ConfigNotFound) s)"
    and "main E [prog, ''list''] s = (0, say (Err ConfigNotFound) s)"
    and "main E [prog, ''build''] s = (0, say (Err ConfigNotFound) s)"
    and "main E [prog, ''run''] s = (0, say (Err ConfigNotFound) s)"
  using assms
  by (simp_all add: main_def dispatch_def install_def listDependencies_def build_def run_def
      configExists_def)

subsection \<open>A build description that cannot be written\<close>

lemma write_file_directory:
  "is_directory r p \<Longrightarrow> write_file r p c = Inl FilesystemError"
  by (induction r p c rule: write_file.induct)
     (auto simp: is_directory_def split: option.splits node.splits)

lemma ofstream_append_directory:
  "is_directory r p \<Longrightarrow> ofstream_append r p txt = r"
  by (simp add: ofstream_append_def ofstream_write_def write_file_directory)

lemma update_cmake_returns:
  assumes "is_directory (project s) projectLib"
  shows "\<exists>s'. update_cmake E repository s = (None, s')
     \<and> manifest s' = manifest s \<and> console s' = console s
     \<and> (is_directory (project s) modulesDir \<longrightarrow> is_directory (project s') modulesDir)
     \<and> (is_directory (project s) cmakeFile \<longrightarrow> project s' = project s)"
proof -
  let ?r1 = "ofstream_append (project s) cmakeFile
                 (endl @ marker repository @ endl @ ''include_directories(include)'' @ endl)"
  from assms have "is_directory ?r1 projectLib"
    by (rule ofstream_append_keeps_dirs)
  then obtain es where es: "directory_iterator ?r1 projectLib = Inr es"
    by (auto simp: is_directory_iff directory_iterator_def)
  let ?r2 = "ofstream_append ?r1 cmakeFile
                  (concat (map (link_directive E) (filter is_static_library (map fst es)))
                   @ system_libraries (platform E))"
  from es have u: "update_cmake E repository s = (None, s\<lparr>project := ?r2\<rparr>)"
    by (simp add: update_cmake_def Let_def)
  have "is_directory ?r2 modulesDir" if "is_directory (project s) modulesDir"
    using that by (intro ofstream_append_keeps_dirs)
  moreover have "?r2 = project s" if "is_directory (project s) cmakeFile"
    using that by (simp add: ofstream_append_directory)
  ultimately show ?thesis
    using u by simp
qed

subsection \<open>Headers, repeated patches\<close>

lemma copy_header_files_in_place:
  "files \<noteq> [] \<Longrightarrow> fst (copy_header_files projectInclude t k files s) \<noteq> None"
  by (cases files) (auto simp: copy_file_def split: sum.splits option.splits node.splits)

lemma repoDir_staged:
  assumes "repository \<noteq> ''..''"
  shows "\<exists>place. repoDir repository = modulesDir @ place"
proof (cases "repository = [] \<or> repository = ''.''")
  case True
  then have "repoDir repository = modulesDir @ []"
    by (simp add: repoDir_def)
  then show ?thesis by blast
next
  case False
  with assms have "repoDir repository = modulesDir @ [repository]"
    by (simp add: repoDir_def)
  then show ?thesis by blast
qed

lemma install_records:
  assumes "install E repository version s = (None, s')"
    and "last (console s') = Out (Installed repository)"
  shows "\<exists>saved. manifest s' = JsonFile saved
     \<and> dependency saved repository = Some (JStr (resolvedVersion (platform E) version))"
  using assms
proof (cases rule: install_completed)
  case (1 loaded config s1 t1 t2 t3 t4 t5 t6)
  from update_config_result[OF 1(9)] obtain c where
    c: "set_dependency config repository (resolvedVersion (platform E) version) = Inr c"
       "manifest t5 = JsonFile c"
    by auto
  from removeFolderRecursively_manifest[OF 1(10)] c(2) 1(11) have "manifest s' = JsonFile c"
    by simp
  with set_dependency_dependency[OF 1(2) c(1), of repository] show ?thesis
    by simp
qed

lemma repeat_invariant:
  assumes "repeat n f s = (ex, s')" and "P s"
    and "\<And>s ex s'. f s = (ex, s') \<Longrightarrow> P s \<Longrightarrow> P s'"
  shows "P s'"
  using assms(1,2)
proof (induction n arbitrary: s ex s')
  case 0
  then show ?case by simp
next
  case (Suc n)
  from Suc.prems(1) have "seq f (repeat n f) s = (ex, s')" by simp
  then show ?case
  proof (rule seq_invariant[where P = P])
    show "P s" by (rule Suc.prems(2))
  next
    fix t ex' t' assume "f t = (ex', t')" "P t"
    then show "P t'" by (rule assms(3))
  next
    fix t ex' t' assume "repeat n f t = (ex', t')" "P t"
    then show "P t'" by (rule Suc.IH)
  qed
qed

lemma repeat_update_cmake:
  assumes "lookup (project s) projectLib = Some (Dir es)"
    and "\<not> is_directory (project s) cmakeFile"
  shows "\<exists>s'. repeat n (update_cmake E repository) s = (None, s')
     \<and> text_of (project s') cmakeFile
         = text_of (project s) cmakeFile @ concat (replicate n (directive_block E repository (map fst es)))"
  using assms
proof (induction n arbitrary: s)
  case 0
  then show ?case by simp
next
  case (Suc n)
  from update_cmake_result[OF Suc.prems, of E repository] obtain s1 where
    u: "update_cmake E repository s = (None, s1)"
    and t: "lookup (project s1) cmakeFile
         = Some (File (text_of (project s) cmakeFile @ directive_block E repository (map fst es)))"
    and o: "\<And>z q. z \<noteq> ''CMakeLists.txt'' \<Longrightarrow> lookup (project s1) (z # q) = lookup (project s) (z # q)"
    by blast
  from o[of "''lib''" "[]"] Suc.prems(1) have l: "lookup (project s1) projectLib = Some (Dir es)"
    by (simp add: projectLib_def)
  from t have d: "\<not> is_directory (project s1) cmakeFile"
    and t': "text_of (project s1) cmakeFile
        = text_of (project s) cmakeFile @ directive_block E repository (map fst es)"
    by (simp_all add: is_directory_def text_of_def)
  from Suc.IH[OF l d] obtain s' where
    "repeat n (update_cmake E repository) s1 = (None, s')"
    "text_of (project s') cmakeFile
       = text_of (project s1) cmakeFile @ concat (replicate n (directive_block E repository (map fst es)))"
    by blast
  with u t' show ?case
    by (simp add: seq_def)
qed

lemma returned:
  assumes "\<exists>s'. r = (None, s') \<and> P s'"
  shows "fst r = None \<and> P (snd r)"
  using assms by auto

lemma constant_text:
  assumes "\<exists>libs. \<forall>n v. f n v = pre @ g libs" and "f k w = pre @ g l"
  shows "f n v = pre @ (g l :: string)"
  using assms by (metis same_append_eq)

subsection \<open>A header tree that fits into the project\<close>

lemma fits_Dir_Nil: "fits (Dir es) (Dir [])"
  by auto

lemma fits_entry:
  assumes "fits (Dir es) (Dir ds)" and "map_of es x = Some n"
  shows "fits n (case map_of ds x of None \<Rightarrow> (case n of File c \<Rightarrow> File c | Dir ns \<Rightarrow> Dir []) | Some k \<Rightarrow> k)"
proof -
  from assms(2) have "(x, n) \<in> set es" by (rule map_of_SomeD)
  with assms(1) show ?thesis
    by (cases n) (auto split: option.splits)
qed

lemma fits_update:
  assumes "fits (Dir es) (Dir ds)" and "distinct (map fst es)" and "map_of es x = Some n"
    and "fits n k"
  shows "fits (Dir es) (Dir (AList.update x k ds))"
proof -
  have "case map_of (AList.update x k ds) z of None \<Rightarrow> True | Some m \<Rightarrow> fits n' m"
    if "(z, n') \<in> set es" for z n'
  proof (cases "z = x")
    case True
    with that assms(2,3) have "n' = n"
      by (metis map_of_is_SomeI option.inject)
    with True assms(4) show ?thesis by simp
  next
    case False
    with that assms(1) show ?thesis by auto
  qed
  then show ?thesis
    by auto
qed

lemma fits_copy:
  assumes "fits n m" and "wf_node n" and "lookup n p = Some (File c)" and "p \<noteq> []"
  shows "\<exists>m1 m2. create_directories m (butlast p) = Inr m1 \<and> write_file m1 p c' = Inr m2
     \<and> fits n m2"
  using assms
proof (induction p arbitrary: n m)
  case Nil
  then show ?case by simp
next
  case (Cons x q)
  from Cons.prems(3) obtain es where n: "n = Dir es"
    by (cases n) auto
  with Cons.prems(1) obtain ds where m: "m = Dir ds"
    by (cases m) auto
  from Cons.prems(3) n obtain n1 where n1: "map_of es x = Some n1" "lookup n1 q = Some (File c)"
    by (auto split: option.splits)
  from Cons.prems(2) n have d: "distinct (map fst es)"
    by simp
  from Cons.prems(2) n n1(1) have w1: "wf_node n1"
    by (auto dest!: map_of_SomeD)
  let ?k = "case map_of ds x of None \<Rightarrow> (case n1 of File c \<Rightarrow> File c | Dir ns \<Rightarrow> Dir []) | Some k \<Rightarrow> k"
  from fits_entry[OF Cons.prems(1)[unfolded n m] n1(1)] have fk: "fits n1 ?k" .
  show ?case
  proof (cases q)
    case Nil
    with n1(2) have f: "n1 = File c" by simp
    have "write_file (Dir ds) [x] c' = Inr (Dir (AList.update x (File c') ds))"
    proof (cases "map_of ds x")
      case None
      then show ?thesis by simp
    next
      case (Some k)
      with fk f obtain d' where "k = File d'"
        by (cases k) auto
      with Some show ?thesis by simp
    qed
    moreover have "fits (Dir es) (Dir (AList.update x (File c') ds))"
      using fits_update[OF Cons.prems(1)[unfolded n m] d n1(1), of "File c'"] f by simp
    ultimately show ?thesis
      using Nil n m by simp
  next
    case (Cons y q')
    with n1(2) obtain ns where dn: "n1 = Dir ns"
      by (cases n1) auto
    from Cons have ne: "q \<noteq> []" by simp
    have k: "?k = (case map_of ds x of None \<Rightarrow> Dir [] | Some k \<Rightarrow> k)"
      using dn by (simp split: option.splits)
    from Cons.IH[OF fk w1 n1(2) ne] obtain m1 m2 where
      i: "create_directories ?k (butlast q) = Inr m1" "write_file m1 q c' = Inr m2" "fits n1 m2"
      by blast
    from i(1) k have "create_directories (Dir ds) (x # butlast q) = Inr (Dir (AList.update x m1 ds))"
      by simp
    moreover from i(2) Cons
    have "write_file (Dir (AList.update x m1 ds)) (x # q) c'
        = Inr (Dir (AList.update x m2 (AList.update x m1 ds)))"
      by simp
    moreover have "fits (Dir es) (Dir (AList.update x m2 (AList.update x m1 ds)))"
      using fits_update[OF Cons.prems(1)[unfolded n m] d n1(1) i(3)]
      by (simp add: AList.update_conv' fits_update)
    ultimately show ?thesis
      using ne n m by auto
  qed
qed

lemma fits_copy_below:
  assumes "lookup r [a] = Some m" and "fits (Dir es) m" and "wf_node (Dir es)"
    and "lookup r (b # src) = Some (Dir es)" and "b \<noteq> a"
    and "lookup (Dir es) rel = Some (File c)" and "rel \<noteq> []"
  shows "\<exists>r1 r2 m2. create_directories r (butlast ([a] @ rel)) = Inr r1
      \<and> copy_file r1 ((b # src) @ rel) ([a] @ rel) = Inr r2
      \<and> lookup r2 [a] = Some m2 \<and> fits (Dir es) m2 \<and> lookup r2 (b # src) = Some (Dir es)"
proof -
  from assms(1) obtain top where r: "r = Dir top" and m: "map_of top a = Some m"
    by (cases r) (auto split: option.splits)
  from fits_copy[OF assms(2,3,6,7), of c] obtain m1 m2 where
    c: "create_directories m (butlast rel) = Inr m1" "write_file m1 rel c = Inr m2"
       "fits (Dir es) m2"
    by blast
  let ?r1 = "Dir (AList.update a m1 top)"
  let ?r2 = "Dir (AList.update a m2 (AList.update a m1 top))"
  from assms(7) have "butlast ([a] @ rel) = a # butlast rel"
    by (simp add: butlast_append)
  with c(1) m r have 1: "create_directories r (butlast ([a] @ rel)) = Inr ?r1"
    by simp
  have l1: "lookup ?r1 (b # q) = lookup r (b # q)" for q
    using assms(5) r by simp
  have "lookup r ((b # src) @ rel) = Some (File c)"
    using assms(4,6) by (simp only: lookup_append option.case)
  with l1[of "src @ rel"] have "lookup ?r1 ((b # src) @ rel) = Some (File c)"
    by simp
  moreover from c(2) assms(7) have "write_file ?r1 ([a] @ rel) c = Inr ?r2"
    by (cases rel) simp_all
  moreover from assms(5) have "(b # src) @ rel \<noteq> [a] @ rel"
    by simp
  ultimately have 2: "copy_file ?r1 ((b # src) @ rel) ([a] @ rel) = Inr ?r2"
    by (simp add: copy_file_def)
  have 3: "lookup ?r2 [a] = Some m2"
    by simp
  have "lookup ?r2 (b # src) = lookup r (b # src)"
    using assms(5) r by simp
  with assms(4) have 4: "lookup ?r2 (b # src) = Some (Dir es)"
    by simp
  from 1 2 3 c(3) 4 show ?thesis
    by blast
qed

lemma copy_header_files_ok:
  assumes "lookup (project s) projectInclude = Some m" and "fits (Dir es) m" and "wf_node (Dir es)"
    and "lookup (project s) (modulesDir @ place) = Some (Dir es)"
    and "\<forall>rel \<in> set files. rel \<noteq> [] \<and> (\<exists>c. lookup (Dir es) rel = Some (File c))"
  shows "\<exists>s'. copy_header_files (modulesDir @ place) t k files s = (None, s')"
  using assms(1,2,4,5)
proof (induction files arbitrary: s k m)
  case Nil
  then show ?case by simp
next
  case (Cons rel rest)
  from Cons.prems(4) obtain c where rel: "rel \<noteq> []" "lookup (Dir es) rel = Some (File c)"
    by auto
  have ne: "''TegenModules'' \<noteq> ''include''"
    by simp
  from fits_copy_below[OF Cons.prems(1)[unfolded projectInclude_def] Cons.prems(2) assms(3)
      Cons.prems(3)[unfolded modulesDir_def, simplified] ne rel(2,1)]
  obtain r1 r2 m2 where
    s: "create_directories (project s) (butlast (projectInclude @ rel)) = Inr r1"
       "copy_file r1 ((modulesDir @ place) @ rel) (projectInclude @ rel) = Inr r2"
       "lookup r2 projectInclude = Some m2" "fits (Dir es) m2"
       "lookup r2 (modulesDir @ place) = Some (Dir es)"
    by (auto simp: projectInclude_def modulesDir_def)
  let ?s2 = "say (Out (HeaderProgress (Suc k * 100 div t) (Suc k) t)) (s\<lparr>project := r2\<rparr>)"
  from Cons.IH[of ?s2 m2 "Suc k"] s(3,4,5) Cons.prems(4) obtain s' where
    "copy_header_files (modulesDir @ place) t (Suc k) rest ?s2 = (None, s')"
    by auto
  with s(1,2) show ?case
    by simp
qed

lemma headers_arrive:
  assumes "lookup (project s) (modulesDir @ place @ [''include'']) = Some (Dir es)"
    and "wf_node (Dir es)"
    and "lookup (project s) projectInclude = Some m" and "fits (Dir es) m"
  shows "\<exists>s'. copy_headers (modulesDir @ place) s = (None, s')"
proof -
  define files where "files = map fst (filter (\<lambda>(p, n). is_regular_file n) (walk (Dir es)))"
  have "\<forall>rel \<in> set files. rel \<noteq> [] \<and> (\<exists>c. lookup (Dir es) rel = Some (File c))"
  proof
    fix rel assume "rel \<in> set files"
    then obtain n where n: "(rel, n) \<in> set (walk (Dir es))" "is_regular_file n"
      unfolding files_def by (auto simp del: walk.simps)
    from n(2) obtain c where "n = File c" by (cases n) auto
    with walk_sound[OF assms(2) n(1)] walk_nonempty[OF n(1)]
    show "rel \<noteq> [] \<and> (\<exists>c. lookup (Dir es) rel = Some (File c))"
      by simp
  qed
  from copy_header_files_ok[OF _ assms(4,2) _ this, of "say (Out CopyingHeaders) s"
      "place @ [''include'']" "length files" 0] assms(1,3)
  obtain s1 where "copy_header_files (modulesDir @ place @ [''include'']) (length files) 0 files
      (say (Out CopyingHeaders) s) = (None, s1)"
    by auto
  with assms(1) have "copy_headers (modulesDir @ place) s = (None, say (Out EndLine) s1)"
    unfolding files_def
    by (simp add: copy_headers_def Let_def exists_def recursive_directory_iterator_def seq_def
        del: walk.simps)
  then show ?thesis
    by blast
qed

subsection \<open>When the manifest can take an entry\<close>

lemma set_entry_outcome:
  assumes "j_at loaded d = Inr config"
  shows "(case j_at config d of
            Inl e \<Rightarrow> Inl e
          | Inr c \<Rightarrow> (case j_set (j_get c d) repository v of
                        Inl e \<Rightarrow> Inl e
                      | Inr x \<Rightarrow> j_set c d x)) = Inl e
     \<longleftrightarrow> e = TypeError \<and> \<not> object_like (j_get loaded d)"
  using assms
proof (cases rule: j_at_cases)
  case null
  then show ?thesis
    by (auto simp: j_at_def j_set_def j_get_def)
next
  case (missing kv)
  then show ?thesis
    by (auto simp: j_at_def j_set_def j_get_def map_add_def split: option.splits)
next
  case (present kv x)
  then show ?thesis
    by (cases x) (auto simp: j_at_def j_set_def j_get_def split: option.splits sum.splits)
qed

lemma set_dependency_outcome:
  "j_at loaded ''dependencies'' = Inr config \<Longrightarrow>
   set_dependency config repository v = Inl e
     \<longleftrightarrow> e = TypeError \<and> \<not> object_like (j_get loaded ''dependencies'')"
  unfolding set_dependency_def by (rule set_entry_outcome)

lemma copy_headers_keeps_other:
  assumes "copy_headers dir s = (ex, s')"
    and "lookup (project s) (dir @ [''include'']) = Some (Dir es)" and "wf_node (Dir es)"
    and "lookup (project s) q = Some (File c)"
    and "\<And>rel c'. q = projectInclude @ rel \<Longrightarrow> lookup (Dir es) rel \<noteq> Some (File c')"
  shows "lookup (project s') q = Some (File c)"
proof -
  define files where "files = map fst (filter (\<lambda>(p, n). is_regular_file n) (walk (Dir es)))"
  have n: "q \<notin> (\<lambda>rel. projectInclude @ rel) ` set files"
  proof
    assume "q \<in> (\<lambda>rel. projectInclude @ rel) ` set files"
    then obtain rel k where r: "q = projectInclude @ rel" "(rel, k) \<in> set (walk (Dir es))"
      "is_regular_file k"
      unfolding files_def by (auto simp del: walk.simps)
    from r(3) obtain c' where "k = File c'" by (cases k) auto
    with walk_sound[OF assms(3) r(2)] assms(5)[OF r(1)] show False
      by simp
  qed
  from assms(1) show ?thesis
  proof (cases rule: copy_headers_cases)
    case (aborted es' e)
    with assms(2) have "es' = es" by simp
    with copy_header_files_keeps_file[OF aborted(2)] assms(4) n show ?thesis
      by (simp add: files_def del: walk.simps)
  next
    case (copied es' s1)
    with assms(2) have "es' = es" by simp
    with copy_header_files_keeps_file[OF copied(2)] assms(4) n copied(4) show ?thesis
      by (simp add: files_def del: walk.simps)
  qed (use assms(4) in simp_all)
qed

section \<open>Properties\<close>

subsection \<open>The resolved version\<close>

text \<open>
  C6. When no version is requested (the empty string, the parameter's default) the
  resolved version is the branch name of the host platform, one of three constants; a
  requested version is used as it is; the resolved version is never empty.
\<close>

theorem resolved_version_policy:
  "resolvedVersion pf version = (if version = [] then osBranch pf else version)
   \<and> osBranch Linux = ''LinuxBranch''
   \<and> osBranch Windows = ''WindowsBranch''
   \<and> osBranch MacOS = ''MacBranch''
   \<and> resolvedVersion pf version \<noteq> []"
  by (cases pf) (simp_all add: resolvedVersion_def osBranch_def)

subsection \<open>Saving the manifest\<close>

text \<open>
  C5, as the claim states it, fails: a save that stops after its first file operation has
  already emptied the manifest; what was there before is gone and the new document is not
  there yet.
\<close>

theorem saveConfig_interrupted_loses_manifest:
  "manifest demo = JsonFile demo_manifest
   \<and> manifest (saveConfig_upto 1 (JObj [(''name'', JStr ''demo2'')]) demo) = Garbage"
  by (simp add: demo_def saveConfig_upto_def saveConfig_ops_def)

text \<open>
  C5, amended. The save works on the manifest file itself, in two operations: opening it
  (which empties it), then writing the document. Stopped before the first it has changed
  nothing, stopped between the two it leaves an empty manifest, and run to its end it
  leaves exactly the new document. Nothing else is touched: no other file is created or
  renamed.
\<close>

theorem saveConfig_in_place:
  "saveConfig_upto k config s =
     (if k = 0 then s else if k = 1 then s\<lparr>manifest := Garbage\<rparr> else saveConfig config s)
   \<and> saveConfig config s = s\<lparr>manifest := JsonFile config\<rparr>
   \<and> project (saveConfig_upto k config s) = project s"
proof -
  have full: "saveConfig config s = s\<lparr>manifest := JsonFile config\<rparr>"
    by (simp add: saveConfig_def saveConfig_ops_def)
  have "k = 0 \<or> k = 1 \<or> 2 \<le> k"
    by arith
  then have upto: "saveConfig_upto k config s =
      (if k = 0 then s else if k = 1 then s\<lparr>manifest := Garbage\<rparr> else saveConfig config s)"
    by (auto simp: saveConfig_upto_def saveConfig_def saveConfig_ops_def)
  from full upto show ?thesis
    by simp
qed

subsection \<open>The manifest after install\<close>

text \<open>
  C2, as the claim states it, fails for the descriptor patch. The build description of this
  project is a directory, so the patch can write nothing; install does not notice, records
  \<open>widgets\<close> in the manifest and reports success, and the build description is as before.
\<close>

theorem unpatched_install_is_recorded:
  "dependency demo_manifest ''widgets'' = None
   \<and> manifest undescribed = JsonFile demo_manifest
   \<and> is_directory (project undescribed) cmakeFile
   \<and> fst (install host ''widgets'' [] undescribed) = None
   \<and> last (console (snd (install host ''widgets'' [] undescribed))) = Out (Installed ''widgets'')
   \<and> lookup (project (snd (install host ''widgets'' [] undescribed))) cmakeFile = Some (Dir [])
   \<and> manifest (snd (install host ''widgets'' [] undescribed))
       = JsonFile (JObj [(''dependencies'', JObj [(''widgets'', JStr ''LinuxBranch'')]),
                         (''name'', JStr ''demo'')])"
  by code_simp

text \<open>
  C2, amended. Take a name the manifest does not record, and let the three project
  directories exist or be made and the manifest be an object (or null). Stage by stage:
  if the fetch throws, or the header copy, or the library copy, install reports that
  failure and returns, and the manifest is as before. If the three succeed, the descriptor patch throws nothing,
  and where \<open>CMakeLists.txt\<close> is a directory it leaves the project as it is; the install goes
  on all the same. Then either the dependencies of the manifest cannot take an entry,
  which is reported as a failure with the manifest as before, or install ends with the
  success message and the manifest it has saved records the resolved version for the name
  and, for every other name, what was recorded before. The dependencies cannot take an
  entry exactly when they are neither an object nor null, and what is thrown then is a
  type error.
\<close>

theorem install_manifest_by_stage:
  assumes "manifest s = JsonFile loaded" and "dependency loaded repository = None"
    and "ensure_directories s = (None, s1)" and "j_at loaded ''dependencies'' = Inr config"
    and "v = resolvedVersion (platform E) version"
    and "s0 = say (Out (Installing repository v)) s1"
  shows
    "(fetch E repository v s0 = (Some e, t)
      \<longrightarrow> install E repository version s = (None, say (Err (FailedToInstall e)) t)
          \<and> manifest t = manifest s)
   \<and> (fetch E repository v s0 = (None, t1) \<and> copy_headers (repoDir repository) t1 = (Some e, t)
      \<longrightarrow> install E repository version s = (None, say (Err (FailedToInstall e)) t)
          \<and> manifest t = manifest s)
   \<and> (fetch E repository v s0 = (None, t1) \<and> copy_headers (repoDir repository) t1 = (None, t2)
        \<and> copy_libs (repoDir repository) t2 = (Some e, t)
      \<longrightarrow> install E repository version s = (None, say (Err (FailedToInstall e)) t)
          \<and> manifest t = manifest s)
   \<and> (fetch E repository v s0 = (None, t1) \<and> copy_headers (repoDir repository) t1 = (None, t2)
        \<and> copy_libs (repoDir repository) t2 = (None, t3)
      \<longrightarrow> (\<exists>t4. update_cmake E repository t3 = (None, t4)
             \<and> (is_directory (project t3) cmakeFile \<longrightarrow> project t4 = project t3)
             \<and> (case set_dependency config repository v of
                  Inl e' \<Rightarrow>
                    install E repository version s = (None, say (Err (FailedToInstall e')) t4)
                    \<and> manifest t4 = manifest s
                | Inr saved \<Rightarrow>
                    (\<exists>s'. install E repository version s = (None, s')
                        \<and> last (console s') = Out (Installed repository)
                        \<and> manifest s' = JsonFile saved)
                    \<and> (\<forall>k. dependency saved k =
                          (if k = repository then Some (JStr v) else dependency loaded k)))))
   \<and> (set_dependency config repository v = Inl x
      \<longleftrightarrow> x = TypeError \<and> \<not> object_like (j_get loaded ''dependencies''))"
proof -
  from j_contains_dependency[OF assms(4), of repository] assms(2)
  have nc: "\<not> j_contains (j_get config ''dependencies'') repository"
    by simp
  have inst: "install E repository version s =
      (case install_try E repository v config s1 of
         (Some e, s2) \<Rightarrow> (None, say (Err (FailedToInstall e)) s2)
       | (None, s2) \<Rightarrow> (None, s2))"
    using assms(1,3,4,5) nc by (simp add: install_def configExists_def loadConfig_def)
  have aborted: "install E repository version s = (None, say (Err (FailedToInstall x)) u)"
    if "integrate E repository v config s0 = (Some x, u)" for x u
    using that inst by (simp add: install_try_def seq_def assms(6))
  note dirs = ensure_directories_result[OF assms(3)]
  have m0: "manifest s0 = manifest s"
    using dirs by (simp add: assms(6))
  from dirs have d0: "is_directory (project s0) modulesDir" "is_directory (project s0) projectLib"
    by (simp_all add: assms(6))
  show ?thesis
  proof (intro conjI impI)
    assume f: "fetch E repository v s0 = (Some e, t)"
    then have "integrate E repository v config s0 = (Some e, t)"
      by (simp add: integrate_def seq_def)
    from aborted[OF this] fetch_manifest[OF f] m0
    show "install E repository version s = (None, say (Err (FailedToInstall e)) t)"
      and "manifest t = manifest s"
      by simp_all
  next
    assume a: "fetch E repository v s0 = (None, t1) \<and> copy_headers (repoDir repository) t1 = (Some e, t)"
    then have "integrate E repository v config s0 = (Some e, t)"
      by (simp add: integrate_def seq_def)
    from aborted[OF this] a fetch_manifest[of E repository v s0 None t1]
      copy_headers_manifest[of "repoDir repository" t1 "Some e" t] m0
    show "install E repository version s = (None, say (Err (FailedToInstall e)) t)"
      and "manifest t = manifest s"
      by simp_all
  next
    assume a: "fetch E repository v s0 = (None, t1) \<and> copy_headers (repoDir repository) t1 = (None, t2)
        \<and> copy_libs (repoDir repository) t2 = (Some e, t)"
    then have "integrate E repository v config s0 = (Some e, t)"
      by (simp add: integrate_def seq_def)
    from aborted[OF this] a fetch_manifest[of E repository v s0 None t1]
      copy_headers_manifest[of "repoDir repository" t1 None t2]
      copy_libs_manifest[of "repoDir repository" t2 "Some e" t] m0
    show "install E repository version s = (None, say (Err (FailedToInstall e)) t)"
      and "manifest t = manifest s"
      by simp_all
  next
    assume a: "fetch E repository v s0 = (None, t1) \<and> copy_headers (repoDir repository) t1 = (None, t2)
        \<and> copy_libs (repoDir repository) t2 = (None, t3)"
    then have f: "fetch E repository v s0 = (None, t1)"
      and h: "copy_headers (repoDir repository) t1 = (None, t2)"
      and l: "copy_libs (repoDir repository) t2 = (None, t3)"
      by simp_all
    from fetch_manifest[OF f] copy_headers_manifest[OF h] copy_libs_manifest[OF l] m0
    have m3: "manifest t3 = manifest s"
      by simp
    from fetch_keeps_top[OF f, of "''lib''" "[]"] d0(2)
    have "is_directory (project t1) projectLib"
      by (simp add: is_directory_def projectLib_def)
    with copy_headers_keeps_dirs[OF h] copy_libs_keeps_dirs[OF l]
    have lib3: "is_directory (project t3) projectLib"
      by blast
    from fetch_keeps_modulesDir[OF f d0(1)] copy_headers_keeps_dirs[OF h] copy_libs_keeps_dirs[OF l]
    have mod3: "is_directory (project t3) modulesDir"
      by blast
    from update_cmake_returns[OF lib3, of E repository] mod3 m3 obtain t4 where
      u: "update_cmake E repository t3 = (None, t4)"
      and m4: "manifest t4 = manifest s"
      and mod4: "is_directory (project t4) modulesDir"
      and same: "is_directory (project t3) cmakeFile \<longrightarrow> project t4 = project t3"
      by auto
    have rest: "integrate E repository v config s0 = update_config repository v config t4"
      using f h l u by (simp add: integrate_def seq_def)
    have "case set_dependency config repository v of
            Inl e' \<Rightarrow>
              install E repository version s = (None, say (Err (FailedToInstall e')) t4)
              \<and> manifest t4 = manifest s
          | Inr saved \<Rightarrow>
              (\<exists>s'. install E repository version s = (None, s')
                  \<and> last (console s') = Out (Installed repository)
                  \<and> manifest s' = JsonFile saved)
              \<and> (\<forall>k. dependency saved k =
                    (if k = repository then Some (JStr v) else dependency loaded k))"
    proof (cases "set_dependency config repository v")
      case (Inl e')
      with rest have "integrate E repository v config s0 = (Some e', t4)"
        by (simp add: update_config_def)
      from aborted[OF this] m4 Inl show ?thesis
        by simp
    next
      case (Inr saved)
      let ?t5 = "saveConfig saved t4"
      from Inr rest have i: "integrate E repository v config s0 = (None, ?t5)"
        by (simp add: update_config_def)
      have p5: "project ?t5 = project t4" and m5: "manifest ?t5 = JsonFile saved"
        by (simp_all add: saveConfig_def saveConfig_ops_def)
      from mod4 p5 have "is_directory (project ?t5) modulesDir"
        by simp
      from removeFolderRecursively_result[of ?t5 modulesDir E] this obtain s2 where
        s2: "removeFolderRecursively E modulesDir ?t5 = (None, s2)" "manifest s2 = manifest ?t5"
        by auto
      from i s2(1) have "install_try E repository v config s1
          = (None, say (Out (Installed repository)) s2)"
        by (simp add: install_try_def seq_def assms(6))
      with inst have "install E repository version s = (None, say (Out (Installed repository)) s2)"
        by simp
      moreover have "last (console (say (Out (Installed repository)) s2)) = Out (Installed repository)"
        "manifest (say (Out (Installed repository)) s2) = JsonFile saved"
        using s2(2) m5 by simp_all
      ultimately have "\<exists>s'. install E repository version s = (None, s')
                  \<and> last (console s') = Out (Installed repository)
                  \<and> manifest s' = JsonFile saved"
        by blast
      with set_dependency_dependency[OF assms(4) Inr] Inr show ?thesis
        by simp
    qed
    with u same show "\<exists>t4. update_cmake E repository t3 = (None, t4)
             \<and> (is_directory (project t3) cmakeFile \<longrightarrow> project t4 = project t3)
             \<and> (case set_dependency config repository v of
                  Inl e' \<Rightarrow>
                    install E repository version s = (None, say (Err (FailedToInstall e')) t4)
                    \<and> manifest t4 = manifest s
                | Inr saved \<Rightarrow>
                    (\<exists>s'. install E repository version s = (None, s')
                        \<and> last (console s') = Out (Installed repository)
                        \<and> manifest s' = JsonFile saved)
                    \<and> (\<forall>k. dependency saved k =
                          (if k = repository then Some (JStr v) else dependency loaded k)))"
      by blast
  next
    show "set_dependency config repository v = Inl x
      \<longleftrightarrow> x = TypeError \<and> \<not> object_like (j_get loaded ''dependencies'')"
      by (rule set_dependency_outcome[OF assms(4)])
  qed
qed

text \<open>
  The five ways on the small project: no network; a directory in the way of a header; a
  directory in the way of a library; dependencies that are a list; and a build description
  that is a directory, where the install is recorded although nothing was patched.
\<close>

theorem install_manifest_by_stage_witness:
  "fst (install offline ''widgets'' [] demo) = None
   \<and> last (console (snd (install offline ''widgets'' [] demo))) = Err (FailedToInstall (RuntimeError (GitClone ''LinuxBranch'' ''widgets'' [''TegenModules'', ''widgets''])))
   \<and> manifest (snd (install offline ''widgets'' [] demo)) = JsonFile demo_manifest
   \<and> fst (install host ''widgets'' [] shadowed) = None
   \<and> last (console (snd (install host ''widgets'' [] shadowed))) = Err (FailedToInstall FilesystemError)
   \<and> manifest (snd (install host ''widgets'' [] shadowed)) = JsonFile demo_manifest
   \<and> fst (install host ''widgets'' [] blocked) = None
   \<and> last (console (snd (install host ''widgets'' [] blocked))) = Err (FailedToInstall FilesystemError)
   \<and> manifest (snd (install host ''widgets'' [] blocked)) = JsonFile demo_manifest
   \<and> fst (install host ''widgets'' [] broken) = None
   \<and> last (console (snd (install host ''widgets'' [] broken))) = Err (FailedToInstall TypeError)
   \<and> manifest (snd (install host ''widgets'' [] broken)) = JsonFile broken_manifest
   \<and> is_directory (project undescribed) cmakeFile
   \<and> fst (install host ''widgets'' [] undescribed) = None
   \<and> last (console (snd (install host ''widgets'' [] undescribed))) = Out (Installed ''widgets'')
   \<and> (\<exists>saved. manifest (snd (install host ''widgets'' [] undescribed)) = JsonFile saved
         \<and> dependency saved ''widgets'' = Some (JStr ''LinuxBranch'')
         \<and> dependency saved ''gadgets'' = None)"
proof -

  have m_o: "manifest demo = JsonFile demo_manifest"
    by (simp add: demo_def)
  have d_o: "dependency demo_manifest ''widgets'' = None"
    by (simp add: dependency_def j_get_def demo_manifest_def)
  have "fst (ensure_directories demo) = None"
    by code_simp
  then have en_o: "ensure_directories demo = (None, snd (ensure_directories demo))"
    by (simp add: prod_eq_iff)
  have j_o: "j_at demo_manifest ''dependencies'' = Inr demo_manifest"
    by (simp add: j_at_def demo_manifest_def)
  have v_o: "''LinuxBranch'' = resolvedVersion (platform offline) []"
    by (simp add: resolvedVersion_def osBranch_def offline_def host_def)
  define s0_o where "s0_o = say (Out (Installing ''widgets'' ''LinuxBranch'')) (snd (ensure_directories demo))"
  note th_o = install_manifest_by_stage[OF m_o d_o en_o j_o v_o s0_o_def]

  have "fst (fetch offline ''widgets'' ''LinuxBranch'' s0_o) = Some (RuntimeError (GitClone ''LinuxBranch'' ''widgets'' [''TegenModules'', ''widgets'']))"
    unfolding s0_o_def by code_simp
  then have c1_o: "fetch offline ''widgets'' ''LinuxBranch'' s0_o = (Some (RuntimeError (GitClone ''LinuxBranch'' ''widgets'' [''TegenModules'', ''widgets''])), snd (fetch offline ''widgets'' ''LinuxBranch'' s0_o))"
    by (simp add: prod_eq_iff)
  from th_o[THEN conjunct1, THEN mp, OF c1_o]
  have r_o: "fst (install offline ''widgets'' [] demo) = None"
    "last (console (snd (install offline ''widgets'' [] demo))) = Err (FailedToInstall (RuntimeError (GitClone ''LinuxBranch'' ''widgets'' [''TegenModules'', ''widgets''])))"
    "manifest (snd (install offline ''widgets'' [] demo)) = JsonFile demo_manifest"
    using m_o by simp_all

  have m_h: "manifest shadowed = JsonFile demo_manifest"
    by (simp add: shadowed_def demo_def)
  have d_h: "dependency demo_manifest ''widgets'' = None"
    by (simp add: dependency_def j_get_def demo_manifest_def)
  have "fst (ensure_directories shadowed) = None"
    by code_simp
  then have en_h: "ensure_directories shadowed = (None, snd (ensure_directories shadowed))"
    by (simp add: prod_eq_iff)
  have j_h: "j_at demo_manifest ''dependencies'' = Inr demo_manifest"
    by (simp add: j_at_def demo_manifest_def)
  have v_h: "''LinuxBranch'' = resolvedVersion (platform host) []"
    by (simp add: resolvedVersion_def osBranch_def host_def)
  define s0_h where "s0_h = say (Out (Installing ''widgets'' ''LinuxBranch'')) (snd (ensure_directories shadowed))"
  note th_h = install_manifest_by_stage[OF m_h d_h en_h j_h v_h s0_h_def]

  have "fst (fetch host ''widgets'' ''LinuxBranch'' s0_h) = None"
    unfolding s0_h_def by code_simp
  define t1_h where "t1_h = snd (fetch host ''widgets'' ''LinuxBranch'' s0_h)"
  then have c1_h: "fetch host ''widgets'' ''LinuxBranch'' s0_h = (None, t1_h)"
    using \<open>fst (fetch host ''widgets'' ''LinuxBranch'' s0_h) = None\<close> by (simp add: prod_eq_iff)

  have "fst (copy_headers (repoDir ''widgets'') t1_h) = Some (FilesystemError)"
    unfolding t1_h_def s0_h_def by code_simp
  then have c2_h: "copy_headers (repoDir ''widgets'') t1_h = (Some (FilesystemError), snd (copy_headers (repoDir ''widgets'') t1_h))"
    by (simp add: prod_eq_iff)
  from th_h[THEN conjunct2, THEN conjunct1, THEN mp, OF conjI[OF c1_h c2_h]]
  have r_h: "fst (install host ''widgets'' [] shadowed) = None"
    "last (console (snd (install host ''widgets'' [] shadowed))) = Err (FailedToInstall (FilesystemError))"
    "manifest (snd (install host ''widgets'' [] shadowed)) = JsonFile demo_manifest"
    using m_h by simp_all

  have m_b: "manifest blocked = JsonFile demo_manifest"
    by (simp add: blocked_def demo_def)
  have d_b: "dependency demo_manifest ''widgets'' = None"
    by (simp add: dependency_def j_get_def demo_manifest_def)
  have "fst (ensure_directories blocked) = None"
    by code_simp
  then have en_b: "ensure_directories blocked = (None, snd (ensure_directories blocked))"
    by (simp add: prod_eq_iff)
  have j_b: "j_at demo_manifest ''dependencies'' = Inr demo_manifest"
    by (simp add: j_at_def demo_manifest_def)
  have v_b: "''LinuxBranch'' = resolvedVersion (platform host) []"
    by (simp add: resolvedVersion_def osBranch_def host_def)
  define s0_b where "s0_b = say (Out (Installing ''widgets'' ''LinuxBranch'')) (snd (ensure_directories blocked))"
  note th_b = install_manifest_by_stage[OF m_b d_b en_b j_b v_b s0_b_def]

  have "fst (fetch host ''widgets'' ''LinuxBranch'' s0_b) = None"
    unfolding s0_b_def by code_simp
  define t1_b where "t1_b = snd (fetch host ''widgets'' ''LinuxBranch'' s0_b)"
  then have c1_b: "fetch host ''widgets'' ''LinuxBranch'' s0_b = (None, t1_b)"
    using \<open>fst (fetch host ''widgets'' ''LinuxBranch'' s0_b) = None\<close> by (simp add: prod_eq_iff)

  have "fst (copy_headers (repoDir ''widgets'') t1_b) = None"
    unfolding t1_b_def s0_b_def by code_simp
  define t2_b where "t2_b = snd (copy_headers (repoDir ''widgets'') t1_b)"
  then have c2_b: "copy_headers (repoDir ''widgets'') t1_b = (None, t2_b)"
    using \<open>fst (copy_headers (repoDir ''widgets'') t1_b) = None\<close> by (simp add: prod_eq_iff)

  have "fst (copy_libs (repoDir ''widgets'') t2_b) = Some (FilesystemError)"
    unfolding t2_b_def t1_b_def s0_b_def by code_simp
  then have c3_b: "copy_libs (repoDir ''widgets'') t2_b = (Some (FilesystemError), snd (copy_libs (repoDir ''widgets'') t2_b))"
    by (simp add: prod_eq_iff)
  from th_b[THEN conjunct2, THEN conjunct2, THEN conjunct1, THEN mp, OF conjI[OF c1_b conjI[OF c2_b c3_b]]]
  have r_b: "fst (install host ''widgets'' [] blocked) = None"
    "last (console (snd (install host ''widgets'' [] blocked))) = Err (FailedToInstall (FilesystemError))"
    "manifest (snd (install host ''widgets'' [] blocked)) = JsonFile demo_manifest"
    using m_b by simp_all

  have m_k: "manifest broken = JsonFile broken_manifest"
    by (simp add: broken_def)
  have d_k: "dependency broken_manifest ''widgets'' = None"
    by (simp add: dependency_def j_get_def broken_manifest_def)
  have "fst (ensure_directories broken) = None"
    by code_simp
  then have en_k: "ensure_directories broken = (None, snd (ensure_directories broken))"
    by (simp add: prod_eq_iff)
  have j_k: "j_at broken_manifest ''dependencies'' = Inr broken_manifest"
    by (simp add: j_at_def broken_manifest_def)
  have v_k: "''LinuxBranch'' = resolvedVersion (platform host) []"
    by (simp add: resolvedVersion_def osBranch_def host_def)
  define s0_k where "s0_k = say (Out (Installing ''widgets'' ''LinuxBranch'')) (snd (ensure_directories broken))"
  note th_k = install_manifest_by_stage[OF m_k d_k en_k j_k v_k s0_k_def]

  have "fst (fetch host ''widgets'' ''LinuxBranch'' s0_k) = None"
    unfolding s0_k_def by code_simp
  define t1_k where "t1_k = snd (fetch host ''widgets'' ''LinuxBranch'' s0_k)"
  then have c1_k: "fetch host ''widgets'' ''LinuxBranch'' s0_k = (None, t1_k)"
    using \<open>fst (fetch host ''widgets'' ''LinuxBranch'' s0_k) = None\<close> by (simp add: prod_eq_iff)

  have "fst (copy_headers (repoDir ''widgets'') t1_k) = None"
    unfolding t1_k_def s0_k_def by code_simp
  define t2_k where "t2_k = snd (copy_headers (repoDir ''widgets'') t1_k)"
  then have c2_k: "copy_headers (repoDir ''widgets'') t1_k = (None, t2_k)"
    using \<open>fst (copy_headers (repoDir ''widgets'') t1_k) = None\<close> by (simp add: prod_eq_iff)

  have "fst (copy_libs (repoDir ''widgets'') t2_k) = None"
    unfolding t2_k_def t1_k_def s0_k_def by code_simp
  define t3_k where "t3_k = snd (copy_libs (repoDir ''widgets'') t2_k)"
  then have c3_k: "copy_libs (repoDir ''widgets'') t2_k = (None, t3_k)"
    using \<open>fst (copy_libs (repoDir ''widgets'') t2_k) = None\<close> by (simp add: prod_eq_iff)
  note done_k = th_k[THEN conjunct2, THEN conjunct2, THEN conjunct2, THEN conjunct1, THEN mp,
      OF conjI[OF c1_k conjI[OF c2_k c3_k]]]
  have "\<not> object_like (j_get broken_manifest ''dependencies'')"
    by (simp add: broken_manifest_def j_get_def)
  with th_k have "set_dependency broken_manifest ''widgets'' ''LinuxBranch'' = Inl TypeError"
    by blast
  with done_k obtain t4 where
    "install host ''widgets'' [] broken = (None, say (Err (FailedToInstall TypeError)) t4)"
    "manifest t4 = manifest broken"
    by auto
  with m_k have r_k: "fst (install host ''widgets'' [] broken) = None"
    "last (console (snd (install host ''widgets'' [] broken))) = Err (FailedToInstall TypeError)"
    "manifest (snd (install host ''widgets'' [] broken)) = JsonFile broken_manifest"
    by simp_all

  have m_u: "manifest undescribed = JsonFile demo_manifest"
    by (simp add: undescribed_def demo_def)
  have d_u: "dependency demo_manifest ''widgets'' = None"
    by (simp add: dependency_def j_get_def demo_manifest_def)
  have "fst (ensure_directories undescribed) = None"
    by code_simp
  then have en_u: "ensure_directories undescribed = (None, snd (ensure_directories undescribed))"
    by (simp add: prod_eq_iff)
  have j_u: "j_at demo_manifest ''dependencies'' = Inr demo_manifest"
    by (simp add: j_at_def demo_manifest_def)
  have v_u: "''LinuxBranch'' = resolvedVersion (platform host) []"
    by (simp add: resolvedVersion_def osBranch_def host_def)
  define s0_u where "s0_u = say (Out (Installing ''widgets'' ''LinuxBranch'')) (snd (ensure_directories undescribed))"
  note th_u = install_manifest_by_stage[OF m_u d_u en_u j_u v_u s0_u_def]

  have "fst (fetch host ''widgets'' ''LinuxBranch'' s0_u) = None"
    unfolding s0_u_def by code_simp
  define t1_u where "t1_u = snd (fetch host ''widgets'' ''LinuxBranch'' s0_u)"
  then have c1_u: "fetch host ''widgets'' ''LinuxBranch'' s0_u = (None, t1_u)"
    using \<open>fst (fetch host ''widgets'' ''LinuxBranch'' s0_u) = None\<close> by (simp add: prod_eq_iff)

  have "fst (copy_headers (repoDir ''widgets'') t1_u) = None"
    unfolding t1_u_def s0_u_def by code_simp
  define t2_u where "t2_u = snd (copy_headers (repoDir ''widgets'') t1_u)"
  then have c2_u: "copy_headers (repoDir ''widgets'') t1_u = (None, t2_u)"
    using \<open>fst (copy_headers (repoDir ''widgets'') t1_u) = None\<close> by (simp add: prod_eq_iff)

  have "fst (copy_libs (repoDir ''widgets'') t2_u) = None"
    unfolding t2_u_def t1_u_def s0_u_def by code_simp
  define t3_u where "t3_u = snd (copy_libs (repoDir ''widgets'') t2_u)"
  then have c3_u: "copy_libs (repoDir ''widgets'') t2_u = (None, t3_u)"
    using \<open>fst (copy_libs (repoDir ''widgets'') t2_u) = None\<close> by (simp add: prod_eq_iff)
  note done_u = th_u[THEN conjunct2, THEN conjunct2, THEN conjunct2, THEN conjunct1, THEN mp,
      OF conjI[OF c1_u conjI[OF c2_u c3_u]]]
  have dir_u: "is_directory (project undescribed) cmakeFile"
    by code_simp
  obtain saved where sv: "set_dependency demo_manifest ''widgets'' ''LinuxBranch'' = Inr saved"
    by (simp add: set_dependency_def demo_manifest_def j_at_def j_get_def j_set_def)
  with done_u obtain s' where
    i_u: "install host ''widgets'' [] undescribed = (None, s')"
      "last (console s') = Out (Installed ''widgets'')" "manifest s' = JsonFile saved"
    and dep_u: "\<forall>k. dependency saved k =
        (if k = ''widgets'' then Some (JStr ''LinuxBranch'') else dependency demo_manifest k)"
    by auto
  have "dependency demo_manifest ''gadgets'' = None"
    by (simp add: dependency_def j_get_def demo_manifest_def)
  with dep_u have "dependency saved ''widgets'' = Some (JStr ''LinuxBranch'')"
    "dependency saved ''gadgets'' = None"
    by simp_all
  with i_u have r_u: "fst (install host ''widgets'' [] undescribed) = None"
    "last (console (snd (install host ''widgets'' [] undescribed))) = Out (Installed ''widgets'')"
    "\<exists>saved. manifest (snd (install host ''widgets'' [] undescribed)) = JsonFile saved
         \<and> dependency saved ''widgets'' = Some (JStr ''LinuxBranch'')
         \<and> dependency saved ''gadgets'' = None"
    by simp_all
  from r_o r_h r_b r_k dir_u r_u show ?thesis
    by blast
qed

subsection \<open>Cleanup\<close>

text \<open>
  C9. Once the integration and the manifest save have succeeded, the cleanup does not
  throw, whatever part of the staging directory resists removal: the try block ends with
  the success message, and the cleanup adds at most a warning to the console and leaves
  the manifest as saved. Seen from outside: whenever install has changed the manifest, it
  has returned normally with the success message last.
\<close>

theorem cleanup_is_not_fatal:
  "(integrate E repository version config (say (Out (Installing repository version)) s) = (None, s1)
      \<and> is_directory (project s) modulesDir
    \<longrightarrow> (\<exists>s2. removeFolderRecursively E modulesDir s1 = (None, s2)
          \<and> install_try E repository version config s = (None, say (Out (Installed repository)) s2)
          \<and> manifest s2 = manifest s1
          \<and> (console s2 = console s1 \<or> console s2 = console s1 @ [Err (CleanupWarning modulesDir)])))
   \<and> (install E repository version s = (ex, s') \<and> manifest s' \<noteq> manifest s
    \<longrightarrow> ex = None \<and> last (console s') = Out (Installed repository))"
proof (intro conjI impI)
  assume a: "integrate E repository version config (say (Out (Installing repository version)) s) = (None, s1)
      \<and> is_directory (project s) modulesDir"
  with integrate_result[of E repository version config "say (Out (Installing repository version)) s" None s1]
  have d: "is_directory (project s1) modulesDir" by simp
  from removeFolderRecursively_result[of s1 modulesDir E] d obtain s2 where
    s2: "removeFolderRecursively E modulesDir s1 = (None, s2)" "manifest s2 = manifest s1"
      "console s2 = console s1 \<or> console s2 = console s1 @ [Err (CleanupWarning modulesDir)]"
    by auto
  with a have "install_try E repository version config s = (None, say (Out (Installed repository)) s2)"
    by (simp add: install_try_def seq_def)
  with s2 show "\<exists>s2. removeFolderRecursively E modulesDir s1 = (None, s2)
          \<and> install_try E repository version config s = (None, say (Out (Installed repository)) s2)
          \<and> manifest s2 = manifest s1
          \<and> (console s2 = console s1 \<or> console s2 = console s1 @ [Err (CleanupWarning modulesDir)])"
    by blast
next
  assume b: "install E repository version s = (ex, s') \<and> manifest s' \<noteq> manifest s"
  then have i: "install E repository version s = (ex, s')" and m: "manifest s' \<noteq> manifest s"
    by simp_all
  from i have "ex = None \<and> last (console s') = Out (Installed repository)"
  proof (cases rule: install_cases)
    case no_manifest
    with m show ?thesis by simp
  next
    case unparsable
    with m show ?thesis by simp
  next
    case (no_directories loaded e)
    with ensure_directories_result[OF no_directories(2)] m show ?thesis by simp
  next
    case (not_an_object loaded e)
    with ensure_directories_result[OF not_an_object(2)] m show ?thesis by simp
  next
    case (already loaded t config)
    with ensure_directories_result[OF already(2)] m show ?thesis by simp
  next
    case (failed loaded t config e t2)
    with ensure_directories_result[OF failed(2)] install_try_aborted[OF failed(5)] m
    show ?thesis by simp
  next
    case (installed loaded t config)
    with ensure_directories_result[OF installed(2)] install_try_completed[OF installed(5)]
    show ?thesis by auto
  qed
  then show "ex = None" and "last (console s') = Out (Installed repository)"
    by simp_all
qed

text \<open>
  On the Windows host whose staging directory cannot be removed, the install of
  \<open>widgets\<close> warns and succeeds.
\<close>

theorem cleanup_is_not_fatal_witness:
  "is_directory (project ready) modulesDir
   \<and> fst (integrate stubborn ''widgets'' ''WindowsBranch'' demo_manifest
            (say (Out (Installing ''widgets'' ''WindowsBranch'')) ready)) = None
   \<and> fst (install_try stubborn ''widgets'' ''WindowsBranch'' demo_manifest ready) = None
   \<and> last (console (snd (install_try stubborn ''widgets'' ''WindowsBranch'' demo_manifest ready)))
       = Out (Installed ''widgets'')
   \<and> Err (CleanupWarning modulesDir)
       \<in> set (console (snd (install_try stubborn ''widgets'' ''WindowsBranch'' demo_manifest ready)))
   \<and> manifest (snd (install stubborn ''widgets'' [] demo)) \<noteq> manifest demo
   \<and> fst (install stubborn ''widgets'' [] demo) = None
   \<and> last (console (snd (install stubborn ''widgets'' [] demo))) = Out (Installed ''widgets'')"
proof -
  let ?i = "integrate stubborn ''widgets'' ''WindowsBranch'' demo_manifest
            (say (Out (Installing ''widgets'' ''WindowsBranch'')) ready)"
  let ?t = "install_try stubborn ''widgets'' ''WindowsBranch'' demo_manifest ready"
  let ?w = "install stubborn ''widgets'' [] demo"
  have d: "is_directory (project ready) modulesDir"
    by code_simp
  have i: "fst ?i = None"
    by code_simp
  then have i': "?i = (None, snd ?i)"
    by (metis prod.collapse)
  have w: "Err (CleanupWarning modulesDir) \<in> set (console (snd ?t))"
    by code_simp
  have m: "manifest (snd ?w) \<noteq> manifest demo"
    by code_simp
  have p: "?w = (fst ?w, snd ?w)"
    by simp
  from cleanup_is_not_fatal[where E = stubborn and repository = "''widgets''"
      and version = "''WindowsBranch''" and config = demo_manifest and s = ready and ?s1.0 = "snd ?i"] i' d
  obtain s2 where "?t = (None, say (Out (Installed ''widgets'')) s2)"
    by blast
  then have 1: "fst ?t = None" "last (console (snd ?t)) = Out (Installed ''widgets'')"
    by simp_all
  from cleanup_is_not_fatal[where E = stubborn and repository = "''widgets''" and version = "[]"
      and s = demo and ex = "fst ?w" and s' = "snd ?w"] p m
  have 2: "fst ?w = None \<and> last (console (snd ?w)) = Out (Installed ''widgets'')"
    by blast
  from d i 1 w m 2 show ?thesis
    by blast
qed

subsection \<open>Installing a recorded name again\<close>

text \<open>
  C4, as the claim states it, fails: \<open>widgets\<close> is recorded, the project has no \<open>include\<close>
  directory, and after the second install it has one.
\<close>

theorem reinstall_creates_directories:
  "manifest recorded = JsonFile recorded_manifest
   \<and> dependency recorded_manifest ''widgets'' = Some (JStr ''LinuxBranch'')
   \<and> lookup (project recorded) projectInclude = None
   \<and> fst (install host ''widgets'' [] recorded) = None
   \<and> lookup (project (snd (install host ''widgets'' [] recorded))) projectInclude = Some (Dir [])"
  by code_simp

text \<open>
  C4, amended. For a name the manifest records, install stops at the manifest check, after
  it has made sure of its three directories. In every case the manifest and the build
  description are unchanged and whatever exists in the project stays as it is. The call
  returns normally exactly when none of the names \<open>TegenModules\<close>, \<open>include\<close> and \<open>lib\<close> is
  occupied by a regular file; it has then printed the recorded version, and each of the
  three directories is as it was where it existed and an empty directory where it did not.
  When one of the names is occupied, a filesystem error leaves install and nothing is
  printed.
\<close>

theorem reinstall_changes_nothing_recorded:
  assumes "manifest s = JsonFile loaded" and "dependency loaded repository = Some v"
    and "install E repository version s = (ex, s')"
  shows "manifest s' = manifest s
     \<and> lookup (project s') cmakeFile = lookup (project s) cmakeFile
     \<and> (\<forall>q n. q \<noteq> [] \<and> lookup (project s) q = Some n \<longrightarrow> lookup (project s') q = Some n)
     \<and> ex = (if \<exists>x \<in> workspace. occupied (project s) x then Some FilesystemError else None)
     \<and> (case ex of
          Some e \<Rightarrow> console s' = console s
        | None \<Rightarrow>
            console s' = console s @ [Out (AlreadyInstalled repository v)]
            \<and> (\<forall>y q. lookup (project s') (y # q) =
                  (if y \<in> workspace \<and> lookup (project s) [y] = None then lookup (Dir []) q
                   else lookup (project s) (y # q))))"
proof -
  from assms(3) have "ex = fst (ensure_directories s)"
  proof (cases rule: install_cases)
    case (failed loaded' s1 config e s2)
    with assms(1,2) j_contains_dependency[OF failed(3), of repository] show ?thesis by simp
  next
    case (installed loaded' s1 config)
    with assms(1,2) j_contains_dependency[OF installed(3), of repository] show ?thesis by simp
  next
    case (not_an_object loaded' e)
    with assms(1,2) show ?thesis
      by (auto simp: dependency_def j_at_def j_get_def split: json.splits option.splits)
  qed (use assms(1) in simp_all)
  with ensure_directories_outcome[of s]
  have e: "ex = (if \<exists>x \<in> workspace. occupied (project s) x then Some FilesystemError else None)"
    by simp
  note r = install_recorded_name[OF assms]
  from r have 1: "manifest s' = manifest s"
    and 2: "lookup (project s') cmakeFile = lookup (project s) cmakeFile"
    and 3: "\<forall>q n. q \<noteq> [] \<and> lookup (project s) q = Some n \<longrightarrow> lookup (project s') q = Some n"
    by blast+
  from r have c: "case ex of
          Some e \<Rightarrow> console s' = console s
        | None \<Rightarrow>
            console s' = console s @ [Out (AlreadyInstalled repository v)]
            \<and> (\<forall>y q. lookup (project s') (y # q) =
                  (if y \<in> workspace \<and> lookup (project s) [y] = None then lookup (Dir []) q
                   else lookup (project s) (y # q)))"
    by (cases ex) simp_all
  from 1 2 3 e c show ?thesis
    by blast
qed

text \<open>
  On the recorded project the call returns and \<open>lib\<close> appears; with a regular file named
  \<open>lib\<close> the filesystem error leaves install and the file is still there.
\<close>

theorem reinstall_changes_nothing_recorded_witness:
  "manifest recorded = JsonFile recorded_manifest
   \<and> dependency recorded_manifest ''widgets'' = Some (JStr ''LinuxBranch'')
   \<and> \<not> (\<exists>x \<in> workspace. occupied (project recorded) x)
   \<and> fst (install host ''widgets'' [] recorded) = None
   \<and> manifest (snd (install host ''widgets'' [] recorded)) = JsonFile recorded_manifest
   \<and> lookup (project (snd (install host ''widgets'' [] recorded))) cmakeFile
       = Some (File ''project(demo)'')
   \<and> console (snd (install host ''widgets'' [] recorded))
       = [Out (AlreadyInstalled ''widgets'' (JStr ''LinuxBranch''))]
   \<and> lookup (project (snd (install host ''widgets'' [] recorded))) [''lib''] = Some (Dir [])
   \<and> manifest cluttered = JsonFile recorded_manifest
   \<and> occupied (project cluttered) ''lib''
   \<and> fst (install host ''widgets'' [] cluttered) = Some FilesystemError
   \<and> console (snd (install host ''widgets'' [] cluttered)) = []
   \<and> lookup (project (snd (install host ''widgets'' [] cluttered))) [''lib''] = Some (File ''notes'')"
proof -
  let ?i = "install host ''widgets'' [] recorded"
  let ?j = "install host ''widgets'' [] cluttered"
  have m: "manifest recorded = JsonFile recorded_manifest"
    by (simp add: recorded_def)
  have m': "manifest cluttered = JsonFile recorded_manifest"
    by (simp add: cluttered_def recorded_def)
  have d: "dependency recorded_manifest ''widgets'' = Some (JStr ''LinuxBranch'')"
    by (simp add: dependency_def recorded_manifest_def j_get_def)
  have i: "?i = (fst ?i, snd ?i)" and j: "?j = (fst ?j, snd ?j)"
    by simp_all
  have o: "\<not> (\<exists>x \<in> workspace. occupied (project recorded) x)"
    by (simp add: workspace_def occupied_def recorded_def demo_def)
  have o': "occupied (project cluttered) ''lib''"
    by (simp add: occupied_def cluttered_def)
  then have o'': "\<exists>x \<in> workspace. occupied (project cluttered) x"
    by (auto simp: workspace_def)
  have c: "lookup (project recorded) cmakeFile = Some (File ''project(demo)'')"
    "console recorded = []" "lookup (project recorded) [''lib''] = None" "''lib'' \<in> workspace"
    by (simp_all add: recorded_def demo_def cmakeFile_def workspace_def)
  have c': "console cluttered = []" "lookup (project cluttered) [''lib''] = Some (File ''notes'')"
    by (simp_all add: cluttered_def recorded_def demo_def)
  note 1 = reinstall_changes_nothing_recorded[OF m d i]
  note 2 = reinstall_changes_nothing_recorded[OF m' d j]
  from 1 o have e: "fst ?i = None"
    by simp
  from 2 o'' have e': "fst ?j = Some FilesystemError"
    by simp
  from 1 e c m have a: "manifest (snd ?i) = JsonFile recorded_manifest"
    "lookup (project (snd ?i)) cmakeFile = Some (File ''project(demo)'')"
    "console (snd ?i) = [Out (AlreadyInstalled ''widgets'' (JStr ''LinuxBranch''))]"
    "lookup (project (snd ?i)) [''lib''] = Some (Dir [])"
    by simp_all
  from 2 e' c' have b: "console (snd ?j) = []"
    "lookup (project (snd ?j)) [''lib''] = Some (File ''notes'')"
    by simp_all
  from m d o e a m' o' e' b show ?thesis
    by blast
qed

subsection \<open>Exit status\<close>

text \<open>
  C3, as the claim states it, fails: the fetch error of an install on the host without
  network is reported and the exit status is 0; so it is when the manifest is missing.
\<close>

theorem failed_install_exits_zero:
  "fst (main offline [''tegen'', ''install'', ''widgets''] demo) = 0
   \<and> last (console (snd (main offline [''tegen'', ''install'', ''widgets''] demo)))
       = Err (FailedToInstall (RuntimeError
           (GitClone ''LinuxBranch'' ''widgets'' [''TegenModules'', ''widgets''])))
   \<and> main host [''tegen'', ''install'', ''widgets''] (demo\<lparr>manifest := Absent\<rparr>)
       = (0, say (Err ConfigNotFound) (demo\<lparr>manifest := Absent\<rparr>))"
  by code_simp

text \<open>
  C3, amended. The status is 1 when no command is given and when \<open>install\<close> is given no
  package. For \<open>install\<close> with a package the status is 1 exactly when an exception leaves
  install, and that happens in three cases only: the manifest cannot be parsed (a parse
  error), one of the three directory names is occupied by a regular file (a filesystem
  error), the manifest is neither an object nor null (a type error). A missing manifest is
  reported and the status is 0, for \<open>install\<close>, \<open>build\<close> and \<open>run\<close>. Every exception thrown
  inside the try block of install is caught there and reported, and the status is 0.
  \<open>build\<close> ends with status 1 when the configure step or the build step of cmake returns a
  non-zero status. \<open>run\<close> reports a missing executable and a target that returns a non-zero
  status, and the status is 0 both times.
\<close>

theorem exit_status:
  "main E [prog] s = (1, say (Err UsageHint) s)
   \<and> main E [prog, ''install''] s = (1, say (Err SpecifyPackage) s)
   \<and> main E [prog, ''install'', pkg] s =
       (case install E pkg [] s of
          (Some e, s') \<Rightarrow> (1, say (Err (AnErrorOccurred e)) s')
        | (None, s') \<Rightarrow> (0, s'))
   \<and> fst (install E pkg version s) =
       (case manifest s of
          Absent \<Rightarrow> None
        | Garbage \<Rightarrow> Some ParseError
        | JsonFile loaded \<Rightarrow>
            if \<exists>x \<in> workspace. occupied (project s) x then Some FilesystemError
            else if \<not> object_like loaded then Some TypeError
            else None)
   \<and> (manifest s = Absent
      \<longrightarrow> main E [prog, ''install'', pkg] s = (0, say (Err ConfigNotFound) s)
          \<and> main E [prog, ''build''] s = (0, say (Err ConfigNotFound) s)
          \<and> main E [prog, ''run''] s = (0, say (Err ConfigNotFound) s))
   \<and> (manifest s = JsonFile loaded \<and> ensure_directories s = (None, s1)
        \<and> j_at loaded ''dependencies'' = Inr config
        \<and> \<not> j_contains (j_get config ''dependencies'') pkg
        \<and> install_try E pkg (osBranch (platform E)) config s1 = (Some e, s2)
      \<longrightarrow> main E [prog, ''install'', pkg] s = (0, say (Err (FailedToInstall e)) s2))
   \<and> (manifest s \<noteq> Absent \<and> create_directory (project s) [''build''] = Inr r
        \<and> shell E CMakeConfigure r = (rc, r') \<and> rc \<noteq> 0
      \<longrightarrow> main E [prog, ''build''] s
            = (1, say (Err (AnErrorOccurred (RuntimeError CMakeConfigure)))
                    (say (Out Building) s\<lparr>project := r'\<rparr>)))
   \<and> (manifest s \<noteq> Absent \<and> create_directory (project s) [''build''] = Inr r
        \<and> shell E CMakeConfigure r = (0, r') \<and> shell E CMakeBuild r' = (rc, r'') \<and> rc \<noteq> 0
      \<longrightarrow> main E [prog, ''build''] s
            = (1, say (Err (AnErrorOccurred (RuntimeError CMakeBuild)))
                    (say (Out Building) s\<lparr>project := r''\<rparr>)))
   \<and> (manifest s = JsonFile loaded \<and> j_at loaded ''name'' = Inr named
        \<and> j_get named ''name'' = JStr projectName
        \<and> buildPath = [''build'', projectName @ (if platform E = Windows then ''.exe'' else [])]
        \<and> \<not> exists (project s) buildPath
      \<longrightarrow> main E [prog, ''run''] s
            = (0, say (Err (ExecutableNotFound buildPath)) (say (Out RunningProject) s)))
   \<and> (manifest s = JsonFile loaded \<and> j_at loaded ''name'' = Inr named
        \<and> j_get named ''name'' = JStr projectName
        \<and> buildPath = [''build'', projectName @ (if platform E = Windows then ''.exe'' else [])]
        \<and> exists (project s) buildPath
        \<and> shell E (RunTarget buildPath) (project s) = (rc, r') \<and> rc \<noteq> 0
      \<longrightarrow> main E [prog, ''run''] s
            = (0, say (Err FailedToRun) (say (Out RunningProject) s\<lparr>project := r'\<rparr>)))"
proof (intro conjI impI)
  show "main E [prog] s = (1, say (Err UsageHint) s)"
    by (rule main_usage)
  show "main E [prog, ''install''] s = (1, say (Err SpecifyPackage) s)"
    by (rule main_usage)
  show "main E [prog, ''install'', pkg] s =
       (case install E pkg [] s of
          (Some e, s') \<Rightarrow> (1, say (Err (AnErrorOccurred e)) s')
        | (None, s') \<Rightarrow> (0, s'))"
    by (rule main_install)
  show "fst (install E pkg version s) =
       (case manifest s of
          Absent \<Rightarrow> None
        | Garbage \<Rightarrow> Some ParseError
        | JsonFile loaded \<Rightarrow>
            if \<exists>x \<in> workspace. occupied (project s) x then Some FilesystemError
            else if \<not> object_like loaded then Some TypeError
            else None)"
    by (rule install_raises_exactly)
next
  assume a: "manifest s = Absent"
  from main_without_manifest[OF a]
  show "main E [prog, ''install'', pkg] s = (0, say (Err ConfigNotFound) s)"
    and "main E [prog, ''build''] s = (0, say (Err ConfigNotFound) s)"
    and "main E [prog, ''run''] s = (0, say (Err ConfigNotFound) s)"
    by simp_all
next
  assume "manifest s = JsonFile loaded \<and> ensure_directories s = (None, s1)
        \<and> j_at loaded ''dependencies'' = Inr config
        \<and> \<not> j_contains (j_get config ''dependencies'') pkg
        \<and> install_try E pkg (osBranch (platform E)) config s1 = (Some e, s2)"
  then have "install E pkg [] s = (None, say (Err (FailedToInstall e)) s2)"
    using install_try_fails[of s loaded s1 config pkg E "[]" e s2]
    by (simp add: resolvedVersion_def)
  then show "main E [prog, ''install'', pkg] s = (0, say (Err (FailedToInstall e)) s2)"
    by (simp add: main_install)
next
  assume "manifest s \<noteq> Absent \<and> create_directory (project s) [''build''] = Inr r
        \<and> shell E CMakeConfigure r = (rc, r') \<and> rc \<noteq> 0"
  then have "build E s = (Some (RuntimeError CMakeConfigure), say (Out Building) s\<lparr>project := r'\<rparr>)"
    using build_tool_fails[of s r E rc r'] by blast
  then show "main E [prog, ''build''] s
            = (1, say (Err (AnErrorOccurred (RuntimeError CMakeConfigure)))
                    (say (Out Building) s\<lparr>project := r'\<rparr>))"
    by (simp add: main_build)
next
  assume "manifest s \<noteq> Absent \<and> create_directory (project s) [''build''] = Inr r
        \<and> shell E CMakeConfigure r = (0, r') \<and> shell E CMakeBuild r' = (rc, r'') \<and> rc \<noteq> 0"
  then have "build E s = (Some (RuntimeError CMakeBuild), say (Out Building) s\<lparr>project := r''\<rparr>)"
    using build_step_fails[of s r E r' rc r''] by blast
  then show "main E [prog, ''build''] s
            = (1, say (Err (AnErrorOccurred (RuntimeError CMakeBuild)))
                    (say (Out Building) s\<lparr>project := r''\<rparr>))"
    by (simp add: main_build)
next
  assume "manifest s = JsonFile loaded \<and> j_at loaded ''name'' = Inr named
        \<and> j_get named ''name'' = JStr projectName
        \<and> buildPath = [''build'', projectName @ (if platform E = Windows then ''.exe'' else [])]
        \<and> \<not> exists (project s) buildPath"
  then have f: "manifest s = JsonFile loaded" "j_at loaded ''name'' = Inr named"
    "j_get named ''name'' = JStr projectName"
    "buildPath = [''build'', projectName @ (if platform E = Windows then ''.exe'' else [])]"
    "\<not> exists (project s) buildPath"
    by blast+
  from run_without_target[OF f]
  show "main E [prog, ''run''] s
            = (0, say (Err (ExecutableNotFound buildPath)) (say (Out RunningProject) s))"
    by (simp add: main_run)
next
  assume "manifest s = JsonFile loaded \<and> j_at loaded ''name'' = Inr named
        \<and> j_get named ''name'' = JStr projectName
        \<and> buildPath = [''build'', projectName @ (if platform E = Windows then ''.exe'' else [])]
        \<and> exists (project s) buildPath
        \<and> shell E (RunTarget buildPath) (project s) = (rc, r') \<and> rc \<noteq> 0"
  then have f: "manifest s = JsonFile loaded" "j_at loaded ''name'' = Inr named"
    "j_get named ''name'' = JStr projectName"
    "buildPath = [''build'', projectName @ (if platform E = Windows then ''.exe'' else [])]"
    "exists (project s) buildPath" "shell E (RunTarget buildPath) (project s) = (rc, r')" "rc \<noteq> 0"
    by blast+
  from run_target_fails[OF f]
  show "main E [prog, ''run''] s
            = (0, say (Err FailedToRun) (say (Out RunningProject) s\<lparr>project := r'\<rparr>))"
    by (simp add: main_run)
qed

text \<open>
  On the small project: the usage errors; the three exceptions that leave install; the
  missing manifest; a fetch error, a library that cannot be copied and dependencies that
  are a list, all three reported with status 0; cmake failing at either step; a missing
  and a failing executable.
\<close>

theorem exit_status_witness:
  "main host [''tegen''] demo = (1, say (Err UsageHint) demo)
   \<and> main host [''tegen'', ''install''] demo = (1, say (Err SpecifyPackage) demo)
   \<and> fst (install host ''widgets'' [] unreadable) = Some ParseError
   \<and> fst (main host [''tegen'', ''install'', ''widgets''] unreadable) = 1
   \<and> fst (install host ''widgets'' [] cluttered) = Some FilesystemError
   \<and> fst (install host ''widgets'' [] listed) = Some TypeError
   \<and> main host [''tegen'', ''install'', ''widgets''] uninitialised
       = (0, say (Err ConfigNotFound) uninitialised)
   \<and> fst (main offline [''tegen'', ''install'', ''widgets''] demo) = 0
   \<and> last (console (snd (main offline [''tegen'', ''install'', ''widgets''] demo)))
       = Err (FailedToInstall (RuntimeError (GitClone ''LinuxBranch'' ''widgets'' [''TegenModules'', ''widgets''])))
   \<and> fst (main host [''tegen'', ''install'', ''widgets''] blocked) = 0
   \<and> last (console (snd (main host [''tegen'', ''install'', ''widgets''] blocked)))
       = Err (FailedToInstall FilesystemError)
   \<and> fst (main host [''tegen'', ''install'', ''widgets''] broken) = 0
   \<and> last (console (snd (main host [''tegen'', ''install'', ''widgets''] broken)))
       = Err (FailedToInstall TypeError)
   \<and> fst (main failing_tools [''tegen'', ''build''] demo) = 1
   \<and> fst (main failing_build [''tegen'', ''build''] demo) = 1
   \<and> main host [''tegen'', ''run''] demo
       = (0, say (Err (ExecutableNotFound [''build'', ''demo''])) (say (Out RunningProject) demo))
   \<and> fst (main failing_tools [''tegen'', ''run''] built) = 0
   \<and> last (console (snd (main failing_tools [''tegen'', ''run''] built))) = Err FailedToRun"
proof -
  note usage = exit_status[where E = host and prog = "''tegen''" and s = demo]
  from usage have u1: "main host [''tegen''] demo = (1, say (Err UsageHint) demo)"
    and u2: "main host [''tegen'', ''install''] demo = (1, say (Err SpecifyPackage) demo)"
    by blast+
  note raised = exit_status[where E = host and prog = "''tegen''" and pkg = "''widgets''" and version = "[]"]
  have "\<exists>x \<in> workspace. occupied (project cluttered) x"
    by (auto simp: workspace_def occupied_def cluttered_def)
  moreover have "manifest cluttered = JsonFile recorded_manifest"
    by (simp add: cluttered_def recorded_def)
  ultimately have x2: "fst (install host ''widgets'' [] cluttered) = Some FilesystemError"
    using raised[where s = cluttered] by simp
  have "manifest unreadable = Garbage"
    by (simp add: unreadable_def)
  with raised[where s = unreadable] have x1: "fst (install host ''widgets'' [] unreadable) = Some ParseError"
    by simp
  with raised[where s = unreadable]
  have x1': "fst (main host [''tegen'', ''install'', ''widgets''] unreadable) = 1"
    by (cases "install host ''widgets'' [] unreadable") simp
  have "\<not> (\<exists>x \<in> workspace. occupied (project listed) x)"
    by (simp add: workspace_def occupied_def listed_def demo_def)
  moreover have "manifest listed = JsonFile (JArr [])"
    by (simp add: listed_def)
  ultimately have x3: "fst (install host ''widgets'' [] listed) = Some TypeError"
    using raised[where s = listed] by simp
  have "manifest uninitialised = Absent"
    by (simp add: uninitialised_def)
  with raised[where s = uninitialised]
  have a: "main host [''tegen'', ''install'', ''widgets''] uninitialised
       = (0, say (Err ConfigNotFound) uninitialised)"
    by blast

  have m_o: "manifest demo = JsonFile demo_manifest"
    by (simp add: demo_def demo_def)
  have f_o: "fst (ensure_directories demo) = None"
    by code_simp
  define s1_o where "s1_o = snd (ensure_directories demo)"
  from f_o have en_o: "ensure_directories demo = (None, s1_o)"
    by (simp add: prod_eq_iff s1_o_def)
  have j_o: "j_at demo_manifest ''dependencies'' = Inr demo_manifest"
    by (simp add: j_at_def demo_manifest_def)
  have nc_o: "\<not> j_contains (j_get demo_manifest ''dependencies'') ''widgets''"
    by (simp add: j_contains_def j_get_def demo_manifest_def)
  have "fst (install_try offline ''widgets'' (osBranch (platform offline)) demo_manifest (snd (ensure_directories demo)))
      = Some (RuntimeError (GitClone ''LinuxBranch'' ''widgets'' [''TegenModules'', ''widgets'']))"
    by code_simp
  then have g_o: "fst (install_try offline ''widgets'' (osBranch (platform offline)) demo_manifest s1_o) = Some (RuntimeError (GitClone ''LinuxBranch'' ''widgets'' [''TegenModules'', ''widgets'']))"
    by (simp only: s1_o_def)
  define s2_o where "s2_o = snd (install_try offline ''widgets'' (osBranch (platform offline)) demo_manifest s1_o)"
  from g_o have t_o: "install_try offline ''widgets'' (osBranch (platform offline)) demo_manifest s1_o = (Some (RuntimeError (GitClone ''LinuxBranch'' ''widgets'' [''TegenModules'', ''widgets''])), s2_o)"
    by (simp add: prod_eq_iff s2_o_def)
  from exit_status[where E = offline and prog = "''tegen''" and pkg = "''widgets''" and s = demo
      and loaded = demo_manifest and ?s1.0 = s1_o and config = demo_manifest and e = "RuntimeError (GitClone ''LinuxBranch'' ''widgets'' [''TegenModules'', ''widgets''])" and ?s2.0 = s2_o]
    m_o en_o j_o nc_o t_o
  have "main offline [''tegen'', ''install'', ''widgets''] demo = (0, say (Err (FailedToInstall (RuntimeError (GitClone ''LinuxBranch'' ''widgets'' [''TegenModules'', ''widgets''])))) s2_o)"
    by blast
  then have r_o: "fst (main offline [''tegen'', ''install'', ''widgets''] demo) = 0"
    "last (console (snd (main offline [''tegen'', ''install'', ''widgets''] demo))) = Err (FailedToInstall (RuntimeError (GitClone ''LinuxBranch'' ''widgets'' [''TegenModules'', ''widgets''])))"
    by simp_all

  have m_b: "manifest blocked = JsonFile demo_manifest"
    by (simp add: blocked_def demo_def)
  have f_b: "fst (ensure_directories blocked) = None"
    by code_simp
  define s1_b where "s1_b = snd (ensure_directories blocked)"
  from f_b have en_b: "ensure_directories blocked = (None, s1_b)"
    by (simp add: prod_eq_iff s1_b_def)
  have j_b: "j_at demo_manifest ''dependencies'' = Inr demo_manifest"
    by (simp add: j_at_def demo_manifest_def)
  have nc_b: "\<not> j_contains (j_get demo_manifest ''dependencies'') ''widgets''"
    by (simp add: j_contains_def j_get_def demo_manifest_def)
  have "fst (install_try host ''widgets'' (osBranch (platform host)) demo_manifest (snd (ensure_directories blocked)))
      = Some (FilesystemError)"
    by code_simp
  then have g_b: "fst (install_try host ''widgets'' (osBranch (platform host)) demo_manifest s1_b) = Some (FilesystemError)"
    by (simp only: s1_b_def)
  define s2_b where "s2_b = snd (install_try host ''widgets'' (osBranch (platform host)) demo_manifest s1_b)"
  from g_b have t_b: "install_try host ''widgets'' (osBranch (platform host)) demo_manifest s1_b = (Some (FilesystemError), s2_b)"
    by (simp add: prod_eq_iff s2_b_def)
  from exit_status[where E = host and prog = "''tegen''" and pkg = "''widgets''" and s = blocked
      and loaded = demo_manifest and ?s1.0 = s1_b and config = demo_manifest and e = "FilesystemError" and ?s2.0 = s2_b]
    m_b en_b j_b nc_b t_b
  have "main host [''tegen'', ''install'', ''widgets''] blocked = (0, say (Err (FailedToInstall (FilesystemError))) s2_b)"
    by blast
  then have r_b: "fst (main host [''tegen'', ''install'', ''widgets''] blocked) = 0"
    "last (console (snd (main host [''tegen'', ''install'', ''widgets''] blocked))) = Err (FailedToInstall (FilesystemError))"
    by simp_all

  have m_k: "manifest broken = JsonFile broken_manifest"
    by (simp add: broken_def)
  have f_k: "fst (ensure_directories broken) = None"
    by code_simp
  define s1_k where "s1_k = snd (ensure_directories broken)"
  from f_k have en_k: "ensure_directories broken = (None, s1_k)"
    by (simp add: prod_eq_iff s1_k_def)
  have j_k: "j_at broken_manifest ''dependencies'' = Inr broken_manifest"
    by (simp add: j_at_def broken_manifest_def)
  have nc_k: "\<not> j_contains (j_get broken_manifest ''dependencies'') ''widgets''"
    by (simp add: j_contains_def j_get_def broken_manifest_def)
  have "fst (install_try host ''widgets'' (osBranch (platform host)) broken_manifest (snd (ensure_directories broken)))
      = Some (TypeError)"
    by code_simp
  then have g_k: "fst (install_try host ''widgets'' (osBranch (platform host)) broken_manifest s1_k) = Some (TypeError)"
    by (simp only: s1_k_def)
  define s2_k where "s2_k = snd (install_try host ''widgets'' (osBranch (platform host)) broken_manifest s1_k)"
  from g_k have t_k: "install_try host ''widgets'' (osBranch (platform host)) broken_manifest s1_k = (Some (TypeError), s2_k)"
    by (simp add: prod_eq_iff s2_k_def)
  from exit_status[where E = host and prog = "''tegen''" and pkg = "''widgets''" and s = broken
      and loaded = broken_manifest and ?s1.0 = s1_k and config = broken_manifest and e = "TypeError" and ?s2.0 = s2_k]
    m_k en_k j_k nc_k t_k
  have "main host [''tegen'', ''install'', ''widgets''] broken = (0, say (Err (FailedToInstall (TypeError))) s2_k)"
    by blast
  then have r_k: "fst (main host [''tegen'', ''install'', ''widgets''] broken) = 0"
    "last (console (snd (main host [''tegen'', ''install'', ''widgets''] broken))) = Err (FailedToInstall (TypeError))"
    by simp_all

  have n: "manifest demo \<noteq> Absent" and md: "manifest demo = JsonFile demo_manifest"
    by (simp_all add: demo_def)
  have cd: "create_directory (project demo) [''build'']
       = Inr (Dir [(''CMakeLists.txt'', File ''project(demo)''), (''build'', Dir [])])"
    by code_simp
  let ?r = "Dir [(''CMakeLists.txt'', File ''project(demo)''), (''build'', Dir [])]"
  have sh1: "shell failing_tools CMakeConfigure ?r = (2, ?r)" "(2::int) \<noteq> 0"
    by (simp_all add: failing_tools_def)
  from exit_status[where E = failing_tools and prog = "''tegen''" and s = demo and r = ?r
      and rc = 2 and r' = ?r] n cd sh1
  have "main failing_tools [''tegen'', ''build''] demo
      = (1, say (Err (AnErrorOccurred (RuntimeError CMakeConfigure)))
              (say (Out Building) demo\<lparr>project := ?r\<rparr>))"
    by blast
  then have b1: "fst (main failing_tools [''tegen'', ''build''] demo) = 1"
    by simp
  have sh2: "shell failing_build CMakeConfigure ?r = (0, ?r)" "shell failing_build CMakeBuild ?r = (2, ?r)"
    by (simp_all add: failing_build_def)
  from exit_status[where E = failing_build and prog = "''tegen''" and s = demo and r = ?r
      and rc = 2 and r' = ?r and r'' = ?r] n cd sh2 sh1(2)
  have "main failing_build [''tegen'', ''build''] demo
      = (1, say (Err (AnErrorOccurred (RuntimeError CMakeBuild)))
              (say (Out Building) demo\<lparr>project := ?r\<rparr>))"
    by blast
  then have b2: "fst (main failing_build [''tegen'', ''build''] demo) = 1"
    by simp
  have jn: "j_at demo_manifest ''name'' = Inr demo_manifest"
    and gn: "j_get demo_manifest ''name'' = JStr ''demo''"
    by (simp_all add: j_at_def j_get_def demo_manifest_def)
  have p: "[''build'', ''demo''] = [''build'', ''demo'' @ (if platform host = Windows then ''.exe'' else [])]"
    and p': "[''build'', ''demo''] = [''build'', ''demo'' @ (if platform failing_tools = Windows then ''.exe'' else [])]"
    by (simp_all add: failing_tools_def host_def)
  have nx: "\<not> exists (project demo) [''build'', ''demo'']"
    by code_simp
  from exit_status[where E = host and prog = "''tegen''" and s = demo and loaded = demo_manifest
      and named = demo_manifest and projectName = "''demo''" and buildPath = "[''build'', ''demo'']"]
    md jn gn p nx
  have r1: "main host [''tegen'', ''run''] demo
       = (0, say (Err (ExecutableNotFound [''build'', ''demo''])) (say (Out RunningProject) demo))"
    by blast
  have mb: "manifest built = JsonFile demo_manifest"
    by (simp add: built_def demo_def)
  have x: "exists (project built) [''build'', ''demo'']"
    by code_simp
  have rt: "shell failing_tools (RunTarget [''build'', ''demo'']) (project built) = (2, project built)"
    by (simp add: failing_tools_def)
  from exit_status[where E = failing_tools and prog = "''tegen''" and s = built
      and loaded = demo_manifest and named = demo_manifest and projectName = "''demo''"
      and buildPath = "[''build'', ''demo'']" and rc = 2 and r' = "project built"]
    mb jn gn p' x rt sh1(2)
  have "main failing_tools [''tegen'', ''run''] built
      = (0, say (Err FailedToRun) (say (Out RunningProject) built\<lparr>project := project built\<rparr>))"
    by blast
  then have r2: "fst (main failing_tools [''tegen'', ''run''] built) = 0"
    "last (console (snd (main failing_tools [''tegen'', ''run''] built))) = Err FailedToRun"
    by simp_all
  from u1 u2 x1 x1' x2 x3 a r_o r_b r_k b1 b2 r1 r2 show ?thesis
    by blast
qed

subsection \<open>Header integration\<close>

text \<open>
  C7. When the header copy returns, every regular file below the repository's \<open>include\<close>
  is a regular file with the same content at the same relative path below the project's
  \<open>include\<close>, whatever file was there before, and with the directories on the way.
  Whether the copy returns or throws, the regular files outside the project's \<open>include\<close>
  are as they were, and so are (when the repository's \<open>include\<close> lists no name twice) the
  regular files below the project's \<open>include\<close> that no header is copied to. A repository
  without \<open>include\<close> leaves the state as it is and throws nothing. And the copy does
  return when the repository's \<open>include\<close> is a directory (with no name listed twice) that
  fits into the project's \<open>include\<close>: existing files are overwritten, missing directories
  are made. (For the success the name \<open>..\<close>, which leads out of the staging directory, is
  left aside.)
\<close>

theorem headers_are_mirrored:
  "(copy_headers (repoDir repository) s = (None, s') \<and> rel \<noteq> []
      \<and> lookup (project s) (repoDir repository @ [''include''] @ rel) = Some (File c)
    \<longrightarrow> lookup (project s') (projectInclude @ rel) = Some (File c))
   \<and> (copy_headers (repoDir repository) s = (ex, s')
      \<and> lookup (project s) q = Some (File c) \<and> (\<forall>b. q \<noteq> projectInclude @ b)
    \<longrightarrow> lookup (project s') q = Some (File c))
   \<and> (\<not> exists (project s) (repoDir repository @ [''include''])
    \<longrightarrow> copy_headers (repoDir repository) s = (None, s))
   \<and> (repository \<noteq> ''..''
      \<and> lookup (project s) (repoDir repository @ [''include'']) = Some (Dir es) \<and> wf_node (Dir es)
      \<and> lookup (project s) projectInclude = Some m \<and> fits (Dir es) m
    \<longrightarrow> (\<exists>t. copy_headers (repoDir repository) s = (None, t)))
   \<and> (copy_headers (repoDir repository) s = (ex, s')
      \<and> lookup (project s) (repoDir repository @ [''include'']) = Some (Dir es) \<and> wf_node (Dir es)
      \<and> lookup (project s) q = Some (File c)
      \<and> (\<forall>rel c'. q = projectInclude @ rel \<longrightarrow> lookup (Dir es) rel \<noteq> Some (File c'))
    \<longrightarrow> lookup (project s') q = Some (File c))"
proof (intro conjI impI)
  assume a: "copy_headers (repoDir repository) s = (None, s') \<and> rel \<noteq> []
      \<and> lookup (project s) (repoDir repository @ [''include''] @ rel) = Some (File c)"
  let ?src = "repoDir repository @ [''include'']"
  from a have l: "lookup (project s) (?src @ rel) = Some (File c)" by simp
  from a have "copy_headers (repoDir repository) s = (None, s')" by simp
  then show "lookup (project s') (projectInclude @ rel) = Some (File c)"
  proof (cases rule: copy_headers_cases)
    case nothing
    with lookup_is_above[OF l] show ?thesis by (auto simp: exists_def)
  next
    case (copied es s1)
    from lookup_is_above[OF l] copied(1) have "lookup (Dir es) rel = Some (File c)"
      by simp
    from walk_complete[OF this] a have "(rel, File c) \<in> set (walk (Dir es))"
      by blast
    then have "(rel, File c) \<in> set (filter (\<lambda>(p, n). is_regular_file n) (walk (Dir es)))"
      by simp
    then have m: "rel \<in> set (map fst (filter (\<lambda>(p, n). is_regular_file n) (walk (Dir es))))"
      by (metis fst_conv image_eqI set_map)
    from l have l': "lookup (project (say (Out CopyingHeaders) s)) (?src @ rel) = Some (File c)"
      by simp
    show ?thesis
    proof (cases "repository = ''..''")
      case True
      then have "?src = projectInclude"
        by (simp add: repoDir_def projectInclude_def)
      with copied(2) have "fst (copy_header_files projectInclude
          (length (filter (\<lambda>(p, n). is_regular_file n) (walk (Dir es)))) 0
          (map fst (filter (\<lambda>(p, n). is_regular_file n) (walk (Dir es))))
          (say (Out CopyingHeaders) s)) = None"
        by (simp del: walk.simps)
      moreover from m have "map fst (filter (\<lambda>(p, n). is_regular_file n) (walk (Dir es))) \<noteq> []"
        by (metis empty_iff list.set(1))
      ultimately show ?thesis
        using copy_header_files_in_place by blast
    next
      case False
      from repoDir_staged[OF this] obtain place where "repoDir repository = modulesDir @ place"
        by blast
      then have d: "?src @ x \<noteq> projectInclude @ y" for x y
        by (simp add: modulesDir_def projectInclude_def)
      from copy_header_files_copies[OF copied(2) d m l']
      have "lookup (project s1) (projectInclude @ rel) = Some (File c)" .
      with copied(4) show ?thesis
        by simp
    qed
  qed simp_all
next
  assume "copy_headers (repoDir repository) s = (ex, s')
      \<and> lookup (project s) q = Some (File c) \<and> (\<forall>b. q \<noteq> projectInclude @ b)"
  then show "lookup (project s') q = Some (File c)"
    using copy_headers_keeps_file[of "repoDir repository" s ex s' q c] by blast
next
  assume "\<not> exists (project s) (repoDir repository @ [''include''])"
  then show "copy_headers (repoDir repository) s = (None, s)"
    by (simp add: copy_headers_def)
next
  assume a: "repository \<noteq> ''..''
      \<and> lookup (project s) (repoDir repository @ [''include'']) = Some (Dir es) \<and> wf_node (Dir es)
      \<and> lookup (project s) projectInclude = Some m \<and> fits (Dir es) m"
  then obtain place where p: "repoDir repository = modulesDir @ place"
    using repoDir_staged by blast
  from a have "lookup (project s) (repoDir repository @ [''include'']) = Some (Dir es)"
    by blast
  with p have 1: "lookup (project s) (modulesDir @ place @ [''include'']) = Some (Dir es)"
    by simp
  from a have 2: "wf_node (Dir es)" "lookup (project s) projectInclude = Some m" "fits (Dir es) m"
    by blast+
  from headers_arrive[OF 1 2] p show "\<exists>t. copy_headers (repoDir repository) s = (None, t)"
    by simp
next
  assume a: "copy_headers (repoDir repository) s = (ex, s')
      \<and> lookup (project s) (repoDir repository @ [''include'']) = Some (Dir es) \<and> wf_node (Dir es)
      \<and> lookup (project s) q = Some (File c)
      \<and> (\<forall>rel c'. q = projectInclude @ rel \<longrightarrow> lookup (Dir es) rel \<noteq> Some (File c'))"
  then have h: "copy_headers (repoDir repository) s = (ex, s')"
    "lookup (project s) (repoDir repository @ [''include'']) = Some (Dir es)" "wf_node (Dir es)"
    "lookup (project s) q = Some (File c)"
    and o: "\<And>rel c'. q = projectInclude @ rel \<Longrightarrow> lookup (Dir es) rel \<noteq> Some (File c')"
    by blast+
  from copy_headers_keeps_other[OF h o] show "lookup (project s') q = Some (File c)" .
qed

text \<open>
  The headers of \<open>widgets\<close> fit into the project, where an older \<open>w.h\<close> and a header of
  the project's own are: the copy returns, the header in a subdirectory arrives with its
  directory, the older \<open>w.h\<close> is overwritten, the project's own header and the build
  description are untouched; without a fetched repository nothing happens.
\<close>

theorem headers_are_mirrored_witness:
  "lookup (project fetched) (repoDir ''widgets'' @ [''include''])
       = Some (Dir [(''w.h'', File ''H1''), (''sub'', Dir [(''x.h'', File ''H2'')])])
   \<and> lookup (project fetched) projectInclude
       = Some (Dir [(''w.h'', File ''OLD''), (''own.h'', File ''MINE'')])
   \<and> fits (Dir [(''w.h'', File ''H1''), (''sub'', Dir [(''x.h'', File ''H2'')])])
        (Dir [(''w.h'', File ''OLD''), (''own.h'', File ''MINE'')])
   \<and> fst (copy_headers (repoDir ''widgets'') fetched) = None
   \<and> lookup (project (snd (copy_headers (repoDir ''widgets'') fetched)))
         (projectInclude @ [''sub'', ''x.h'']) = Some (File ''H2'')
   \<and> lookup (project (snd (copy_headers (repoDir ''widgets'') fetched)))
         (projectInclude @ [''w.h'']) = Some (File ''H1'')
   \<and> lookup (project (snd (copy_headers (repoDir ''widgets'') fetched)))
         (projectInclude @ [''own.h'']) = Some (File ''MINE'')
   \<and> lookup (project (snd (copy_headers (repoDir ''widgets'') fetched))) cmakeFile
       = Some (File ''project(demo)'')
   \<and> \<not> exists (project ready) (repoDir ''widgets'' @ [''include''])
   \<and> copy_headers (repoDir ''widgets'') ready = (None, ready)"
proof -
  let ?c = "copy_headers (repoDir ''widgets'') fetched"
  let ?es = "[(''w.h'', File ''H1''), (''sub'', Dir [(''x.h'', File ''H2'')])]"
  let ?m = "Dir [(''w.h'', File ''OLD''), (''own.h'', File ''MINE'')]"
  have src: "lookup (project fetched) (repoDir ''widgets'' @ [''include'']) = Some (Dir ?es)"
    by code_simp
  have dst: "lookup (project fetched) projectInclude = Some ?m"
    by code_simp
  have wf: "wf_node (Dir ?es)"
    by code_simp
  have ft: "fits (Dir ?es) ?m"
    by code_simp
  have nw: "''widgets'' \<noteq> ''..''"
    by simp
  from headers_are_mirrored[where repository = "''widgets''" and s = fetched and es = ?es and m = ?m,
      THEN conjunct2, THEN conjunct2, THEN conjunct2, THEN conjunct1, THEN mp,
      OF conjI[OF nw conjI[OF src conjI[OF wf conjI[OF dst ft]]]]]
  have "\<exists>t. ?c = (None, t)" .
  then have e: "fst ?c = None"
    by auto
  then have c: "?c = (None, snd ?c)"
    by (simp add: prod_eq_iff)
  have x: "lookup (project fetched) (repoDir ''widgets'' @ [''include''] @ [''sub'', ''x.h'']) = Some (File ''H2'')"
    by code_simp
  have w: "lookup (project fetched) (repoDir ''widgets'' @ [''include''] @ [''w.h'']) = Some (File ''H1'')"
    by code_simp
  have m: "lookup (project fetched) cmakeFile = Some (File ''project(demo)'')"
    by code_simp
  have n: "\<not> exists (project ready) (repoDir ''widgets'' @ [''include''])"
    by code_simp
  have q: "\<forall>b. cmakeFile \<noteq> projectInclude @ b"
    by (simp add: cmakeFile_def projectInclude_def)
  define s' where "s' = snd ?c"
  note c' = c[folded s'_def]
  have ne: "[''sub'', ''x.h''] \<noteq> []" "[''w.h''] \<noteq> ([]::path)"
    by simp_all
  from headers_are_mirrored[where repository = "''widgets''" and s = fetched and s' = s'
      and rel = "[''sub'', ''x.h'']" and c = "''H2''", THEN conjunct1, THEN mp,
      OF conjI[OF c' conjI[OF ne(1) x]]]
  have 1: "lookup (project s') (projectInclude @ [''sub'', ''x.h'']) = Some (File ''H2'')" .
  from headers_are_mirrored[where repository = "''widgets''" and s = fetched and s' = s'
      and rel = "[''w.h'']" and c = "''H1''", THEN conjunct1, THEN mp,
      OF conjI[OF c' conjI[OF ne(2) w]]]
  have 2: "lookup (project s') (projectInclude @ [''w.h'']) = Some (File ''H1'')" .
  from headers_are_mirrored[where repository = "''widgets''" and s = fetched and s' = s'
      and ex = None and q = cmakeFile and c = "''project(demo)''", THEN conjunct2, THEN conjunct1,
      THEN mp, OF conjI[OF c' conjI[OF m q]]]
  have 3: "lookup (project s') cmakeFile = Some (File ''project(demo)'')" .
  from headers_are_mirrored[where repository = "''widgets''" and s = ready,
      THEN conjunct2, THEN conjunct2, THEN conjunct1, THEN mp, OF n]
  have 4: "copy_headers (repoDir ''widgets'') ready = (None, ready)" .
  have own: "lookup (project fetched) (projectInclude @ [''own.h'']) = Some (File ''MINE'')"
    by code_simp
  have other: "\<forall>rel c'. projectInclude @ [''own.h''] = projectInclude @ rel
      \<longrightarrow> lookup (Dir ?es) rel \<noteq> Some (File c')"
    by simp
  from headers_are_mirrored[where repository = "''widgets''" and s = fetched and s' = s'
      and ex = None and es = ?es and q = "projectInclude @ [''own.h'']" and c = "''MINE''",
      THEN conjunct2, THEN conjunct2, THEN conjunct2, THEN conjunct2, THEN mp,
      OF conjI[OF c' conjI[OF src conjI[OF wf conjI[OF own other]]]]]
  have 5: "lookup (project s') (projectInclude @ [''own.h'']) = Some (File ''MINE'')" .
  show ?thesis
    using src dst ft e 1[unfolded s'_def] 2[unfolded s'_def] 5[unfolded s'_def] 3[unfolded s'_def] n 4
    by (intro conjI)
qed

subsection \<open>Library integration\<close>




subsection \<open>Patching the build description\<close>

text \<open>
  C1, as the claim states it, fails: no marker is looked for. Two patches for \<open>widgets\<close>
  leave two blocks headed by its comment; and so do two installs of \<open>widgets\<close> in a project
  whose manifest cannot record it.
\<close>

theorem patching_twice_appends_twice:
  "marked_blocks ''widgets''
     (text_of (project (snd (repeat 2 (update_cmake host ''widgets'') ready))) cmakeFile) = 2
   \<and> marked_blocks ''widgets''
     (text_of (project (snd (repeat 2 (install host ''widgets'' []) broken))) cmakeFile) = 2"
  by code_simp

text \<open>
  C1, amended. Every patch appends: where the project's \<open>lib\<close> is a directory and
  \<open>CMakeLists.txt\<close> is not one, n patches for a name return normally and leave the text
  that was there followed by n copies of the block for that name. What keeps a second
  block away is the manifest: in a project whose \<open>CMakeLists.txt\<close> is a regular file,
  after an install that ended with the success message, any number of further installs of
  that name, whatever version they ask for, leave the build description as that install
  left it, the old text followed by one block.
\<close>

theorem patch_appends_every_time:
  "(lookup (project s) projectLib = Some (Dir es) \<and> \<not> is_directory (project s) cmakeFile
    \<longrightarrow> (\<exists>s'. repeat n (update_cmake E repository) s = (None, s')
          \<and> text_of (project s') cmakeFile
              = text_of (project s) cmakeFile
                @ concat (replicate n (directive_block E repository (map fst es)))))
   \<and> (install E repository version s = (None, s1)
      \<and> last (console s1) = Out (Installed repository)
      \<and> lookup (project s) cmakeFile = Some (File old)
    \<longrightarrow> (\<exists>libs. \<forall>n v. text_of (project (snd (repeat n (install E repository v) s1))) cmakeFile
              = old @ directive_block E repository libs))"
proof (intro conjI impI)
  assume "lookup (project s) projectLib = Some (Dir es) \<and> \<not> is_directory (project s) cmakeFile"
  then show "\<exists>s'. repeat n (update_cmake E repository) s = (None, s')
          \<and> text_of (project s') cmakeFile
              = text_of (project s) cmakeFile
                @ concat (replicate n (directive_block E repository (map fst es)))"
    using repeat_update_cmake by blast
next
  assume a: "install E repository version s = (None, s1)
      \<and> last (console s1) = Out (Installed repository)
      \<and> lookup (project s) cmakeFile = Some (File old)"
  then obtain libs where
    b: "lookup (project s1) cmakeFile = Some (File (old @ directive_block E repository libs))"
    using install_appends_block[of E repository version s s1 old] by blast
  from a obtain saved where m: "manifest s1 = JsonFile saved"
    "dependency saved repository = Some (JStr (resolvedVersion (platform E) version))"
    using install_records[of E repository version s s1] by blast
  let ?P = "\<lambda>t. manifest t = manifest s1 \<and> lookup (project t) cmakeFile = lookup (project s1) cmakeFile"
  have "text_of (project (snd (repeat n (install E repository v) s1))) cmakeFile
      = old @ directive_block E repository libs" for n v
  proof -
    have "repeat n (install E repository v) s1
        = (fst (repeat n (install E repository v) s1), snd (repeat n (install E repository v) s1))"
      by simp
    then have "?P (snd (repeat n (install E repository v) s1))"
    proof (rule repeat_invariant[where P = ?P])
      show "?P s1" by simp
    next
      fix t ex t'
      assume i: "install E repository v t = (ex, t')" and p: "?P t"
      with m have "manifest t = JsonFile saved" by simp
      from install_recorded_name[OF this m(2) i] p show "?P t'"
        by simp
    qed
    with b show ?thesis
      by (simp add: text_of_def)
  qed
  then show "\<exists>libs. \<forall>n v. text_of (project (snd (repeat n (install E repository v) s1))) cmakeFile
              = old @ directive_block E repository libs"
    by blast
qed

text \<open>
  Three patches on the prepared project give three blocks; after \<open>widgets\<close> is installed,
  two more installs change nothing in the build description.
\<close>

theorem patch_appends_every_time_witness:
  "lookup (project ready) projectLib = Some (Dir []) \<and> \<not> is_directory (project ready) cmakeFile
   \<and> fst (repeat 3 (update_cmake host ''widgets'') ready) = None
   \<and> text_of (project (snd (repeat 3 (update_cmake host ''widgets'') ready))) cmakeFile
       = ''project(demo)'' @ directive_block host ''widgets'' [] @ directive_block host ''widgets'' []
         @ directive_block host ''widgets'' []
   \<and> fst (install host ''widgets'' [] demo) = None
   \<and> last (console (snd (install host ''widgets'' [] demo))) = Out (Installed ''widgets'')
   \<and> lookup (project demo) cmakeFile = Some (File ''project(demo)'')
   \<and> text_of (project (snd (install host ''widgets'' [] demo))) cmakeFile
       = ''project(demo)'' @ directive_block host ''widgets'' [''libw.a'']
   \<and> text_of (project (snd (repeat 2 (install host ''widgets'' ''main'')
         (snd (install host ''widgets'' [] demo))))) cmakeFile
       = ''project(demo)'' @ directive_block host ''widgets'' [''libw.a'']"
proof -
  let ?i = "install host ''widgets'' [] demo"
  have l: "lookup (project ready) projectLib = Some (Dir [])"
    by code_simp
  have d: "\<not> is_directory (project ready) cmakeFile"
    by code_simp
  have t0: "text_of (project ready) cmakeFile = ''project(demo)''"
    by code_simp
  have e: "fst ?i = None"
    by code_simp
  have c: "last (console (snd ?i)) = Out (Installed ''widgets'')"
    by code_simp
  have o: "lookup (project demo) cmakeFile = Some (File ''project(demo)'')"
    by code_simp
  have t1: "text_of (project (snd ?i)) cmakeFile
       = ''project(demo)'' @ directive_block host ''widgets'' [''libw.a'']"
    by code_simp
  have r3: "concat (replicate 3 b) = b @ b @ b" for b :: string
    by (simp add: numeral_3_eq_3)
  from patch_appends_every_time[where s = ready and es = "[]" and n = 3 and E = host
      and repository = "''widgets''", THEN conjunct1, THEN mp, OF conjI[OF l d]]
  have "fst (repeat 3 (update_cmake host ''widgets'') ready) = None
    \<and> text_of (project (snd (repeat 3 (update_cmake host ''widgets'') ready))) cmakeFile
        = text_of (project ready) cmakeFile
          @ concat (replicate 3 (directive_block host ''widgets'' (map fst ([] :: (string \<times> node) list))))"
    by (rule returned[where P = "\<lambda>s' :: state. text_of (project s') cmakeFile
        = text_of (project ready) cmakeFile
          @ concat (replicate 3 (directive_block host ''widgets'' (map fst ([] :: (string \<times> node) list))))"])
  with t0 have 1: "fst (repeat 3 (update_cmake host ''widgets'') ready) = None"
    and 2: "text_of (project (snd (repeat 3 (update_cmake host ''widgets'') ready))) cmakeFile
       = ''project(demo)'' @ directive_block host ''widgets'' [] @ directive_block host ''widgets'' []
         @ directive_block host ''widgets'' []"
    by (simp_all add: r3)
  define s1 where "s1 = snd ?i"
  from e have i: "?i = (None, s1)"
    by (simp add: prod_eq_iff s1_def)
  from c have c': "last (console s1) = Out (Installed ''widgets'')"
    by (simp only: s1_def)
  from t1 have t1': "text_of (project s1) cmakeFile
       = ''project(demo)'' @ directive_block host ''widgets'' [''libw.a'']"
    by (simp only: s1_def)
  have z: "text_of (project (snd (repeat 0 (install host ''widgets'' []) s1))) cmakeFile
       = ''project(demo)'' @ directive_block host ''widgets'' [''libw.a'']"
    using t1' by simp
  from patch_appends_every_time[where s = demo and E = host and repository = "''widgets''"
      and version = "[]" and ?s1.0 = s1 and old = "''project(demo)''",
      THEN conjunct2, THEN mp, OF conjI[OF i conjI[OF c' o]]]
  have "text_of (project (snd (repeat 2 (install host ''widgets'' ''main'') s1))) cmakeFile
      = ''project(demo)'' @ directive_block host ''widgets'' [''libw.a'']"
    using z
    by (rule constant_text[where
          f = "\<lambda>n v. text_of (project (snd (repeat n (install host ''widgets'' v) s1))) cmakeFile"
          and g = "directive_block host ''widgets''" and pre = "''project(demo)''"])
  then have 3: "text_of (project (snd (repeat 2 (install host ''widgets'' ''main'') (snd ?i)))) cmakeFile
      = ''project(demo)'' @ directive_block host ''widgets'' [''libw.a'']"
    by (simp only: s1_def)
  show ?thesis
    by (intro conjI) (fact l d 1 2 e c o t1 3)+
qed

subsection \<open>The libraries a patch links\<close>



end
